(* ===== verification/Prelude.thy ===== *)
theory Prelude
  imports
    Main
    "HOL-Library.Word"
    "HOL-Library.AList"
    "HOL-Library.Multiset"
    "HOL-Library.Char_ord"
    "HOL-Library.List_Lexorder"
    "HOL-Library.Signed_Division"
begin

text \<open>
  Prelude of the development: the parts of Go and its standard library that the operator uses
  (errors, fixed-width integers, instants, string formatting), the named collections of rewrite
  rules, and the generic list and association-list lemmas the component theories share.
\<close>

section \<open>Collections of rules\<close>

named_theorems go_err \<open>equations for Go error values\<close>
named_theorems go_str \<open>equations and bounds for Go string helpers\<close>
named_theorems k8s_defs \<open>definitions of the Kubernetes object builders\<close>

section \<open>Errors\<close>

text \<open>
  A Go \<open>error\<close> value as the operator observes it: its text, the sentinels \<open>errors.Is\<close> finds in
  its wrap chain, and the API-server reason that \<open>apierrors.IsNotFound\<close> and
  \<open>apierrors.IsConflict\<close> test (both look through wrapping).
\<close>

datatype sentinel =
    ErrTransient | ErrPermanent | ErrUnauthorized | ErrNotFound
  | ErrNoRepositories | ErrInvalidBounds
  | ErrNilRun | ErrEmptyAccessToken
  | ErrNilConfigMap | ErrInvalidWorker | ErrNoCredential
  | ErrPanic

datatype api_reason = StatusNotFound | StatusConflict | StatusAlreadyExists | StatusOther

record goerror =
  err_msg :: string
  err_is :: "sentinel list"
  err_api :: "api_reason option"

type_synonym 'a res = "goerror + 'a"

definition errors_New :: "string \<Rightarrow> goerror" where
  "errors_New m = \<lparr>err_msg = m, err_is = [], err_api = None\<rparr>"

definition sentinel_error :: "sentinel \<Rightarrow> string \<Rightarrow> goerror" where
  "sentinel_error s m = \<lparr>err_msg = m, err_is = [s], err_api = None\<rparr>"

text \<open>\<open>fmt.Errorf("<pre>%w", err)\<close>: the text is prefixed, the wrap chain is kept.\<close>

definition wrapf :: "string \<Rightarrow> goerror \<Rightarrow> goerror" where
  "wrapf pre e = e\<lparr>err_msg := pre @ err_msg e\<rparr>"

text \<open>\<open>fmt.Errorf("%w: %v", sentinel, err)\<close>: only the sentinel is wrapped, the cause is text.\<close>

definition wrap_sentinel :: "sentinel \<Rightarrow> string \<Rightarrow> goerror \<Rightarrow> goerror" where
  "wrap_sentinel s m e = sentinel_error s (m @ '': '' @ err_msg e)"

definition errors_Is :: "goerror \<Rightarrow> sentinel \<Rightarrow> bool" where
  "errors_Is e s = (s \<in> set (err_is e))"

definition IsNotFound :: "goerror \<Rightarrow> bool" where
  "IsNotFound e = (err_api e = Some StatusNotFound)"

definition IsConflict :: "goerror \<Rightarrow> bool" where
  "IsConflict e = (err_api e = Some StatusConflict)"

lemma errors_Is_simps [simp, go_err]:
  "errors_Is (errors_New m) s = False"
  "errors_Is (sentinel_error t m) s = (s = t)"
  "errors_Is (wrapf p e) s = errors_Is e s"
  "errors_Is (wrap_sentinel t m e) s = (s = t)"
  by (auto simp: errors_Is_def errors_New_def sentinel_error_def wrapf_def wrap_sentinel_def)

lemma IsNotFound_simps [simp, go_err]:
  "IsNotFound (wrapf p e) = IsNotFound e"
  "IsConflict (wrapf p e) = IsConflict e"
  "\<not> IsNotFound (errors_New m)"
  "\<not> IsConflict (errors_New m)"
  by (auto simp: IsNotFound_def IsConflict_def wrapf_def errors_New_def)

lemma IsNotFound_not_conflict [simp, go_err]: "IsNotFound e \<Longrightarrow> \<not> IsConflict e"
  by (simp add: IsNotFound_def IsConflict_def)

lemma err_msg_simps [simp, go_err]:
  "err_msg (errors_New m) = m"
  "err_msg (sentinel_error s m) = m"
  "err_msg (wrapf p e) = p @ err_msg e"
  by (auto simp: errors_New_def sentinel_error_def wrapf_def)

section \<open>Fixed-width integers\<close>

type_synonym int32 = "32 word"

text \<open>Go's \<open>/\<close> on \<open>int32\<close> truncates towards zero.\<close>

definition div32 :: "int32 \<Rightarrow> int32 \<Rightarrow> int32" where
  "div32 a b = word_of_int (sint a sdiv sint b)"

lemma sint32_range: "- (2 ^ 31) \<le> sint (x :: int32)" "sint (x :: int32) < 2 ^ 31"
  using sint_ge [of x] sint_lt [of x] by simp_all

lemma sint32_of_int:
  assumes "- (2 ^ 31) \<le> i" and "i < 2 ^ 31"
  shows "sint (word_of_int i :: int32) = i"
  using assms by (simp add: sint_sbintrunc' signed_take_bit_int_eq_self)

lemma sint64_of_int:
  assumes "- (2 ^ 63) \<le> i" and "i < 2 ^ 63"
  shows "sint (word_of_int i :: 64 word) = i"
  using assms by (simp add: sint_sbintrunc' signed_take_bit_int_eq_self)

section \<open>Instants\<close>

text \<open>
  A \<open>time.Time\<close>: nanoseconds since the Unix epoch and the name of its location. The zero value is
  midnight UTC of 1 January of year 1.
\<close>

record gotime =
  wall :: int
  zone :: string

definition nanos_per_second :: int where
  "nanos_per_second = 1000000000"

definition zero_wall :: int where
  "zero_wall = - 62135596800 * nanos_per_second"

definition zero_time :: gotime where
  "zero_time = \<lparr>wall = zero_wall, zone = ''UTC''\<rparr>"

definition IsZero :: "gotime \<Rightarrow> bool" where
  "IsZero t = (wall t = zero_wall)"

definition After :: "gotime \<Rightarrow> gotime \<Rightarrow> bool" where
  "After t u = (wall t > wall u)"

definition In_loc :: "gotime \<Rightarrow> string \<Rightarrow> gotime" where
  "In_loc t loc = t\<lparr>zone := loc\<rparr>"

text \<open>A \<open>time.Duration\<close> is an \<open>int64\<close> count of nanoseconds; \<open>Time.Sub\<close> saturates at its ends.\<close>

definition max_duration :: int where
  "max_duration = 2 ^ 63 - 1"

definition min_duration :: int where
  "min_duration = - (2 ^ 63)"

definition Add_dur :: "gotime \<Rightarrow> int \<Rightarrow> gotime" where
  "Add_dur t d = t\<lparr>wall := wall t + d\<rparr>"

definition Sub_time :: "gotime \<Rightarrow> gotime \<Rightarrow> int" where
  "Sub_time t u = max min_duration (min max_duration (wall t - wall u))"

lemma After_irrefl [simp]: "\<not> After t t"
  by (simp add: After_def)

lemma After_In_loc [simp]:
  "After (In_loc t l) u = After t u" "After t (In_loc u l) = After t u"
  by (simp_all add: After_def In_loc_def)

lemma wall_In_loc [simp]: "wall (In_loc t l) = wall t"
  by (simp add: In_loc_def)

lemma IsZero_zero_time [simp]: "IsZero zero_time"
  by (simp add: IsZero_def zero_time_def)

section \<open>Decimal formatting\<close>

definition digit_char :: "nat \<Rightarrow> char" where
  "digit_char d = char_of (48 + d)"

fun itoa_nat :: "nat \<Rightarrow> string" where
  "itoa_nat n = (if n < 10 then [digit_char n] else itoa_nat (n div 10) @ [digit_char (n mod 10)])"

declare itoa_nat.simps [simp del]

definition itoa :: "int \<Rightarrow> string" where
  "itoa i = (if i < 0 then ''-'' @ itoa_nat (nat (- i)) else itoa_nat (nat i))"

text \<open>\<open>%04d\<close> of a non-negative number.\<close>

definition pad04 :: "nat \<Rightarrow> string" where
  "pad04 n = replicate (4 - length (itoa_nat n)) CHR ''0'' @ itoa_nat n"

text \<open>The inverse of decimal formatting, for round trips.\<close>

fun atoi_nat :: "nat \<Rightarrow> string \<Rightarrow> nat" where
  "atoi_nat acc [] = acc"
| "atoi_nat acc (c # cs) = atoi_nat (10 * acc + (of_char c - 48)) cs"

lemma of_char_digit [simp, go_str]: "d < 10 \<Longrightarrow> of_char (digit_char d) = (48 + d :: nat)"
  by (simp add: digit_char_def)

lemma atoi_nat_append: "atoi_nat acc (xs @ ys) = atoi_nat (atoi_nat acc xs) ys"
  by (induction xs arbitrary: acc) auto

lemma atoi_itoa [simp, go_str]: "atoi_nat 0 (itoa_nat n) = n"
proof (induction n rule: itoa_nat.induct)
  case (1 n)
  show ?case
  proof (cases "n < 10")
    case True
    then show ?thesis by (simp add: itoa_nat.simps [of n])
  next
    case False
    with 1 have "atoi_nat 0 (itoa_nat (n div 10)) = n div 10" by simp
    with False show ?thesis
      by (simp add: itoa_nat.simps [of n] atoi_nat_append)
  qed
qed

lemma atoi_zeros [simp]: "atoi_nat 0 (replicate k CHR ''0'' @ s) = atoi_nat 0 s"
  by (induction k) auto

lemma atoi_pad04 [simp, go_str]: "atoi_nat 0 (pad04 n) = n"
  by (simp add: pad04_def)

lemma itoa_nat_inj: "itoa_nat m = itoa_nat n \<Longrightarrow> m = n"
  by (metis atoi_itoa)

lemma pad04_inj: "pad04 m = pad04 n \<Longrightarrow> m = n"
  by (metis atoi_pad04)

lemma itoa_nat_digits: "c \<in> set (itoa_nat n) \<Longrightarrow> 48 \<le> (of_char c :: nat) \<and> (of_char c :: nat) < 58"
proof (induction n arbitrary: c rule: itoa_nat.induct)
  case (1 n)
  show ?case
  proof (cases "n < 10")
    case True
    with 1 show ?thesis by (simp add: itoa_nat.simps [of n])
  next
    case False
    with "1.prems" consider "c \<in> set (itoa_nat (n div 10))" | "c = digit_char (n mod 10)"
      by (auto simp: itoa_nat.simps [of n])
    then show ?thesis
      using False "1.IH" by cases auto
  qed
qed

lemma itoa_nat_nonempty [simp]: "itoa_nat n \<noteq> []"
  by (simp add: itoa_nat.simps [of n])

lemma itoa_nat_hd: "48 \<le> (of_char (hd (itoa_nat n)) :: nat) \<and> (of_char (hd (itoa_nat n)) :: nat) < 58"
  using itoa_nat_digits [of "hd (itoa_nat n)" n] by simp

section \<open>String helpers of the \<open>strings\<close> and \<open>bytes\<close> packages\<close>

text \<open>\<open>strings.IndexByte\<close>; \<open>None\<close> stands for -1.\<close>

fun IndexByte :: "string \<Rightarrow> char \<Rightarrow> nat option" where
  "IndexByte [] b = None"
| "IndexByte (c # cs) b = (if c = b then Some 0 else map_option Suc (IndexByte cs b))"

definition TrimRight :: "string \<Rightarrow> char \<Rightarrow> string" where
  "TrimRight s c = rev (dropWhile (\<lambda>x. x = c) (rev s))"

text \<open>
  \<open>strings.TrimSpace\<close>: the UTF-8 encodings of the code points \<open>unicode.IsSpace\<close> accepts are cut
  from both ends. A byte sequence that is none of them stops the trimming.
\<close>

definition unicode_spaces :: "string list" where
  "unicode_spaces =
     [[CHR 0x09], [CHR 0x0A], [CHR 0x0B], [CHR 0x0C], [CHR 0x0D], [CHR 0x20],
      [CHR 0xC2, CHR 0x85], [CHR 0xC2, CHR 0xA0], [CHR 0xE1, CHR 0x9A, CHR 0x80],
      [CHR 0xE2, CHR 0x80, CHR 0x80], [CHR 0xE2, CHR 0x80, CHR 0x81],
      [CHR 0xE2, CHR 0x80, CHR 0x82], [CHR 0xE2, CHR 0x80, CHR 0x83],
      [CHR 0xE2, CHR 0x80, CHR 0x84], [CHR 0xE2, CHR 0x80, CHR 0x85],
      [CHR 0xE2, CHR 0x80, CHR 0x86], [CHR 0xE2, CHR 0x80, CHR 0x87],
      [CHR 0xE2, CHR 0x80, CHR 0x88], [CHR 0xE2, CHR 0x80, CHR 0x89],
      [CHR 0xE2, CHR 0x80, CHR 0x8A], [CHR 0xE2, CHR 0x80, CHR 0xA8],
      [CHR 0xE2, CHR 0x80, CHR 0xA9], [CHR 0xE2, CHR 0x80, CHR 0xAF],
      [CHR 0xE2, CHR 0x81, CHR 0x9F], [CHR 0xE3, CHR 0x80, CHR 0x80]]"

lemma take_nonempty_prefix: "take (length p) s = p \<Longrightarrow> p \<noteq> [] \<Longrightarrow> length s - length p < length s"
  by (cases s) auto

function trim_prefixes :: "string list \<Rightarrow> string \<Rightarrow> string" where
  "trim_prefixes ps s =
     (case List.find (\<lambda>p. p \<noteq> [] \<and> take (length p) s = p) ps of
        None \<Rightarrow> s
      | Some p \<Rightarrow> trim_prefixes ps (drop (length p) s))"
  by pat_completeness auto
termination
  by (relation "measure (length \<circ> snd)") (auto simp: find_Some_iff dest: take_nonempty_prefix)

declare trim_prefixes.simps [simp del]

definition TrimSpace :: "string \<Rightarrow> string" where
  "TrimSpace s =
     rev (trim_prefixes (map rev unicode_spaces) (rev (trim_prefixes unicode_spaces s)))"

lemma trim_prefixes_id:
  assumes "\<And>p. p \<in> set ps \<Longrightarrow> p = [] \<or> take (length p) s \<noteq> p"
  shows "trim_prefixes ps s = s"
proof -
  have "List.find (\<lambda>p. p \<noteq> [] \<and> take (length p) s = p) ps = None"
    using assms by (auto simp: find_None_iff)
  then show ?thesis by (simp add: trim_prefixes.simps [of ps s])
qed

lemma trim_prefixes_Nil [simp, go_str]: "trim_prefixes ps [] = []"
  by (rule trim_prefixes_id) auto

lemma TrimSpace_Nil [simp, go_str]: "TrimSpace [] = []"
  by (simp add: TrimSpace_def)

definition hex_digit :: "nat \<Rightarrow> char" where
  "hex_digit d = (if d < 10 then char_of (48 + d) else char_of (87 + d))"

text \<open>
  \<open>%q\<close>, that is \<open>strconv.Quote\<close>: quotes, backslashes and control bytes are escaped; bytes from
  \<open>0x80\<close> on are copied, as Go does for printable UTF-8.
\<close>

definition quote_char :: "char \<Rightarrow> string" where
  "quote_char c = (let n = of_char c :: nat in
     if n = 34 then [CHR 0x5C, CHR 0x22]
     else if n = 92 then [CHR 0x5C, CHR 0x5C]
     else if n = 7 then [CHR 0x5C, CHR ''a'']
     else if n = 8 then [CHR 0x5C, CHR ''b'']
     else if n = 12 then [CHR 0x5C, CHR ''f'']
     else if n = 10 then [CHR 0x5C, CHR ''n'']
     else if n = 13 then [CHR 0x5C, CHR ''r'']
     else if n = 9 then [CHR 0x5C, CHR ''t'']
     else if n = 11 then [CHR 0x5C, CHR ''v'']
     else if n < 32 \<or> n = 127 then
       [CHR 0x5C, CHR ''x'', hex_digit (n div 16), hex_digit (n mod 16)]
     else [c])"

definition go_quote :: "string \<Rightarrow> string" where
  "go_quote s = [CHR 0x22] @ concat (map quote_char s) @ [CHR 0x22]"

lemma IndexByte_None: "IndexByte s b = None \<longleftrightarrow> b \<notin> set s"
  by (induction s) auto

lemma IndexByte_absent [simp, go_str]: "b \<notin> set s \<Longrightarrow> IndexByte s b = None"
  by (simp add: IndexByte_None)

lemma IndexByte_Some:
  "IndexByte s b = Some i \<longleftrightarrow> i < length s \<and> s ! i = b \<and> b \<notin> set (take i s)"
proof (induction s arbitrary: i)
  case Nil
  then show ?case by simp
next
  case (Cons c cs)
  show ?case
    by (cases i) (auto simp: Cons.IH)
qed

lemma IndexByte_append: "b \<notin> set xs \<Longrightarrow> IndexByte (xs @ b # ys) b = Some (length xs)"
  by (simp add: IndexByte_Some)

section \<open>Association lists as Go maps\<close>

text \<open>
  A Go map is an association list; assignment is \<^const>\<open>AList.update\<close>, lookup is \<^const>\<open>map_of\<close>.
\<close>

type_synonym labels = "(string \<times> string) list"

lemma length_update_new:
  "k \<notin> fst ` set al \<Longrightarrow> length (AList.update k v al) = Suc (length al)"
  by (induction al) auto

lemma update_new_append: "k \<notin> fst ` set al \<Longrightarrow> AList.update k v al = al @ [(k, v)]"
  by (induction al) auto

section \<open>Lists\<close>

lemma mset_concat_list_update:
  "i < length xss \<Longrightarrow>
   mset (concat (xss[i := xss ! i @ ys])) = mset (concat xss) + mset ys"
proof (induction xss arbitrary: i)
  case Nil
  then show ?case by simp
next
  case (Cons x xss)
  then show ?case by (cases i) auto
qed

lemma length_concat_replicate_Nil [simp]: "concat (replicate n []) = []"
  by (induction n) auto

lemma upt_add_Cons: "[i..<i + length (x # xs)] = i # [Suc i..<Suc i + length xs]"
  by (simp add: upt_conv_Cons del: upt_Suc)

lemma map_filter_Cons_if: "map f (filter P (x # xs)) = (if P x then [f x] else []) @ map f (filter P xs)"
  by simp

section \<open>Options\<close>

fun opt_or :: "'a option \<Rightarrow> 'a option \<Rightarrow> 'a option" where
  "opt_or (Some x) y = Some x"
| "opt_or None y = y"

lemma opt_or_None [simp]: "opt_or x None = x"
  by (cases x) auto

lemma opt_or_if [simp]: "opt_or (if b then x else y) z = (if b then opt_or x z else opt_or y z)"
  by simp

lemma find_append: "List.find P (xs @ ys) = opt_or (List.find P xs) (List.find P ys)"
  by (induction xs) auto

lemma TrimRight_last: "s \<noteq> [] \<Longrightarrow> last s \<noteq> c \<Longrightarrow> TrimRight s c = s"
  by (cases s rule: rev_cases) (auto simp: TrimRight_def)

lemma TrimRight_snoc [simp]: "TrimRight (s @ [c]) c = TrimRight s c"
  by (simp add: TrimRight_def)

section \<open>Invariants of transition systems\<close>

locale invariant_system =
  fixes init :: "'a \<Rightarrow> bool" and step :: "'a \<Rightarrow> 'a \<Rightarrow> bool" and inv :: "'a \<Rightarrow> bool"
  assumes init_inv: "init s \<Longrightarrow> inv s"
    and step_inv: "inv s \<Longrightarrow> step s t \<Longrightarrow> inv t"
begin

lemma steps_inv: "step\<^sup>*\<^sup>* s t \<Longrightarrow> inv s \<Longrightarrow> inv t"
  by (induction rule: rtranclp_induct) (auto intro: step_inv)

lemma reachable_inv: "init s \<Longrightarrow> step\<^sup>*\<^sup>* s t \<Longrightarrow> inv t"
  by (blast intro: steps_inv init_inv)

end

text \<open>
  Refinement of an abstract system: an abstraction \<open>absf\<close> under which every concrete step is matched
  by abstract ones. What the abstract steps preserve then holds of the concrete system.
\<close>

locale simulation = invariant_system init step inv
  for init :: "'a \<Rightarrow> bool" and step :: "'a \<Rightarrow> 'a \<Rightarrow> bool" and inv :: "'a \<Rightarrow> bool" +
  fixes astep :: "'b \<Rightarrow> 'b \<Rightarrow> bool" and absf :: "'a \<Rightarrow> 'b"
  assumes simulates: "inv s \<Longrightarrow> step s t \<Longrightarrow> astep\<^sup>*\<^sup>* (absf s) (absf t)"
begin

lemma steps_simulated: "step\<^sup>*\<^sup>* s t \<Longrightarrow> inv s \<Longrightarrow> astep\<^sup>*\<^sup>* (absf s) (absf t)"
  by (induction rule: rtranclp_induct) (auto intro: simulates steps_inv rtranclp_trans)

lemma transfers:
  assumes "step\<^sup>*\<^sup>* s t" and "inv s" and "Q (absf s)" and "\<And>a b. Q a \<Longrightarrow> astep a b \<Longrightarrow> Q b"
  shows "Q (absf t)"
  using steps_simulated [OF assms(1,2)] assms(3) by (induction rule: rtranclp_induct) (auto intro: assms(4))

end

section \<open>Names derived from another name\<close>

text \<open>
  Children of a Run are named by a prefix or suffix and the Run's name, cut to the length of a DNS-1123
  label. \<open>DNS1123LabelMaxLength\<close> is the limit of \<open>k8s.io/apimachinery/pkg/util/validation\<close>.
\<close>

definition DNS1123LabelMaxLength :: nat where
  "DNS1123LabelMaxLength = 63"

locale bounded_name =
  fixes mk :: "string \<Rightarrow> string" and pre suf :: string and budget :: nat
  assumes mk_eq: "mk s = pre @ take budget s @ suf"
    and fits: "length pre + budget + length suf = DNS1123LabelMaxLength"
begin

lemma length_mk: "length (mk s) \<le> DNS1123LabelMaxLength"
  using fits by (simp add: mk_eq)

lemma mk_short: "length s \<le> budget \<Longrightarrow> mk s = pre @ s @ suf"
  by (simp add: mk_eq)

lemma mk_eq_iff: "mk s = mk t \<longleftrightarrow> take budget s = take budget t"
  by (simp add: mk_eq)

lemma mk_inj_short: "length s \<le> budget \<Longrightarrow> length t \<le> budget \<Longrightarrow> mk s = mk t \<longleftrightarrow> s = t"
  by (simp add: mk_eq)

text \<open>A name that fills the budget shares its child name with every extension of it.\<close>

lemma mk_collides: "budget \<le> length s \<Longrightarrow> mk (s @ t) = mk (s @ u)"
  by (simp add: mk_eq)

end

end
