(* ===== verification/ApiTypes.thy ===== *)
theory ApiTypes
  imports Prelude
begin

text \<open>
  The data model: the API group \<open>renovate.fartlab.dev/v1alpha1\<close> (package \<open>api/v1alpha1\<close>) and the
  fields of the Kubernetes objects the operator builds or reads (metadata, Secret, ConfigMap, Job).
  String-typed Go enums are datatypes with one constructor per declared constant and one for any
  other string; pointers are options; \<open>int32\<close> fields keep their width.
\<close>

section \<open>Kubernetes object shapes used by the operator\<close>

record OwnerReference =
  ow_apiVersion :: string
  ow_kind :: string
  ow_name :: string
  ow_uid :: string
  ow_controller :: "bool option"
  ow_blockOwnerDeletion :: "bool option"

record ObjectMeta =
  m_name :: string
  m_generateName :: string
  m_namespace :: string
  m_uid :: string
  m_generation :: int
  m_labels :: labels
  m_annotations :: labels
  m_ownerReferences :: "OwnerReference list"
  m_creationTimestamp :: gotime

record ObjectReference =
  or_apiVersion :: string
  or_kind :: string
  or_name :: string
  or_namespace :: string
  or_uid :: string

datatype ConditionStatus = ConditionTrue | ConditionFalse | ConditionUnknown

record Condition =
  c_type :: string
  c_status :: ConditionStatus
  c_observedGeneration :: int
  c_lastTransitionTime :: gotime
  c_reason :: string
  c_message :: string

text \<open>An environment entry is a literal value or a reference resolved by the kubelet.\<close>

datatype EnvVarSource =
    FieldRef string
  | SecretKeyRef (ref_secret: string) (ref_key: string)

record EnvVar =
  env_name :: string
  env_value :: string
  env_valueFrom :: "EnvVarSource option"

record ResourceRequirements =
  rr_limits :: labels
  rr_requests :: labels

record Secret =
  sec_meta :: ObjectMeta
  sec_type :: string
  sec_data :: "(string \<times> string) list"

record ConfigMap =
  cm_meta :: ObjectMeta
  cm_data :: "(string \<times> string) list"

definition empty_meta :: ObjectMeta where
  "empty_meta = \<lparr>m_name = '''', m_generateName = '''', m_namespace = '''', m_uid = '''',
     m_generation = 0, m_labels = [], m_annotations = [], m_ownerReferences = [],
     m_creationTimestamp = zero_time\<rparr>"

section \<open>Shared types (\<open>shared_types.go\<close>, \<open>groupversion_info.go\<close>)\<close>

definition GroupVersion :: string where
  "GroupVersion = ''renovate.fartlab.dev/v1alpha1''"

record SecretKeyReference =
  skr_name :: string
  skr_key :: string

record LocalObjectReference =
  lor_name :: string

datatype ConcurrencyPolicy =
  AllowConcurrent | ForbidConcurrent | ReplaceConcurrent | OtherConcurrencyPolicy string

datatype PlatformType =
  PlatformTypeGitHub | PlatformTypeForgejo | OtherPlatformType string

fun platform_string :: "PlatformType \<Rightarrow> string" where
  "platform_string PlatformTypeGitHub = ''github''"
| "platform_string PlatformTypeForgejo = ''forgejo''"
| "platform_string (OtherPlatformType s) = s"

type_synonym LogLevel = string

text \<open>\<^term>\<open>RunPhaseUnset\<close> is the empty string a new Run carries.\<close>

datatype RunPhase =
    RunPhaseUnset
  | RunPhasePending
  | RunPhaseDiscovering
  | RunPhaseRunning
  | RunPhaseSucceeded
  | RunPhaseFailed
  | OtherRunPhase string

fun phase_string :: "RunPhase \<Rightarrow> string" where
  "phase_string RunPhaseUnset = ''''"
| "phase_string RunPhasePending = ''Pending''"
| "phase_string RunPhaseDiscovering = ''Discovering''"
| "phase_string RunPhaseRunning = ''Running''"
| "phase_string RunPhaseSucceeded = ''Succeeded''"
| "phase_string RunPhaseFailed = ''Failed''"
| "phase_string (OtherRunPhase s) = s"

section \<open>RenovatePlatform (\<open>renovateplatform_types.go\<close>)\<close>

record GitHubAppAuth =
  gha_appID :: int
  gha_installationID :: int
  gha_privateKeyRef :: SecretKeyReference

record TokenAuth =
  ta_secretRef :: SecretKeyReference

record PlatformAuth =
  pa_githubApp :: "GitHubAppAuth option"
  pa_token :: "TokenAuth option"

record RenovatePlatformSpec =
  ps_platformType :: PlatformType
  ps_baseURL :: string
  ps_auth :: PlatformAuth
  ps_runnerConfig :: "string option"
  ps_presetRepoRef :: string
  ps_renovateImage :: string
  ps_logLevel :: "LogLevel option"

record RenovatePlatformStatus =
  pst_conditions :: "Condition list"
  pst_observedGeneration :: int

record RenovatePlatform =
  plat_meta :: ObjectMeta
  plat_spec :: RenovatePlatformSpec
  plat_status :: RenovatePlatformStatus

section \<open>RenovateScan (\<open>renovatescan_types.go\<close>)\<close>

record WorkersSpec =
  ws_minWorkers :: int32
  ws_maxWorkers :: int32
  ws_reposPerWorker :: int32
  ws_backoffLimitPerIndex :: "int32 option"

record DiscoverySpec =
  ds_autodiscover :: "bool option"
  ds_requireConfig :: "bool option"
  ds_filter :: "string list"
  ds_topics :: "string list"
  ds_skipForks :: "bool option"
  ds_skipArchived :: "bool option"

fun derefOrTrue :: "bool option \<Rightarrow> bool" where
  "derefOrTrue None = True"
| "derefOrTrue (Some b) = b"

definition AutodiscoverEnabled :: "DiscoverySpec \<Rightarrow> bool" where
  "AutodiscoverEnabled d = derefOrTrue (ds_autodiscover d)"

definition RequireConfigEnabled :: "DiscoverySpec \<Rightarrow> bool" where
  "RequireConfigEnabled d = derefOrTrue (ds_requireConfig d)"

definition SkipForksEnabled :: "DiscoverySpec \<Rightarrow> bool" where
  "SkipForksEnabled d = derefOrTrue (ds_skipForks d)"

definition SkipArchivedEnabled :: "DiscoverySpec \<Rightarrow> bool" where
  "SkipArchivedEnabled d = derefOrTrue (ds_skipArchived d)"

record RenovateScanSpec =
  ss_platformRef :: LocalObjectReference
  ss_schedule :: string
  ss_timeZone :: string
  ss_suspend :: bool
  ss_concurrencyPolicy :: ConcurrencyPolicy
  ss_workers :: WorkersSpec
  ss_discovery :: DiscoverySpec
  ss_renovateConfigOverrides :: "string option"
  ss_extraEnv :: "EnvVar list"
  ss_logLevel :: "LogLevel option"
  ss_resources :: "ResourceRequirements option"
  ss_successfulRunsHistoryLimit :: "int32 option"
  ss_failedRunsHistoryLimit :: "int32 option"

record RenovateScanStatus =
  sst_conditions :: "Condition list"
  sst_lastRunTime :: "gotime option"
  sst_lastSuccessfulRunTime :: "gotime option"
  sst_nextRunTime :: "gotime option"
  sst_lastRunRef :: "ObjectReference option"
  sst_activeRuns :: "ObjectReference list"
  sst_observedGeneration :: int

record RenovateScan =
  scan_meta :: ObjectMeta
  scan_spec :: RenovateScanSpec
  scan_status :: RenovateScanStatus

section \<open>RenovateRun (\<open>renovaterun_types.go\<close>)\<close>

record RenovateRunSpec =
  rs_scanRef :: LocalObjectReference
  rs_platformSnapshot :: RenovatePlatformSpec
  rs_scanSnapshot :: RenovateScanSpec

record RenovateRunStatus =
  rst_conditions :: "Condition list"
  rst_phase :: RunPhase
  rst_startTime :: "gotime option"
  rst_discoveryCompletionTime :: "gotime option"
  rst_workersStartTime :: "gotime option"
  rst_completionTime :: "gotime option"
  rst_discoveredRepos :: int32
  rst_actualWorkers :: int32
  rst_shardConfigMapRef :: "ObjectReference option"
  rst_workerJobRef :: "ObjectReference option"
  rst_succeededShards :: int32
  rst_failedShards :: int32
  rst_observedGeneration :: int

record RenovateRun =
  run_apiVersion :: string
  run_kind :: string
  run_meta :: ObjectMeta
  run_spec :: RenovateRunSpec
  run_status :: RenovateRunStatus

section \<open>The worker Job (\<open>k8s.io/api/batch/v1\<close> fields the operator sets or reads)\<close>

datatype CompletionMode = IndexedCompletion | NonIndexedCompletion
datatype RestartPolicy = RestartPolicyNever | RestartPolicyOnFailure | RestartPolicyAlways
datatype JobConditionType = JobComplete | JobFailed | JobSuspended | OtherJobCondition string

record JobCondition =
  jc_type :: JobConditionType
  jc_status :: ConditionStatus
  jc_message :: string

record VolumeMount =
  vm_name :: string
  vm_mountPath :: string
  vm_readOnly :: bool

record Volume =
  vol_name :: string
  vol_configMap :: string

record Container =
  ct_name :: string
  ct_image :: string
  ct_command :: "string list"
  ct_env :: "EnvVar list"
  ct_volumeMounts :: "VolumeMount list"
  ct_allowPrivilegeEscalation :: "bool option"
  ct_dropCapabilities :: "string list"
  ct_resources :: "ResourceRequirements option"

record PodSpec =
  pod_labels :: labels
  pod_restartPolicy :: RestartPolicy
  pod_runAsNonRoot :: "bool option"
  pod_seccompProfile :: string
  pod_volumes :: "Volume list"
  pod_containers :: "Container list"

record JobSpec =
  js_completionMode :: "CompletionMode option"
  js_parallelism :: "int32 option"
  js_completions :: "int32 option"
  js_backoffLimit :: "int32 option"
  js_backoffLimitPerIndex :: "int32 option"
  js_ttlSecondsAfterFinished :: "int32 option"
  js_template :: PodSpec

record JobStatus =
  jst_succeeded :: int32
  jst_failed :: int32
  jst_conditions :: "JobCondition list"

record Job =
  job_meta :: ObjectMeta
  job_spec :: JobSpec
  job_status :: JobStatus

section \<open>Names and owner references\<close>

abbreviation run_name :: "RenovateRun \<Rightarrow> string" where
  "run_name r \<equiv> m_name (run_meta r)"

abbreviation run_namespace :: "RenovateRun \<Rightarrow> string" where
  "run_namespace r \<equiv> m_namespace (run_meta r)"

abbreviation run_phase :: "RenovateRun \<Rightarrow> RunPhase" where
  "run_phase r \<equiv> rst_phase (run_status r)"

abbreviation plat_name :: "RenovatePlatform \<Rightarrow> string" where
  "plat_name p \<equiv> m_name (plat_meta p)"

abbreviation scan_name :: "RenovateScan \<Rightarrow> string" where
  "scan_name s \<equiv> m_name (scan_meta s)"

text \<open>The owner reference that ties a child object to its Run.\<close>

definition ownerRefFor :: "RenovateRun \<Rightarrow> OwnerReference" where
  "ownerRefFor run = \<lparr>ow_apiVersion = GroupVersion, ow_kind = ''RenovateRun'',
     ow_name = run_name run, ow_uid = m_uid (run_meta run),
     ow_controller = Some True, ow_blockOwnerDeletion = Some True\<rparr>"

lemma ownerRefFor_simps [simp]:
  "ow_uid (ownerRefFor run) = m_uid (run_meta run)"
  "ow_controller (ownerRefFor run) = Some True"
  "ow_kind (ownerRefFor run) = ''RenovateRun''"
  by (simp_all add: ownerRefFor_def)

lemma derefOrTrue_iff: "derefOrTrue p \<longleftrightarrow> p \<noteq> Some False"
  by (cases p) auto

end
