(* ===== verification/Conditions.thy ===== *)
theory Conditions
  imports ApiTypes
begin

text \<open>
  Package \<open>internal/conditions\<close>. The functions of \<open>k8s.io/apimachinery/pkg/api/meta\<close> it wraps
  are the parameter \<open>M\<close>; locale \<open>meta_conditions\<close> states their documented contract, and
  \<open>condition_api\<close> what the wrappers promise the reconcilers on top of it.
\<close>

section \<open>Types and reasons\<close>

definition TypeReady :: string where "TypeReady = ''Ready''"
definition TypeScheduled :: string where "TypeScheduled = ''Scheduled''"
definition TypeStarted :: string where "TypeStarted = ''Started''"
definition TypeDiscovered :: string where "TypeDiscovered = ''Discovered''"
definition TypeSucceeded :: string where "TypeSucceeded = ''Succeeded''"
definition TypeFailed :: string where "TypeFailed = ''Failed''"

lemmas condition_types =
  TypeReady_def TypeScheduled_def TypeStarted_def TypeDiscovered_def TypeSucceeded_def TypeFailed_def

lemma condition_types_distinct [simp]:
  "TypeSucceeded \<noteq> TypeStarted" "TypeFailed \<noteq> TypeStarted" "TypeSucceeded \<noteq> TypeDiscovered"
  "TypeFailed \<noteq> TypeDiscovered" "TypeSucceeded \<noteq> TypeFailed" "TypeFailed \<noteq> TypeSucceeded"
  "TypeReady \<noteq> TypeScheduled" "TypeScheduled \<noteq> TypeReady"
  by (simp_all add: condition_types)

definition ReasonCredentialsResolved :: string where "ReasonCredentialsResolved = ''CredentialsResolved''"
definition ReasonSecretNotFound :: string where "ReasonSecretNotFound = ''SecretNotFound''"
definition ReasonKeyMissing :: string where "ReasonKeyMissing = ''KeyMissing''"
definition ReasonAuthFailed :: string where "ReasonAuthFailed = ''AuthFailed''"
definition ReasonPlatformUnreachable :: string where "ReasonPlatformUnreachable = ''PlatformUnreachable''"
definition ReasonInvalidSchedule :: string where "ReasonInvalidSchedule = ''InvalidSchedule''"
definition ReasonPlatformNotReady :: string where "ReasonPlatformNotReady = ''PlatformNotReady''"
definition ReasonSuspended :: string where "ReasonSuspended = ''Suspended''"
definition ReasonNextRunComputed :: string where "ReasonNextRunComputed = ''NextRunComputed''"
definition ReasonAdmitted :: string where "ReasonAdmitted = ''Admitted''"
definition ReasonDiscoveryComplete :: string where "ReasonDiscoveryComplete = ''DiscoveryComplete''"
definition ReasonDiscoveryFailed :: string where "ReasonDiscoveryFailed = ''DiscoveryFailed''"
definition ReasonJobComplete :: string where "ReasonJobComplete = ''JobComplete''"
definition ReasonJobFailed :: string where "ReasonJobFailed = ''JobFailed''"
definition ReasonReconcileError :: string where "ReasonReconcileError = ''ReconcileError''"

lemmas condition_reasons =
  ReasonCredentialsResolved_def ReasonSecretNotFound_def ReasonKeyMissing_def ReasonAuthFailed_def
  ReasonPlatformUnreachable_def ReasonInvalidSchedule_def ReasonPlatformNotReady_def
  ReasonSuspended_def ReasonNextRunComputed_def ReasonAdmitted_def ReasonDiscoveryComplete_def
  ReasonDiscoveryFailed_def ReasonJobComplete_def ReasonJobFailed_def ReasonReconcileError_def

section \<open>The wrappers\<close>

record meta_api =
  SetStatusCondition :: "Condition list \<Rightarrow> Condition \<Rightarrow> Condition list \<times> bool"
  FindStatusCondition :: "Condition list \<Rightarrow> string \<Rightarrow> Condition option"
  IsStatusConditionTrue :: "Condition list \<Rightarrow> string \<Rightarrow> bool"

text \<open>
  \<open>Set\<close>: the pointer to the slice may be nil; a zero \<open>LastTransitionTime\<close> is filled from
  \<open>metav1.Now()\<close>, the argument \<open>now\<close>.
\<close>

definition SetCondition ::
  "meta_api \<Rightarrow> gotime \<Rightarrow> Condition list option \<Rightarrow> Condition \<Rightarrow> Condition list option \<times> bool" where
  "SetCondition M now conditions condition =
     (case conditions of
        None \<Rightarrow> (None, False)
      | Some cs \<Rightarrow>
          (let c = (if IsZero (c_lastTransitionTime condition)
                    then condition\<lparr>c_lastTransitionTime := now\<rparr> else condition);
               (cs', changed) = SetStatusCondition M cs c
           in (Some cs', changed)))"

definition GetCondition :: "meta_api \<Rightarrow> Condition list \<Rightarrow> string \<Rightarrow> Condition option" where
  "GetCondition M conditions conditionType = FindStatusCondition M conditions conditionType"

definition IsTrue :: "meta_api \<Rightarrow> Condition list \<Rightarrow> string \<Rightarrow> bool" where
  "IsTrue M conditions conditionType = IsStatusConditionTrue M conditions conditionType"

definition mkCondition :: "ConditionStatus \<Rightarrow> string \<Rightarrow> string \<Rightarrow> string \<Rightarrow> int \<Rightarrow> Condition" where
  "mkCondition st conditionType reason message observedGeneration =
     \<lparr>c_type = conditionType, c_status = st, c_observedGeneration = observedGeneration,
      c_lastTransitionTime = zero_time, c_reason = reason, c_message = message\<rparr>"

definition MarkTrue ::
  "meta_api \<Rightarrow> gotime \<Rightarrow> Condition list option \<Rightarrow> string \<Rightarrow> string \<Rightarrow> string \<Rightarrow> int
   \<Rightarrow> Condition list option \<times> bool" where
  "MarkTrue M now conditions conditionType reason message observedGeneration =
     SetCondition M now conditions
       (mkCondition ConditionTrue conditionType reason message observedGeneration)"

definition MarkFalse ::
  "meta_api \<Rightarrow> gotime \<Rightarrow> Condition list option \<Rightarrow> string \<Rightarrow> string \<Rightarrow> string \<Rightarrow> int
   \<Rightarrow> Condition list option \<times> bool" where
  "MarkFalse M now conditions conditionType reason message observedGeneration =
     SetCondition M now conditions
       (mkCondition ConditionFalse conditionType reason message observedGeneration)"

definition MarkUnknown ::
  "meta_api \<Rightarrow> gotime \<Rightarrow> Condition list option \<Rightarrow> string \<Rightarrow> string \<Rightarrow> string \<Rightarrow> int
   \<Rightarrow> Condition list option \<times> bool" where
  "MarkUnknown M now conditions conditionType reason message observedGeneration =
     SetCondition M now conditions
       (mkCondition ConditionUnknown conditionType reason message observedGeneration)"

text \<open>
  How the reconcilers call the wrappers: on the address of a status field, which is never nil,
  with the returned flag ignored.
\<close>

definition mark_true ::
  "meta_api \<Rightarrow> gotime \<Rightarrow> Condition list \<Rightarrow> string \<Rightarrow> string \<Rightarrow> string \<Rightarrow> int \<Rightarrow> Condition list" where
  "mark_true M now cs ty reason message gen =
     the (fst (MarkTrue M now (Some cs) ty reason message gen))"

definition mark_false ::
  "meta_api \<Rightarrow> gotime \<Rightarrow> Condition list \<Rightarrow> string \<Rightarrow> string \<Rightarrow> string \<Rightarrow> int \<Rightarrow> Condition list" where
  "mark_false M now cs ty reason message gen =
     the (fst (MarkFalse M now (Some cs) ty reason message gen))"

text \<open>The reason shown for a condition type, if the type is present.\<close>

definition condition_reason :: "meta_api \<Rightarrow> Condition list \<Rightarrow> string \<Rightarrow> string option" where
  "condition_reason M cs ty = map_option c_reason (GetCondition M cs ty)"

section \<open>Contracts\<close>

text \<open>
  What a condition list promises the reconcilers: after marking, the marked type reads back with
  the given status, reason, message and generation, its transition time moves only when the status
  changes, and every other type is untouched.
\<close>

locale condition_api =
  fixes mt mf :: "gotime \<Rightarrow> Condition list \<Rightarrow> string \<Rightarrow> string \<Rightarrow> string \<Rightarrow> int \<Rightarrow> Condition list"
    and get :: "Condition list \<Rightarrow> string \<Rightarrow> Condition option"
    and is_true :: "Condition list \<Rightarrow> string \<Rightarrow> bool"
  assumes get_mt: "\<not> IsZero now \<Longrightarrow> \<exists>t. get (mt now cs ty rs ms g) ty' =
      (if ty' = ty then Some (mkCondition ConditionTrue ty rs ms g\<lparr>c_lastTransitionTime := t\<rparr>)
       else get cs ty')"
    and get_mf: "\<not> IsZero now \<Longrightarrow> \<exists>t. get (mf now cs ty rs ms g) ty' =
      (if ty' = ty then Some (mkCondition ConditionFalse ty rs ms g\<lparr>c_lastTransitionTime := t\<rparr>)
       else get cs ty')"
    and is_true_get: "is_true cs ty \<longleftrightarrow> (\<exists>c. get cs ty = Some c \<and> c_status c = ConditionTrue)"
begin

lemma is_true_mt:
  assumes "\<not> IsZero now"
  shows "is_true (mt now cs ty rs ms g) ty' \<longleftrightarrow> ty' = ty \<or> is_true cs ty'"
  using get_mt [OF assms, of cs ty rs ms g ty']
  by (cases "ty' = ty") (auto simp: is_true_get mkCondition_def)

lemma is_true_mf:
  assumes "\<not> IsZero now"
  shows "is_true (mf now cs ty rs ms g) ty' \<longleftrightarrow> ty' \<noteq> ty \<and> is_true cs ty'"
  using get_mf [OF assms, of cs ty rs ms g ty']
  by (cases "ty' = ty") (auto simp: is_true_get mkCondition_def)

lemma reason_mt:
  assumes "\<not> IsZero now"
  shows "map_option c_reason (get (mt now cs ty rs ms g) ty') =
    (if ty' = ty then Some rs else map_option c_reason (get cs ty'))"
  using get_mt [OF assms, of cs ty rs ms g ty']
  by (cases "ty' = ty") (auto simp: mkCondition_def)

lemma reason_mf:
  assumes "\<not> IsZero now"
  shows "map_option c_reason (get (mf now cs ty rs ms g) ty') =
    (if ty' = ty then Some rs else map_option c_reason (get cs ty'))"
  using get_mf [OF assms, of cs ty rs ms g ty']
  by (cases "ty' = ty") (auto simp: mkCondition_def)

end

text \<open>
  The documented contract of the wrapped library functions, for a condition whose
  \<open>LastTransitionTime\<close> is set: an existing condition of the type is overwritten except that its
  transition time is kept when the status does not change, otherwise the condition is added.
\<close>

locale meta_conditions =
  fixes M :: meta_api
  assumes find_set: "\<not> IsZero (c_lastTransitionTime c) \<Longrightarrow>
      FindStatusCondition M (fst (SetStatusCondition M cs c)) (c_type c) =
        Some (case FindStatusCondition M cs (c_type c) of
                Some old \<Rightarrow> if c_status old = c_status c
                            then c\<lparr>c_lastTransitionTime := c_lastTransitionTime old\<rparr> else c
              | None \<Rightarrow> c)"
    and find_set_other: "\<not> IsZero (c_lastTransitionTime c) \<Longrightarrow> ty \<noteq> c_type c \<Longrightarrow>
      FindStatusCondition M (fst (SetStatusCondition M cs c)) ty = FindStatusCondition M cs ty"
    and find_empty: "FindStatusCondition M [] ty = None"
    and is_true_find: "IsStatusConditionTrue M cs ty \<longleftrightarrow>
      (\<exists>c. FindStatusCondition M cs ty = Some c \<and> c_status c = ConditionTrue)"
begin

lemma find_SetCondition:
  assumes "\<not> IsZero now" and "IsZero (c_lastTransitionTime c)"
  shows "\<exists>t. GetCondition M (the (fst (SetCondition M now (Some cs) c))) ty =
      (if ty = c_type c then Some (c\<lparr>c_lastTransitionTime := t\<rparr>) else GetCondition M cs ty)"
proof -
  let ?c = "c\<lparr>c_lastTransitionTime := now\<rparr>"
  have eq: "the (fst (SetCondition M now (Some cs) c)) = fst (SetStatusCondition M cs ?c)"
    using assms by (simp add: SetCondition_def split: prod.splits)
  have nz: "\<not> IsZero (c_lastTransitionTime ?c)" using assms(1) by simp
  show ?thesis
  proof (cases "ty = c_type c")
    case True
    with find_set [OF nz, of cs] show ?thesis
      by (auto simp: eq GetCondition_def split: option.splits if_splits)
  next
    case False
    with find_set_other [OF nz, of ty cs] show ?thesis by (simp add: eq GetCondition_def)
  qed
qed

end

sublocale meta_conditions \<subseteq> condition_api "mark_true M" "mark_false M" "GetCondition M" "IsTrue M"
proof
  fix now :: gotime and cs :: "Condition list" and ty rs ms :: string and g :: int and ty' :: string
  assume nz: "\<not> IsZero now"
  show "\<exists>t. GetCondition M (mark_true M now cs ty rs ms g) ty' =
      (if ty' = ty then Some (mkCondition ConditionTrue ty rs ms g\<lparr>c_lastTransitionTime := t\<rparr>)
       else GetCondition M cs ty')"
    using find_SetCondition [OF nz, of "mkCondition ConditionTrue ty rs ms g" cs ty']
    by (simp add: mark_true_def MarkTrue_def mkCondition_def)
  show "\<exists>t. GetCondition M (mark_false M now cs ty rs ms g) ty' =
      (if ty' = ty then Some (mkCondition ConditionFalse ty rs ms g\<lparr>c_lastTransitionTime := t\<rparr>)
       else GetCondition M cs ty')"
    using find_SetCondition [OF nz, of "mkCondition ConditionFalse ty rs ms g" cs ty']
    by (simp add: mark_false_def MarkFalse_def mkCondition_def)
next
  fix cs :: "Condition list" and ty :: string
  show "IsTrue M cs ty \<longleftrightarrow> (\<exists>c. GetCondition M cs ty = Some c \<and> c_status c = ConditionTrue)"
    by (simp add: IsTrue_def GetCondition_def is_true_find)
qed

context meta_conditions begin

lemmas cond_marks = is_true_mt is_true_mf reason_mt reason_mf

lemma reason_marks:
  assumes "\<not> IsZero now"
  shows "condition_reason M (mark_true M now cs ty rs ms g) ty' = (if ty' = ty then Some rs else condition_reason M cs ty')"
    and "condition_reason M (mark_false M now cs ty rs ms g) ty' = (if ty' = ty then Some rs else condition_reason M cs ty')"
  using reason_mt [OF assms] reason_mf [OF assms] by (simp_all add: condition_reason_def)

lemma nothing_true: "\<not> IsTrue M [] ty"
  by (simp add: IsTrue_def is_true_find find_empty)

end

section \<open>An instance of the library contract\<close>

text \<open>
  A condition list kept as the API machinery documents it: at most one condition per type, updated
  in place. It shows that the contract can hold and carries the concrete examples.
\<close>

fun ref_set :: "Condition list \<Rightarrow> Condition \<Rightarrow> Condition list" where
  "ref_set [] c = [c]"
| "ref_set (d # ds) c =
     (if c_type d = c_type c
      then (if c_status d = c_status c
            then c\<lparr>c_lastTransitionTime := c_lastTransitionTime d\<rparr> else c) # ds
      else d # ref_set ds c)"

definition ref_find :: "Condition list \<Rightarrow> string \<Rightarrow> Condition option" where
  "ref_find cs ty = List.find (\<lambda>c. c_type c = ty) cs"

definition ref_meta :: meta_api where
  "ref_meta = \<lparr>SetStatusCondition = (\<lambda>cs c. (ref_set cs c, ref_set cs c \<noteq> cs)),
               FindStatusCondition = ref_find,
               IsStatusConditionTrue = (\<lambda>cs ty. case ref_find cs ty of
                  None \<Rightarrow> False | Some c \<Rightarrow> c_status c = ConditionTrue)\<rparr>"

lemma ref_find_simps [simp]:
  "ref_find [] ty = None"
  "ref_find (c # cs) ty = (if c_type c = ty then Some c else ref_find cs ty)"
  by (simp_all add: ref_find_def)

lemma ref_find_set:
  "ref_find (ref_set cs c) (c_type c) =
     Some (case ref_find cs (c_type c) of
             Some old \<Rightarrow> if c_status old = c_status c
                         then c\<lparr>c_lastTransitionTime := c_lastTransitionTime old\<rparr> else c
           | None \<Rightarrow> c)"
  by (induction cs c rule: ref_set.induct) auto

lemma ref_find_set_other: "ty \<noteq> c_type c \<Longrightarrow> ref_find (ref_set cs c) ty = ref_find cs ty"
  by (induction cs c rule: ref_set.induct) auto

interpretation ref: meta_conditions ref_meta
  by unfold_locales
    (auto simp: ref_meta_def ref_find_set ref_find_set_other split: option.splits)

text \<open>
  Marking a condition True or False, as the reconcilers do, makes that type read back as
  marked (status and reason) and leaves what every other type reads as it was, whatever
  conditions were there before.
\<close>

theorem mark_reads_back:
  assumes "meta_conditions M" and "\<not> IsZero now"
  shows "(IsTrue M (mark_true M now cs ty rs ms g) ty' \<longleftrightarrow> ty' = ty \<or> IsTrue M cs ty') \<and>
    (IsTrue M (mark_false M now cs ty rs ms g) ty' \<longleftrightarrow> ty' \<noteq> ty \<and> IsTrue M cs ty') \<and>
    map_option c_reason (GetCondition M (mark_true M now cs ty rs ms g) ty') =
      (if ty' = ty then Some rs else map_option c_reason (GetCondition M cs ty')) \<and>
    map_option c_reason (GetCondition M (mark_false M now cs ty rs ms g) ty') =
      (if ty' = ty then Some rs else map_option c_reason (GetCondition M cs ty'))"
  by (intro conjI; rule meta_conditions.cond_marks [OF assms])

theorem mark_reads_back_witness:
  "IsTrue ref_meta
     (mark_true ref_meta \<lparr>wall = 0, zone = ''UTC''\<rparr> [] TypeReady ReasonCredentialsResolved [] 1) TypeReady"
proof -
  have nz: "\<not> IsZero \<lparr>wall = 0, zone = ''UTC''\<rparr>"
    by (simp add: IsZero_def zero_wall_def nanos_per_second_def)
  show ?thesis
    using mark_reads_back [OF ref.meta_conditions_axioms nz, of "[]" TypeReady
      ReasonCredentialsResolved "[]" 1 TypeReady] by blast
qed

end
