(* ===== verification/Kube.thy ===== *)
theory Kube
  imports ApiTypes Conditions
begin

text \<open>
  What the reconcilers act on. The API server behind controller-runtime's client is third-party:
  its operations are the fields of \<open>kclient\<close>, over a cluster state \<open>'s\<close>. A \<open>world\<close> holds that
  state, the network state \<open>'n\<close> of the platform clients, the number of clock readings taken so far
  and the metric updates emitted. Package \<open>internal/observability\<close>'s collectors are the
  constructors of \<open>metric\<close>. The outer \<open>Reconcile\<close>, which the three controllers share, is a locale.
\<close>

section \<open>Client and world\<close>

record 's kclient =
  Get_Platform :: "string \<Rightarrow> 's \<Rightarrow> RenovatePlatform res"
  Get_Scan :: "string \<Rightarrow> string \<Rightarrow> 's \<Rightarrow> RenovateScan res"
  Get_Run :: "string \<Rightarrow> string \<Rightarrow> 's \<Rightarrow> RenovateRun res"
  Get_Secret :: "string \<Rightarrow> string \<Rightarrow> 's \<Rightarrow> Secret res"
  Get_ConfigMap :: "string \<Rightarrow> string \<Rightarrow> 's \<Rightarrow> ConfigMap res"
  Get_Job :: "string \<Rightarrow> string \<Rightarrow> 's \<Rightarrow> Job res"
  List_Platforms :: "'s \<Rightarrow> RenovatePlatform list res"
  List_Scans :: "'s \<Rightarrow> RenovateScan list res"
  List_Runs :: "string \<Rightarrow> 's \<Rightarrow> RenovateRun list res"
  Create_Run :: "RenovateRun \<Rightarrow> 's \<Rightarrow> RenovateRun res \<times> 's"
  Create_Secret :: "Secret \<Rightarrow> 's \<Rightarrow> Secret res \<times> 's"
  Create_ConfigMap :: "ConfigMap \<Rightarrow> 's \<Rightarrow> ConfigMap res \<times> 's"
  Create_Job :: "Job \<Rightarrow> 's \<Rightarrow> Job res \<times> 's"
  Update_Secret :: "Secret \<Rightarrow> 's \<Rightarrow> Secret res \<times> 's"
  Delete_Run :: "RenovateRun \<Rightarrow> 's \<Rightarrow> goerror option \<times> 's"
  StatusUpdate_Platform :: "RenovatePlatform \<Rightarrow> 's \<Rightarrow> goerror option \<times> 's"
  StatusUpdate_Scan :: "RenovateScan \<Rightarrow> 's \<Rightarrow> goerror option \<times> 's"
  StatusUpdate_Run :: "RenovateRun \<Rightarrow> 's \<Rightarrow> goerror option \<times> 's"

definition ResultSucceeded :: string where "ResultSucceeded = ''succeeded''"
definition ResultFailed :: string where "ResultFailed = ''failed''"

text \<open>Updates of the collectors, with their label values; durations in nanoseconds.\<close>

datatype metric =
    is_RunsTotal: RunsTotal (metric_scan: string) (metric_platform: string) (metric_result: string)
  | DiscoveryErrorsTotal (metric_scan: string) (metric_platform: string)
  | ShardsFailedTotal (metric_scan: string) (metric_platform: string) int32
  | RunDurationSeconds (metric_scan: string) (metric_platform: string) int
  | DiscoveryDurationSeconds (metric_scan: string) (metric_platform: string) int
  | ActiveRuns (metric_scan: string) (metric_platform: string) nat
  | ShardCount (metric_scan: string) (metric_platform: string) int32

record ('s, 'n) world =
  w_cluster :: 's
  w_net :: 'n
  w_ticks :: nat
  w_metrics :: "metric list"

text \<open>A clock gives the \<open>i\<close>-th reading; reading it moves the world on.\<close>

definition read_clock :: "(nat \<Rightarrow> gotime) \<Rightarrow> ('s, 'n) world \<Rightarrow> gotime \<times> ('s, 'n) world" where
  "read_clock clk w = (clk (w_ticks w), w\<lparr>w_ticks := Suc (w_ticks w)\<rparr>)"

definition emit :: "metric \<Rightarrow> ('s, 'n) world \<Rightarrow> ('s, 'n) world" where
  "emit m w = w\<lparr>w_metrics := w_metrics w @ [m]\<rparr>"

definition on_cluster :: "('s \<Rightarrow> 'r \<times> 's) \<Rightarrow> ('s, 'n) world \<Rightarrow> 'r \<times> ('s, 'n) world" where
  "on_cluster f w = (case f (w_cluster w) of (r, s) \<Rightarrow> (r, w\<lparr>w_cluster := s\<rparr>))"

lemma emit_simps [simp]:
  "w_cluster (emit m w) = w_cluster w" "w_net (emit m w) = w_net w"
  "w_ticks (emit m w) = w_ticks w" "w_metrics (emit m w) = w_metrics w @ [m]"
  by (simp_all add: emit_def)

lemma read_clock_simps [simp]:
  "fst (read_clock clk w) = clk (w_ticks w)"
  "w_cluster (snd (read_clock clk w)) = w_cluster w"
  "w_net (snd (read_clock clk w)) = w_net w"
  "w_metrics (snd (read_clock clk w)) = w_metrics w"
  by (simp_all add: read_clock_def)

lemma on_cluster_frame [simp]:
  "w_metrics (snd (on_cluster f w)) = w_metrics w" "w_net (snd (on_cluster f w)) = w_net w"
  "w_ticks (snd (on_cluster f w)) = w_ticks w"
  by (simp_all add: on_cluster_def split: prod.split)

text \<open>An operation that keeps what \<open>f\<close> reads of the cluster.\<close>

definition keeps :: "('s \<Rightarrow> 'v) \<Rightarrow> ('o \<Rightarrow> 's \<Rightarrow> 'r \<times> 's) \<Rightarrow> bool" where
  "keeps f op = (\<forall>x s. f (snd (op x s)) = f s)"

lemma keepsD: "keeps f op \<Longrightarrow> on_cluster (op x) w = (r, w') \<Longrightarrow> f (w_cluster w') = f (w_cluster w)"
  by (auto simp: keeps_def on_cluster_def split: prod.splits) (metis snd_conv)

section \<open>Results of a reconcile\<close>

record ctrl_Result =
  cr_RequeueAfter :: int

type_synonym outcome = "ctrl_Result \<times> goerror option"

definition noRequeue :: ctrl_Result where
  "noRequeue = \<lparr>cr_RequeueAfter = 0\<rparr>"

definition requeue_in :: "int \<Rightarrow> ctrl_Result" where
  "requeue_in d = \<lparr>cr_RequeueAfter = d\<rparr>"

definition requeueAfterStatusConflict :: int where
  "requeueAfterStatusConflict = nanos_per_second"

definition IgnoreNotFound :: "goerror \<Rightarrow> goerror option" where
  "IgnoreNotFound e = (if IsNotFound e then None else Some e)"

section \<open>The outer reconcile\<close>

text \<open>
  What every controller's \<open>Reconcile\<close> does around its inner step: read the object, let the inner
  step work on it, write the status back. A missing object is no error, a write conflict asks for
  a retry one second later, and any other write failure is reported unless the step failed first.
\<close>

locale reconcile_shell =
  fixes fetch :: "'w \<Rightarrow> 'o res"
    and inner :: "'o \<Rightarrow> 'w \<Rightarrow> (outcome \<times> 'o \<times> 'w) option"
    and save :: "'o \<Rightarrow> 'w \<Rightarrow> goerror option \<times> 'w"
    and rec :: "'w \<Rightarrow> (outcome \<times> 'w) option"
  assumes rec_eq: "rec w =
      (case fetch w of
         Inl e \<Rightarrow> Some ((noRequeue, IgnoreNotFound e), w)
       | Inr ob \<Rightarrow>
           (case inner ob w of
              None \<Rightarrow> None
            | Some ((result, err), ob', w1) \<Rightarrow>
                (case save ob' w1 of
                   (None, w2) \<Rightarrow> Some ((result, err), w2)
                 | (Some ue, w2) \<Rightarrow>
                     if IsConflict ue then Some ((requeue_in requeueAfterStatusConflict, None), w2)
                     else Some ((result, if err = None then Some ue else err), w2))))"
begin

lemma gone: "fetch w = Inl e \<Longrightarrow> IsNotFound e \<Longrightarrow> rec w = Some ((noRequeue, None), w)"
  by (simp add: rec_eq IgnoreNotFound_def)

lemma unreadable: "fetch w = Inl e \<Longrightarrow> \<not> IsNotFound e \<Longrightarrow> rec w = Some ((noRequeue, Some e), w)"
  by (simp add: rec_eq IgnoreNotFound_def)

lemma saved:
  "fetch w = Inr ob \<Longrightarrow> inner ob w = Some (oc, ob', w1) \<Longrightarrow> save ob' w1 = (None, w2) \<Longrightarrow>
   rec w = Some (oc, w2)"
  by (cases oc) (simp add: rec_eq)

text \<open>A status that could not be written is never dropped silently.\<close>

lemma not_saved:
  assumes "fetch w = Inr ob" and "inner ob w = Some (oc, ob', w1)" and "save ob' w1 = (Some ue, w2)"
  shows "\<exists>r e. rec w = Some ((r, e), w2) \<and> (e \<noteq> None \<or> cr_RequeueAfter r = requeueAfterStatusConflict)"
  using assms by (cases oc) (auto simp: rec_eq requeue_in_def)

end

section \<open>An in-memory API server\<close>

text \<open>
  An instance of the client for the concrete examples: objects in lists, looked up by namespace and
  name, with names generated from a counter.
\<close>

record cluster =
  cl_platforms :: "RenovatePlatform list"
  cl_scans :: "RenovateScan list"
  cl_runs :: "RenovateRun list"
  cl_secrets :: "Secret list"
  cl_cms :: "ConfigMap list"
  cl_jobs :: "Job list"
  cl_next :: nat

definition api_error :: "api_reason \<Rightarrow> goerror" where
  "api_error r = \<lparr>err_msg = ''api error'', err_is = [], err_api = Some r\<rparr>"

definition is_at :: "('o \<Rightarrow> ObjectMeta) \<Rightarrow> string \<Rightarrow> string \<Rightarrow> 'o \<Rightarrow> bool" where
  "is_at meta ns name ob = (m_namespace (meta ob) = ns \<and> m_name (meta ob) = name)"

definition sim_get :: "('o \<Rightarrow> ObjectMeta) \<Rightarrow> string \<Rightarrow> string \<Rightarrow> 'o list \<Rightarrow> 'o res" where
  "sim_get meta ns name obs =
     (case List.find (is_at meta ns name) obs of
        None \<Rightarrow> Inl (api_error StatusNotFound) | Some ob \<Rightarrow> Inr ob)"

definition stamp :: "nat \<Rightarrow> ObjectMeta \<Rightarrow> ObjectMeta" where
  "stamp k m = m\<lparr>m_uid := ''uid-'' @ itoa_nat k,
     m_name := (if m_name m = [] then m_generateName m @ itoa_nat k else m_name m)\<rparr>"

definition sim_replace :: "('o \<Rightarrow> ObjectMeta) \<Rightarrow> 'o \<Rightarrow> 'o list \<Rightarrow> 'o list" where
  "sim_replace meta ob obs =
     map (\<lambda>x. if is_at meta (m_namespace (meta ob)) (m_name (meta ob)) x then ob else x) obs"

definition sim_create ::
  "('o \<Rightarrow> ObjectMeta) \<Rightarrow> ((ObjectMeta \<Rightarrow> ObjectMeta) \<Rightarrow> 'o \<Rightarrow> 'o) \<Rightarrow> (cluster \<Rightarrow> 'o list)
   \<Rightarrow> ('o list \<Rightarrow> cluster \<Rightarrow> cluster) \<Rightarrow> 'o \<Rightarrow> cluster \<Rightarrow> 'o res \<times> cluster" where
  "sim_create meta upd get put ob s =
     (let ob' = upd (stamp (cl_next s)) ob in
      if List.find (is_at meta (m_namespace (meta ob')) (m_name (meta ob'))) (get s) \<noteq> None
      then (Inl (api_error StatusAlreadyExists), s)
      else (Inr ob', (put (get s @ [ob']) s)\<lparr>cl_next := Suc (cl_next s)\<rparr>))"

definition sim_client :: "cluster kclient" where
  "sim_client = \<lparr>
     Get_Platform = (\<lambda>name s. sim_get plat_meta '''' name (cl_platforms s)),
     Get_Scan = (\<lambda>ns name s. sim_get scan_meta ns name (cl_scans s)),
     Get_Run = (\<lambda>ns name s. sim_get run_meta ns name (cl_runs s)),
     Get_Secret = (\<lambda>ns name s. sim_get sec_meta ns name (cl_secrets s)),
     Get_ConfigMap = (\<lambda>ns name s. sim_get cm_meta ns name (cl_cms s)),
     Get_Job = (\<lambda>ns name s. sim_get job_meta ns name (cl_jobs s)),
     List_Platforms = (\<lambda>s. Inr (cl_platforms s)),
     List_Scans = (\<lambda>s. Inr (cl_scans s)),
     List_Runs = (\<lambda>ns s. Inr (filter (\<lambda>r. run_namespace r = ns) (cl_runs s))),
     Create_Run = sim_create run_meta run_meta_update cl_runs (\<lambda>xs s. s\<lparr>cl_runs := xs\<rparr>),
     Create_Secret = sim_create sec_meta sec_meta_update cl_secrets (\<lambda>xs s. s\<lparr>cl_secrets := xs\<rparr>),
     Create_ConfigMap = sim_create cm_meta cm_meta_update cl_cms (\<lambda>xs s. s\<lparr>cl_cms := xs\<rparr>),
     Create_Job = sim_create job_meta job_meta_update cl_jobs (\<lambda>xs s. s\<lparr>cl_jobs := xs\<rparr>),
     Update_Secret = (\<lambda>ob s. (Inr ob, s\<lparr>cl_secrets := sim_replace sec_meta ob (cl_secrets s)\<rparr>)),
     Delete_Run = (\<lambda>ob s. (None, s\<lparr>cl_runs := filter
        (\<lambda>r. \<not> is_at run_meta (run_namespace ob) (run_name ob) r) (cl_runs s)\<rparr>)),
     StatusUpdate_Platform = (\<lambda>ob s. (None, s\<lparr>cl_platforms := sim_replace plat_meta ob (cl_platforms s)\<rparr>)),
     StatusUpdate_Scan = (\<lambda>ob s. (None, s\<lparr>cl_scans := sim_replace scan_meta ob (cl_scans s)\<rparr>)),
     StatusUpdate_Run = (\<lambda>ob s. (None, s\<lparr>cl_runs := sim_replace run_meta ob (cl_runs s)\<rparr>))\<rparr>"

definition empty_cluster :: cluster where
  "empty_cluster = \<lparr>cl_platforms = [], cl_scans = [], cl_runs = [], cl_secrets = [], cl_cms = [],
     cl_jobs = [], cl_next = 0\<rparr>"

lemma IsNotFound_api_error [simp]:
  "IsNotFound (api_error r) \<longleftrightarrow> r = StatusNotFound" "IsConflict (api_error r) \<longleftrightarrow> r = StatusConflict"
  by (simp_all add: IsNotFound_def IsConflict_def api_error_def)

end
