(* ===== verification/GoEncoding.thy ===== *)
theory GoEncoding
  imports Prelude
begin

text \<open>
  The byte-level encodings of the Go standard library that the shard builder relies on:
  \<open>utf8.DecodeRuneInString\<close>, the string escaping of \<open>encoding/json\<close> (\<open>Marshal\<close>, which
  escapes HTML characters) and \<open>base64.StdEncoding\<close>. A reference JSON string reader is defined
  for round trips.
\<close>

abbreviation dquote :: char where "dquote \<equiv> CHR 0x22"
abbreviation bslash :: char where "bslash \<equiv> CHR 0x5C"

abbreviation byte :: "char \<Rightarrow> nat" where "byte c \<equiv> of_char c"

section \<open>UTF-8\<close>

definition RuneError :: nat where
  "RuneError = 65533"

definition cont_byte :: "nat \<Rightarrow> nat \<Rightarrow> char \<Rightarrow> bool" where
  "cont_byte lo hi c = (lo \<le> byte c \<and> byte c \<le> hi)"

text \<open>
  The rune and its width; an invalid or truncated sequence is \<open>(RuneError, 1)\<close>, the empty string
  \<open>(RuneError, 0)\<close>. The second byte's range depends on the first, which excludes overlong forms and
  surrogates.
\<close>

fun decodeRune :: "string \<Rightarrow> nat \<times> nat" where
  "decodeRune [] = (RuneError, 0)"
| "decodeRune (c0 # cs) = (let b0 = byte c0 in
     if b0 < 128 then (b0, 1)
     else if 194 \<le> b0 \<and> b0 \<le> 223 then
       (case cs of c1 # _ \<Rightarrow>
          if cont_byte 128 191 c1 then ((b0 - 192) * 64 + (byte c1 - 128), 2) else (RuneError, 1)
        | [] \<Rightarrow> (RuneError, 1))
     else if 224 \<le> b0 \<and> b0 \<le> 239 then
       (case cs of c1 # c2 # _ \<Rightarrow>
          if cont_byte (if b0 = 224 then 160 else 128) (if b0 = 237 then 159 else 191) c1
             \<and> cont_byte 128 191 c2
          then ((b0 - 224) * 4096 + (byte c1 - 128) * 64 + (byte c2 - 128), 3) else (RuneError, 1)
        | _ \<Rightarrow> (RuneError, 1))
     else if 240 \<le> b0 \<and> b0 \<le> 244 then
       (case cs of c1 # c2 # c3 # _ \<Rightarrow>
          if cont_byte (if b0 = 240 then 144 else 128) (if b0 = 244 then 143 else 191) c1
             \<and> cont_byte 128 191 c2 \<and> cont_byte 128 191 c3
          then ((b0 - 240) * 262144 + (byte c1 - 128) * 4096 + (byte c2 - 128) * 64
                + (byte c3 - 128), 4) else (RuneError, 1)
        | _ \<Rightarrow> (RuneError, 1))
     else (RuneError, 1))"

definition ascii :: "string \<Rightarrow> bool" where
  "ascii s = list_all (\<lambda>c. byte c < 128) s"

lemma ascii_simps [simp]:
  "ascii []" "ascii (c # s) \<longleftrightarrow> byte c < 128 \<and> ascii s" "ascii (s @ t) \<longleftrightarrow> ascii s \<and> ascii t"
  by (auto simp: ascii_def)

lemma decodeRune_ascii [simp]: "byte c < 128 \<Longrightarrow> decodeRune (c # cs) = (byte c, 1)"
  by simp

lemma decodeRune_size_pos: "0 < snd (decodeRune (c # cs))"
  by (simp add: Let_def split: list.splits)

declare decodeRune.simps(2) [simp del]

section \<open>JSON strings\<close>

text \<open>\<open>encoding/json\<close>'s \<open>htmlSafeSet\<close>.\<close>

definition htmlSafe :: "nat \<Rightarrow> bool" where
  "htmlSafe n = (32 \<le> n \<and> n < 128 \<and> n \<noteq> 34 \<and> n \<noteq> 92 \<and> n \<noteq> 60 \<and> n \<noteq> 62 \<and> n \<noteq> 38)"

definition json_escape :: "nat \<Rightarrow> string" where
  "json_escape n =
     (if n = 34 then [bslash, dquote]
      else if n = 92 then [bslash, bslash]
      else if n = 8 then [bslash, CHR ''b'']
      else if n = 12 then [bslash, CHR ''f'']
      else if n = 10 then [bslash, CHR ''n'']
      else if n = 13 then [bslash, CHR ''r'']
      else if n = 9 then [bslash, CHR ''t'']
      else [bslash, CHR ''u'', CHR ''0'', CHR ''0'', hex_digit (n div 16), hex_digit (n mod 16)])"

function json_chars :: "string \<Rightarrow> string" where
  "json_chars [] = []"
| "json_chars (c # cs) =
     (if byte c < 128
      then (if htmlSafe (byte c) then [c] else json_escape (byte c)) @ json_chars cs
      else (let (r, size) = decodeRune (c # cs) in
        (if r = RuneError \<and> size = 1 then [bslash] @ ''ufffd''
         else if r = 8232 \<or> r = 8233 then [bslash] @ ''u202'' @ [hex_digit (r mod 16)]
         else take size (c # cs)) @ json_chars (drop (size - 1) cs)))"
  by pat_completeness auto
termination
  by (relation "measure length") auto

declare json_chars.simps(2) [simp del]

definition json_string :: "string \<Rightarrow> string" where
  "json_string s = [dquote] @ json_chars s @ [dquote]"

subsection \<open>Reading JSON strings back\<close>

definition hex_value :: "char \<Rightarrow> nat" where
  "hex_value c = (if byte c < 58 then byte c - 48 else byte c - 87)"

definition json_unescape :: "char \<Rightarrow> char" where
  "json_unescape e =
     (if e = CHR ''b'' then CHR 0x08 else if e = CHR ''f'' then CHR 0x0C
      else if e = CHR ''n'' then CHR 0x0A else if e = CHR ''r'' then CHR 0x0D
      else if e = CHR ''t'' then CHR 0x09 else e)"

text \<open>Reads up to the closing quote; the rest of the input is returned.\<close>

fun json_unstring :: "string \<Rightarrow> (string \<times> string) option" where
  "json_unstring [] = None"
| "json_unstring (c # cs) =
     (if c = dquote then Some ([], cs)
      else if c = bslash then
        (case cs of
           [] \<Rightarrow> None
         | e # es \<Rightarrow>
             if e = CHR ''u'' then
               (case es of
                  h1 # h2 # h3 # h4 # rest \<Rightarrow>
                    map_option (\<lambda>(s, t). (char_of (hex_value h3 * 16 + hex_value h4) # s, t))
                      (json_unstring rest)
                | _ \<Rightarrow> None)
             else map_option (\<lambda>(s, t). (json_unescape e # s, t)) (json_unstring es))
      else map_option (\<lambda>(s, t). (c # s, t)) (json_unstring cs))"

declare json_unstring.simps(2) [simp del]

lemma hex_value_digit [simp]: "d < 16 \<Longrightarrow> hex_value (hex_digit d) = d"
  by (simp add: hex_value_def hex_digit_def)

lemma json_escape_short:
  "n \<in> {34, 92, 8, 12, 10, 13, 9} \<Longrightarrow>
     json_escape n = [bslash, json_escape n ! 1] \<and> json_escape n ! 1 \<noteq> CHR ''u''
     \<and> byte (json_unescape (json_escape n ! 1)) = n"
  by (elim insertE; simp add: json_escape_def json_unescape_def)

lemma json_escape_long:
  "n \<notin> {34, 92, 8, 12, 10, 13, 9} \<Longrightarrow> json_escape n =
     [bslash, CHR ''u'', CHR ''0'', CHR ''0'', hex_digit (n div 16), hex_digit (n mod 16)]"
  by (simp add: json_escape_def)

lemma json_unstring_escape:
  assumes "byte c < 128"
  shows "json_unstring (json_escape (byte c) @ xs)
         = map_option (\<lambda>(s, t). (c # s, t)) (json_unstring xs)"
proof (cases "byte c \<in> {34, 92, 8, 12, 10, 13, 9}")
  case True
  from json_escape_short [OF this] obtain e where "json_escape (byte c) = [bslash, e]"
      "e \<noteq> CHR ''u''" "json_unescape e = c"
    by (metis of_char_eq_iff)
  then show ?thesis by (simp add: json_unstring.simps(2))
next
  case False
  have "byte c div 16 < 16" using assms by auto
  with False show ?thesis
    by (simp only: json_escape_long [OF False]) (simp add: json_unstring.simps(2))
qed

lemma json_unstring_safe:
  assumes "htmlSafe (byte c)"
  shows "json_unstring (c # xs) = map_option (\<lambda>(s, t). (c # s, t)) (json_unstring xs)"
proof -
  have "c \<noteq> dquote" "c \<noteq> bslash" using assms by (auto simp: htmlSafe_def)
  then show ?thesis by (simp add: json_unstring.simps(2))
qed

lemma json_unstring_chars:
  "ascii s \<Longrightarrow> json_unstring (json_chars s @ dquote # rest) = Some (s, rest)"
proof (induction s)
  case Nil
  then show ?case by (simp add: json_unstring.simps(2))
next
  case (Cons c s)
  then have IH: "json_unstring (json_chars s @ dquote # rest) = Some (s, rest)" and c: "byte c < 128"
    by simp_all
  show ?case
  proof (cases "htmlSafe (byte c)")
    case True
    with c IH show ?thesis by (simp add: json_chars.simps(2) json_unstring_safe)
  next
    case False
    with c IH show ?thesis by (simp add: json_chars.simps(2) json_unstring_escape)
  qed
qed

lemma json_unstring_shorter: "json_unstring s = Some (r, t) \<Longrightarrow> length t < length s"
proof (induction s arbitrary: r t rule: json_unstring.induct)
  case 1
  then show ?case by simp
next
  case (2 c cs)
  show ?case
  proof (cases "c = dquote")
    case True
    with "2.prems" show ?thesis by (simp add: json_unstring.simps(2))
  next
    case nq: False
    show ?thesis
    proof (cases "c = bslash")
      case False
      with nq "2.prems" obtain r' where "json_unstring cs = Some (r', t)"
        by (auto simp: json_unstring.simps(2))
      with "2.IH"(3) [OF nq False] show ?thesis by fastforce
    next
      case bs: True
      with nq "2.prems" obtain e es where cs: "cs = e # es"
        by (auto simp: json_unstring.simps(2) split: list.splits)
      show ?thesis
      proof (cases "e = CHR ''u''")
        case True
        with "2.prems" bs cs obtain h1 h2 h3 h4 rest r'
          where es: "es = h1 # h2 # h3 # h4 # rest" and "json_unstring rest = Some (r', t)"
          by (auto simp: json_unstring.simps(2) split: list.splits)
        with "2.IH"(1) [OF nq bs cs True es] cs show ?thesis by fastforce
      next
        case False
        with "2.prems" bs cs obtain r' where "json_unstring es = Some (r', t)"
          by (auto simp: json_unstring.simps(2))
        with "2.IH"(2) [OF nq bs cs False] cs show ?thesis by fastforce
      qed
    qed
  qed
qed

section \<open>Base64\<close>

definition b64_char :: "nat \<Rightarrow> char" where
  "b64_char n = (if n < 26 then char_of (65 + n) else if n < 52 then char_of (71 + n)
     else if n < 62 then char_of (n - 4) else if n = 62 then CHR ''+'' else CHR ''/'')"

text \<open>\<open>base64.StdEncoding.EncodeToString\<close>.\<close>

fun base64 :: "string \<Rightarrow> string" where
  "base64 [] = []"
| "base64 [a] =
     [b64_char (byte a div 4), b64_char (byte a mod 4 * 16), CHR ''='', CHR ''='']"
| "base64 [a, b] =
     [b64_char (byte a div 4), b64_char (byte a mod 4 * 16 + byte b div 16),
      b64_char (byte b mod 16 * 4), CHR ''='']"
| "base64 (a # b # c # rest) =
     [b64_char (byte a div 4), b64_char (byte a mod 4 * 16 + byte b div 16),
      b64_char (byte b mod 16 * 4 + byte c div 64), b64_char (byte c mod 64)] @ base64 rest"

definition b64_alphabet :: "char \<Rightarrow> bool" where
  "b64_alphabet c = (43 \<le> byte c \<and> byte c < 123)"

lemma b64_char_alphabet [simp]: "b64_alphabet (b64_char n)"
  by (auto simp: b64_alphabet_def b64_char_def)

lemma base64_alphabet: "c \<in> set (base64 s) \<Longrightarrow> b64_alphabet c"
  by (induction s rule: base64.induct) (auto simp: b64_alphabet_def [of "CHR ''=''"])

end
