(* ===== verification/Sharding.thy ===== *)
theory Sharding
  imports GoEncoding
begin

text \<open>
  Package \<open>internal/sharding\<close>: worker count, round-robin assignment and the shard ConfigMap data.
  DEFLATE compression (\<open>compress/gzip\<close>) is the parameter \<open>gz\<close> of the builder; everything else,
  the JSON text and the base64 text included, is computed.
\<close>

section \<open>Data\<close>

datatype Repository = Repository (Slug: string)

text \<open>Repositories are ordered by slug, Go's byte-wise string order.\<close>

instantiation Repository :: linorder
begin

definition less_eq_Repository :: "Repository \<Rightarrow> Repository \<Rightarrow> bool" where
  "less_eq_Repository a b = (Slug a \<le> Slug b)"

definition less_Repository :: "Repository \<Rightarrow> Repository \<Rightarrow> bool" where
  "less_Repository a b = (Slug a < Slug b)"

instance
  by standard
    (auto simp: less_eq_Repository_def less_Repository_def intro: Repository.expand)

end

record WorkerBounds =
  MinWorkers :: int32
  MaxWorkers :: int32
  ReposPerWorker :: int32

record ShardPayload =
  Index :: nat
  Total :: int
  Repos :: "string list"

record Result =
  ActualWorkers :: int32
  Data :: "(string \<times> string) list"
  Compressed :: "bool list"

section \<open>Keys and payloads\<close>

definition gzipThresholdBytes :: nat where
  "gzipThresholdBytes = 900 * 1024"

definition ShardKeyJSON :: "nat \<Rightarrow> string" where
  "ShardKeyJSON index = ''shard-'' @ pad04 index @ ''.json''"

definition ShardKeyGzip :: "nat \<Rightarrow> string" where
  "ShardKeyGzip index = ''shard-'' @ pad04 index @ ''.json.gz''"

fun json_list :: "string list \<Rightarrow> string" where
  "json_list [] = '']''"
| "json_list [s] = json_string s @ '']''"
| "json_list (s # t # ss) = json_string s @ '','' @ json_list (t # ss)"

text \<open>A nil slice marshals to \<open>null\<close>; a shard no repository was appended to is nil.\<close>

definition json_repos :: "string list \<Rightarrow> string" where
  "json_repos ss = (if ss = [] then ''null'' else ''['' @ json_list ss)"

definition json_field :: "string \<Rightarrow> string" where
  "json_field k = [dquote] @ k @ [dquote] @ '':''"

definition marshalPayload :: "ShardPayload \<Rightarrow> string" where
  "marshalPayload p =
     ''{'' @ json_field ''index'' @ itoa_nat (Index p) @ '',''
         @ json_field ''total'' @ itoa (Total p) @ '',''
         @ json_field ''repos'' @ json_repos (Repos p) @ ''}''"

section \<open>The builder\<close>

definition ge_sign :: string where
  "ge_sign = [CHR 0xE2, CHR 0x89, CHR 0xA5]"

definition errNoRepositories :: goerror where
  "errNoRepositories = sentinel_error ErrNoRepositories ''sharding: no repositories to assign''"

definition errInvalidBounds :: "string \<Rightarrow> goerror" where
  "errInvalidBounds detail =
     sentinel_error ErrInvalidBounds (''sharding: invalid worker bounds: '' @ detail)"

definition validateBounds :: "WorkerBounds \<Rightarrow> goerror option" where
  "validateBounds b =
     (if MinWorkers b <s 1 then
        Some (errInvalidBounds (''minWorkers='' @ itoa (sint (MinWorkers b)) @ '' must be '' @ ge_sign @ '' 1''))
      else if MaxWorkers b <s 1 then
        Some (errInvalidBounds (''maxWorkers='' @ itoa (sint (MaxWorkers b)) @ '' must be '' @ ge_sign @ '' 1''))
      else if MaxWorkers b <s MinWorkers b then
        Some (errInvalidBounds (''minWorkers='' @ itoa (sint (MinWorkers b)) @ '' > maxWorkers='' @ itoa (sint (MaxWorkers b))))
      else if ReposPerWorker b <s 1 then
        Some (errInvalidBounds (''reposPerWorker='' @ itoa (sint (ReposPerWorker b)) @ '' must be '' @ ge_sign @ '' 1''))
      else None)"

definition computeActualWorkers :: "int32 \<Rightarrow> WorkerBounds \<Rightarrow> int32" where
  "computeActualWorkers repoCount b =
     (let target = div32 (repoCount + ReposPerWorker b - 1) (ReposPerWorker b) in
      if target <s MinWorkers b then MinWorkers b
      else if MaxWorkers b <s target then MaxWorkers b
      else target)"

fun rr_loop :: "nat \<Rightarrow> nat \<Rightarrow> string list list \<Rightarrow> Repository list \<Rightarrow> string list list" where
  "rr_loop n i shards [] = shards"
| "rr_loop n i shards (r # rs) =
     rr_loop n (Suc i) (shards[i mod n := shards ! (i mod n) @ [Slug r]]) rs"

definition assignRoundRobin :: "Repository list \<Rightarrow> int32 \<Rightarrow> string list list" where
  "assignRoundRobin repos n =
     (let k = nat (sint n) in rr_loop k 0 (replicate k []) repos)"

definition gzipBase64 :: "(string \<Rightarrow> string res) \<Rightarrow> string \<Rightarrow> string res" where
  "gzipBase64 gz raw = (case gz raw of Inl e \<Rightarrow> Inl e | Inr z \<Rightarrow> Inr (base64 z))"

fun build_loop ::
  "(string \<Rightarrow> string res) \<Rightarrow> int32 \<Rightarrow> nat \<Rightarrow> (string \<times> string) list \<Rightarrow> bool list
   \<Rightarrow> string list list \<Rightarrow> ((string \<times> string) list \<times> bool list) res" where
  "build_loop gz actual i data compressed [] = Inr (data, compressed)"
| "build_loop gz actual i data compressed (slugs # rest) =
     (let raw = marshalPayload \<lparr>Index = i, Total = sint actual, Repos = slugs\<rparr> in
      if gzipThresholdBytes < length raw then
        (case gzipBase64 gz raw of
           Inl e \<Rightarrow> Inl (wrapf (''sharding: gzip shard '' @ itoa_nat i @ '': '') e)
         | Inr encoded \<Rightarrow>
             build_loop gz actual (Suc i) (AList.update (ShardKeyGzip i) encoded data)
               (compressed[i := True]) rest)
      else
        build_loop gz actual (Suc i) (AList.update (ShardKeyJSON i) raw data) compressed rest)"

definition Build :: "(string \<Rightarrow> string res) \<Rightarrow> Repository list \<Rightarrow> WorkerBounds \<Rightarrow> Result res" where
  "Build gz repos bounds =
     (if repos = [] then Inl errNoRepositories
      else case validateBounds bounds of
        Some e \<Rightarrow> Inl e
      | None \<Rightarrow>
          (let sorted = sort_key Slug repos;
               actual = computeActualWorkers (word_of_nat (length sorted)) bounds;
               shards = assignRoundRobin sorted actual
           in case build_loop gz actual 0 [] (replicate (length shards) False) shards of
                Inl e \<Rightarrow> Inl e
              | Inr (data, compressed) \<Rightarrow>
                  Inr \<lparr>ActualWorkers = actual, Data = data, Compressed = compressed\<rparr>))"

section \<open>Bounds\<close>

definition valid_bounds :: "WorkerBounds \<Rightarrow> bool" where
  "valid_bounds b =
     (1 \<le> sint (MinWorkers b) \<and> sint (MinWorkers b) \<le> sint (MaxWorkers b)
      \<and> 1 \<le> sint (ReposPerWorker b))"

lemma validateBounds_None: "validateBounds b = None \<longleftrightarrow> valid_bounds b"
  by (auto simp: validateBounds_def valid_bounds_def word_sless_alt)

lemma validateBounds_valid [simp]: "valid_bounds b \<Longrightarrow> validateBounds b = None"
  by (simp add: validateBounds_None)

lemma validateBounds_Some:
  "validateBounds b = Some e \<Longrightarrow> errors_Is e ErrInvalidBounds \<and> \<not> valid_bounds b"
  by (auto simp: validateBounds_def valid_bounds_def word_sless_alt errInvalidBounds_def
      split: if_splits)

definition ceil_div :: "int \<Rightarrow> int \<Rightarrow> int" where
  "ceil_div a b = (a + b - 1) div b"

lemma ceil_div_bounds:
  assumes "1 \<le> b"
  shows "a \<le> ceil_div a b * b" and "(ceil_div a b - 1) * b < a"
proof -
  have "(a + b - 1) div b * b = a + b - 1 - (a + b - 1) mod b"
    by (metis minus_mod_eq_div_mult)
  moreover have "0 \<le> (a + b - 1) mod b" "(a + b - 1) mod b < b"
    using assms by simp_all
  ultimately show "a \<le> ceil_div a b * b" "(ceil_div a b - 1) * b < a"
    by (simp_all add: ceil_div_def left_diff_distrib)
qed

lemma sint_ceil_sum:
  fixes rc r :: int32
  shows "sint (rc + r - 1) = signed_take_bit 31 (sint rc + sint r - 1)"
proof -
  have "rc + r - 1 = word_of_int (sint rc + sint r - 1)" by simp
  then show ?thesis by (simp only: sint_sbintrunc') simp
qed

lemma div_le_dividend_int: "0 \<le> a \<Longrightarrow> 1 \<le> b \<Longrightarrow> a div b \<le> (a :: int)"
  using zdiv_mono2 [of a 1 b] by simp

lemma sdiv_nonneg: "0 \<le> a \<Longrightarrow> 1 \<le> b \<Longrightarrow> a sdiv b = a div (b :: int)"
  by (cases "a = 0") (auto simp: signed_divide_int_def)

lemma sdiv_nonpos: "a \<le> 0 \<Longrightarrow> 1 \<le> b \<Longrightarrow> a \<le> a sdiv b \<and> a sdiv b \<le> (0 :: int)"
  using div_le_dividend_int [of "- a" b]
  by (cases "a = 0") (auto simp: signed_divide_int_def pos_imp_zdiv_nonneg_iff)

lemma ceil_target:
  fixes rc r :: int32
  assumes "0 \<le> sint rc" and "1 \<le> sint r"
  shows "sint (div32 (rc + r - 1) r) =
     (if sint rc + sint r - 1 < 2 ^ 31 then ceil_div (sint rc) (sint r)
      else (sint rc + sint r - 1 - 2 ^ 32) sdiv sint r)"
proof (cases "sint rc + sint r - 1 < 2 ^ 31")
  case True
  with assms have sum: "sint (rc + r - 1) = sint rc + sint r - 1"
    by (simp add: sint_ceil_sum signed_take_bit_int_eq_self)
  have q: "(sint rc + sint r - 1) sdiv sint r = ceil_div (sint rc) (sint r)"
    using assms by (simp add: sdiv_nonneg ceil_div_def)
  have "0 \<le> ceil_div (sint rc) (sint r)"
    using assms by (simp add: ceil_div_def pos_imp_zdiv_nonneg_iff)
  moreover have "ceil_div (sint rc) (sint r) \<le> sint rc + sint r - 1"
    unfolding ceil_div_def using assms by (intro div_le_dividend_int) auto
  ultimately show ?thesis
    using True q sum by (simp add: div32_def sint32_of_int)
next
  case False
  let ?w = "sint rc + sint r - 1 - 2 ^ 32"
  have w: "- (2 ^ 31) \<le> ?w" "?w < 0"
    using False sint32_range [of rc] sint32_range [of r] by simp_all
  have "signed_take_bit 31 (sint rc + sint r - 1) = signed_take_bit 31 ?w"
    by (simp add: signed_take_bit_eq_take_bit_shift take_bit_eq_mod mod_eq_dvd_iff)
  then have "sint (rc + r - 1) = ?w"
    using w by (simp add: sint_ceil_sum signed_take_bit_int_eq_self)
  moreover have "- (2 ^ 31) \<le> ?w sdiv sint r" "?w sdiv sint r \<le> 0"
    using w assms sdiv_nonpos [of ?w "sint r"] by simp_all
  ultimately show ?thesis
    using False by (simp add: div32_def sint32_of_int)
qed

lemma computeActualWorkers_range:
  "valid_bounds b \<Longrightarrow> sint (MinWorkers b) \<le> sint (computeActualWorkers rc b)
     \<and> sint (computeActualWorkers rc b) \<le> sint (MaxWorkers b)"
  by (auto simp: computeActualWorkers_def valid_bounds_def word_sless_alt Let_def)

lemma computeActualWorkers_pos: "valid_bounds b \<Longrightarrow> 1 \<le> sint (computeActualWorkers rc b)"
  using computeActualWorkers_range [of b rc] by (simp add: valid_bounds_def)

text \<open>The documented formula on unbounded integers.\<close>

definition clamp_workers :: "int \<Rightarrow> WorkerBounds \<Rightarrow> int" where
  "clamp_workers n b =
     max (sint (MinWorkers b)) (min (sint (MaxWorkers b)) (ceil_div n (sint (ReposPerWorker b))))"

text \<open>
  A sum past \<open>2^31 - 1\<close> wraps to a negative target; with at most \<open>2^30\<close> repositories it can only
  do so when one worker would hold them all, and both sides are the minimum.
\<close>

lemma computeActualWorkers_clamp:
  assumes valid: "valid_bounds b" and rc: "0 \<le> sint rc" "sint rc \<le> 2 ^ 30"
  shows "sint (computeActualWorkers rc b) = clamp_workers (sint rc) b"
proof -
  let ?r = "sint (ReposPerWorker b)"
  have r: "1 \<le> ?r" using valid by (simp add: valid_bounds_def)
  note target = ceil_target [OF rc(1) r]
  show ?thesis
  proof (cases "sint rc + ?r - 1 < 2 ^ 31")
    case True
    with target valid show ?thesis
      by (auto simp: computeActualWorkers_def clamp_workers_def valid_bounds_def word_sless_alt Let_def)
  next
    case False
    with target sdiv_nonpos [of "sint rc + ?r - 1 - 2 ^ 32" ?r] r sint32_range [of rc]
      sint32_range [of "ReposPerWorker b"]
    have "sint (div32 (rc + ReposPerWorker b - 1) (ReposPerWorker b)) \<le> 0"
      by simp
    with valid have "computeActualWorkers rc b = MinWorkers b"
      by (simp add: computeActualWorkers_def valid_bounds_def word_sless_alt Let_def)
    moreover have "ceil_div (sint rc) ?r \<le> 1"
    proof -
      have "sint rc \<le> ?r" using False rc by simp
      with ceil_div_bounds(2) [OF r, of "sint rc"] have "(ceil_div (sint rc) ?r - 1) * ?r < 1 * ?r"
        by simp
      then show ?thesis using r by (simp only: mult_less_cancel_right_disj) simp
    qed
    ultimately show ?thesis
      using valid by (simp add: clamp_workers_def valid_bounds_def)
  qed
qed

section \<open>Round-robin assignment\<close>

lemma length_rr_loop [simp]: "length (rr_loop n i shards rs) = length shards"
  by (induction rs arbitrary: i shards) auto

lemma mset_rr_loop:
  "length shards = n \<Longrightarrow> 0 < n \<Longrightarrow>
   mset (concat (rr_loop n i shards rs)) = mset (concat shards) + mset (map Slug rs)"
  by (induction rs arbitrary: i shards) (simp_all add: mset_concat_list_update)

lemma rr_loop_nth:
  "length shards = n \<Longrightarrow> 0 < n \<Longrightarrow> k < n \<Longrightarrow>
   rr_loop n i shards rs ! k = shards ! k @ nths (map Slug rs) {j. (i + j) mod n = k}"
proof (induction rs arbitrary: i shards)
  case Nil
  then show ?case by simp
next
  case (Cons r rs)
  let ?shards = "shards[i mod n := shards ! (i mod n) @ [Slug r]]"
  have "rr_loop n i shards (r # rs) ! k
      = ?shards ! k @ nths (map Slug rs) {j. (Suc i + j) mod n = k}"
    using Cons by simp
  also have "\<dots> = shards ! k @ nths (map Slug (r # rs)) {j. (i + j) mod n = k}"
    using Cons.prems by (auto simp: nths_Cons nth_list_update)
  finally show ?case .
qed

lemma length_assignRoundRobin [simp]: "length (assignRoundRobin repos n) = nat (sint n)"
  by (simp add: assignRoundRobin_def Let_def)

lemma mset_assignRoundRobin:
  "1 \<le> sint n \<Longrightarrow> mset (concat (assignRoundRobin repos n)) = mset (map Slug repos)"
  by (simp add: assignRoundRobin_def Let_def mset_rr_loop)

lemma assignRoundRobin_nth:
  "k < nat (sint n) \<Longrightarrow>
   assignRoundRobin repos n ! k = nths (map Slug repos) {j. j mod nat (sint n) = k}"
  by (simp add: assignRoundRobin_def Let_def rr_loop_nth)

lemma card_residues:
  assumes "k < n"
  shows "card {j. j < L \<and> j mod n = k} = (L + n - 1 - k) div n"
proof (induction L)
  case 0
  show ?case using assms by simp
next
  case (Suc L)
  have split: "{j. j < Suc L \<and> j mod n = k} =
      (if L mod n = k then insert L {j. j < L \<and> j mod n = k} else {j. j < L \<and> j mod n = k})"
    by (auto simp: less_Suc_eq)
  have dvd: "n dvd (L + n - k) \<longleftrightarrow> L mod n = k"
  proof -
    have "n dvd (L + n - k) \<longleftrightarrow> (L + n) mod n = k mod n"
      using assms by (metis mod_eq_dvd_iff_nat le_add2 less_imp_le order_trans)
    then show ?thesis using assms by simp
  qed
  define m where "m = L + n - 1 - k"
  have m: "L + n - k = Suc m" "Suc L + n - 1 - k = Suc m" using assms by (simp_all add: m_def)
  have "Suc m div n = m div n + (if L mod n = k then 1 else 0)"
    using dvd by (simp add: m div_Suc dvd_eq_mod_eq_0)
  then have "(Suc L + n - 1 - k) div n
      = (L + n - 1 - k) div n + (if L mod n = k then 1 else 0)"
    by (simp only: m) (simp add: m_def)
  then show ?case by (simp add: split Suc.IH)
qed

lemma length_shard:
  assumes "k < nat (sint n)"
  shows "length (assignRoundRobin repos n ! k)
    = (length repos + nat (sint n) - 1 - k) div nat (sint n)"
  using assms by (simp add: assignRoundRobin_nth length_nths card_residues)

section \<open>Shard keys\<close>

text \<open>
  What the ConfigMap layout needs of its two key families: the keys of one family tell the index,
  and the families do not overlap. An association list with one entry per index can then be read
  back by index.
\<close>

locale shard_keys =
  fixes plain gzipped :: "nat \<Rightarrow> string"
  assumes plain_inj: "plain i = plain j \<Longrightarrow> i = j"
    and gzipped_inj: "gzipped i = gzipped j \<Longrightarrow> i = j"
    and plain_not_gzipped: "plain i \<noteq> gzipped j"
begin

lemma key_eq [simp]:
  "plain i = plain j \<longleftrightarrow> i = j" "gzipped i = gzipped j \<longleftrightarrow> i = j"
  "plain i \<noteq> gzipped j" "gzipped i \<noteq> plain j"
  using plain_inj gzipped_inj plain_not_gzipped by (auto dest: sym)

lemma distinct_keys: "distinct (map (\<lambda>i. if P i then gzipped i else plain i) [a..<b])"
  unfolding distinct_map by (auto simp: inj_on_def split: if_splits)

lemma lookup_key:
  assumes "a \<le> k" "k < b"
  shows "map_of (map (\<lambda>i. (if P i then gzipped i else plain i, v i)) [a..<b])
           (if P k then gzipped k else plain k) = Some (v k)"
proof (rule map_of_is_SomeI)
  show "distinct (map fst (map (\<lambda>i. (if P i then gzipped i else plain i, v i)) [a..<b]))"
    using distinct_keys [of P a b] by (simp add: comp_def)
qed (use assms in auto)

lemma lookup_other:
  "map_of (map (\<lambda>i. (if P i then gzipped i else plain i, v i)) [a..<b])
     (if P k then plain k else gzipped k) = None"
  by (auto simp: map_of_eq_None_iff split: if_splits)

end

interpretation shard: shard_keys ShardKeyJSON ShardKeyGzip
proof
  show "i = j" if "ShardKeyJSON i = ShardKeyJSON j" for i j
    using that by (auto simp: ShardKeyJSON_def dest: pad04_inj)
  show "i = j" if "ShardKeyGzip i = ShardKeyGzip j" for i j
    using that by (auto simp: ShardKeyGzip_def dest: pad04_inj)
  show "ShardKeyJSON i \<noteq> ShardKeyGzip j" for i j
    by (auto simp: ShardKeyJSON_def ShardKeyGzip_def dest: arg_cong [where f = last])
qed

section \<open>The data map\<close>

definition oversized :: "string \<Rightarrow> bool" where
  "oversized raw = (gzipThresholdBytes < length raw)"

definition shard_value :: "(string \<Rightarrow> string res) \<Rightarrow> string \<Rightarrow> string" where
  "shard_value gz raw = (if oversized raw then projr (gzipBase64 gz raw) else raw)"

definition fresh_from :: "nat \<Rightarrow> (string \<times> string) list \<Rightarrow> bool" where
  "fresh_from i data = (\<forall>j\<ge>i. ShardKeyJSON j \<notin> fst ` set data \<and> ShardKeyGzip j \<notin> fst ` set data)"

lemma fresh_from_snoc:
  "fresh_from i data \<Longrightarrow> k = ShardKeyJSON i \<or> k = ShardKeyGzip i \<Longrightarrow>
   fresh_from (Suc i) (data @ [(k, v)])"
  by (auto simp: fresh_from_def)

text \<open>\<open>R\<close> names the payload text of each index, so that the induction does not renumber shards.\<close>

lemma build_loop_data:
  assumes "build_loop gz actual i data cpr shards = Inr (d, c)" and "fresh_from i data"
    and "\<And>k. k < length shards \<Longrightarrow>
      R (i + k) = marshalPayload \<lparr>Index = i + k, Total = sint actual, Repos = shards ! k\<rparr>"
  shows "d = data @ map (\<lambda>j. (if oversized (R j) then ShardKeyGzip j else ShardKeyJSON j,
           shard_value gz (R j))) [i..<i + length shards]"
  using assms
proof (induction shards arbitrary: i data cpr)
  case Nil
  then show ?case by simp
next
  case (Cons slugs rest)
  have Ri: "marshalPayload \<lparr>Index = i, Total = sint actual, Repos = slugs\<rparr> = R i"
    using Cons.prems(3) [of 0] by simp
  have Rn: "R (Suc i + k) = marshalPayload \<lparr>Index = Suc i + k, Total = sint actual, Repos = rest ! k\<rparr>"
    if "k < length rest" for k
    using Cons.prems(3) [of "Suc k"] that by simp
  let ?key = "if oversized (R i) then ShardKeyGzip i else ShardKeyJSON i"
  have new: "?key \<notin> fst ` set data" using Cons.prems(2) by (auto simp: fresh_from_def)
  obtain cpr' where step:
    "build_loop gz actual (Suc i) (data @ [(?key, shard_value gz (R i))]) cpr' rest = Inr (d, c)"
    using Cons.prems(1) new
    by (auto simp: Ri Let_def oversized_def shard_value_def update_new_append
        split: if_splits sum.splits)
  have "fresh_from (Suc i) (data @ [(?key, shard_value gz (R i))])"
    using Cons.prems(2) by (rule fresh_from_snoc) simp
  from Cons.IH [OF step this Rn] show ?case
    by (simp only: upt_add_Cons list.map append_assoc append.simps)
qed

lemma build_loop_compressed:
  assumes "build_loop gz actual i data cpr shards = Inr (d, c)"
    and "length cpr = i + length shards" and "\<And>j. i \<le> j \<Longrightarrow> j < length cpr \<Longrightarrow> \<not> cpr ! j"
    and "\<And>k. k < length shards \<Longrightarrow>
      R (i + k) = marshalPayload \<lparr>Index = i + k, Total = sint actual, Repos = shards ! k\<rparr>"
  shows "c = take i cpr @ map (\<lambda>j. oversized (R j)) [i..<i + length shards]"
  using assms
proof (induction shards arbitrary: i data cpr)
  case Nil
  then show ?case by simp
next
  case (Cons slugs rest)
  have Ri: "marshalPayload \<lparr>Index = i, Total = sint actual, Repos = slugs\<rparr> = R i"
    using Cons.prems(4) [of 0] by simp
  have Rn: "R (Suc i + k) = marshalPayload \<lparr>Index = Suc i + k, Total = sint actual, Repos = rest ! k\<rparr>"
    if "k < length rest" for k
    using Cons.prems(4) [of "Suc k"] that by simp
  have i: "i < length cpr" "\<not> cpr ! i" using Cons.prems(2,3) by auto
  let ?cpr = "cpr[i := oversized (R i)]"
  have "cpr[i := False] = cpr" using i by (simp add: list_update_same_conv)
  then obtain data' where step:
    "build_loop gz actual (Suc i) data' ?cpr rest = Inr (d, c)"
    using Cons.prems(1)
    by (cases "oversized (R i)") (auto simp: Ri Let_def oversized_def split: if_splits sum.splits)
  have "c = take (Suc i) ?cpr @ map (\<lambda>j. oversized (R j)) [Suc i..<Suc i + length rest]"
    by (rule Cons.IH [OF step _ _ Rn]) (use Cons.prems(2,3) in auto)
  moreover have "take (Suc i) ?cpr = take i cpr @ [oversized (R i)]"
    using i by (simp add: take_Suc_conv_app_nth)
  ultimately show ?case
    by (simp only: upt_add_Cons list.map append_assoc append.simps)
qed

lemma build_loop_Inr:
  assumes "\<And>raw. oversized raw \<Longrightarrow> \<exists>z. gz raw = Inr z"
  shows "\<exists>d c. build_loop gz actual i data cpr shards = Inr (d, c)"
proof (induction shards arbitrary: i data cpr)
  case Nil
  then show ?case by simp
next
  case (Cons slugs rest)
  show ?case
    using assms [of "marshalPayload \<lparr>Index = i, Total = sint actual, Repos = slugs\<rparr>"] Cons.IH
    by (auto simp: Let_def oversized_def gzipBase64_def)
qed

lemma build_loop_Inl:
  "build_loop gz actual i data cpr shards = Inl e \<Longrightarrow>
   \<exists>raw e'. oversized raw \<and> gz raw = Inl e' \<and> (\<exists>pre. e = wrapf pre e')"
  by (induction shards arbitrary: i data cpr)
    (auto simp: Let_def oversized_def gzipBase64_def split: if_splits sum.splits)

lemma build_loop_gz:
  assumes "build_loop gz actual i data cpr shards = Inr (d, c)" and "k < length shards"
    and "oversized (marshalPayload \<lparr>Index = i + k, Total = sint actual, Repos = shards ! k\<rparr>)"
  shows "\<exists>z. gz (marshalPayload \<lparr>Index = i + k, Total = sint actual, Repos = shards ! k\<rparr>) = Inr z"
  using assms
proof (induction shards arbitrary: i k data cpr)
  case Nil
  then show ?case by simp
next
  case (Cons slugs rest)
  show ?case
  proof (cases k)
    case 0
    with Cons.prems show ?thesis
      by (auto simp: Let_def oversized_def gzipBase64_def split: if_splits sum.splits)
  next
    case (Suc k')
    from Cons.prems(1) obtain data' cpr' where
      "build_loop gz actual (Suc i) data' cpr' rest = Inr (d, c)"
      by (auto simp: Let_def split: if_splits sum.splits)
    from Cons.IH [OF this, of k'] Cons.prems(2,3) Suc show ?thesis by simp
  qed
qed

section \<open>Results of the builder\<close>

text \<open>The shards a successful build laid out, and the payload text of each.\<close>

definition shard_plan :: "Repository list \<Rightarrow> Result \<Rightarrow> string list list" where
  "shard_plan repos res = assignRoundRobin (sort_key Slug repos) (ActualWorkers res)"

definition shard_text :: "Repository list \<Rightarrow> Result \<Rightarrow> nat \<Rightarrow> string" where
  "shard_text repos res k =
     marshalPayload \<lparr>Index = k, Total = sint (ActualWorkers res), Repos = shard_plan repos res ! k\<rparr>"

lemma length_shard_plan [simp]: "length (shard_plan repos res) = nat (sint (ActualWorkers res))"
  by (simp add: shard_plan_def)

lemma Build_Inr:
  assumes "Build gz repos b = Inr res"
  shows "repos \<noteq> []" and "valid_bounds b"
    and "ActualWorkers res = computeActualWorkers (word_of_nat (length repos)) b"
    and "Data res = map (\<lambda>j. (if oversized (shard_text repos res j) then ShardKeyGzip j else ShardKeyJSON j,
           shard_value gz (shard_text repos res j))) [0..<length (shard_plan repos res)]"
    and "\<And>k. k < length (shard_plan repos res) \<Longrightarrow> oversized (shard_text repos res k) \<Longrightarrow>
           \<exists>z. gz (shard_text repos res k) = Inr z"
    and "Compressed res = map (\<lambda>j. oversized (shard_text repos res j)) [0..<length (shard_plan repos res)]"
proof -
  let ?shards = "shard_plan repos res"
  from assms show ne: "repos \<noteq> []" and valid: "valid_bounds b"
    by (auto simp: Build_def validateBounds_None split: if_splits option.splits)
  from assms obtain d c where
    loop: "build_loop gz (ActualWorkers res) 0 [] (replicate (length ?shards) False) ?shards = Inr (d, c)"
    and res: "Data res = d" "Compressed res = c"
      "ActualWorkers res = computeActualWorkers (word_of_nat (length repos)) b"
    by (auto simp: Build_def Let_def shard_plan_def split: if_splits option.splits sum.splits)
  show "ActualWorkers res = computeActualWorkers (word_of_nat (length repos)) b" by (rule res)
  show "Data res = map (\<lambda>j. (if oversized (shard_text repos res j) then ShardKeyGzip j else ShardKeyJSON j,
           shard_value gz (shard_text repos res j))) [0..<length ?shards]"
    using build_loop_data [OF loop, of "shard_text repos res"]
    by (simp add: fresh_from_def shard_text_def res)
  show "\<exists>z. gz (shard_text repos res k) = Inr z"
    if "k < length ?shards" "oversized (shard_text repos res k)" for k
    using build_loop_gz [OF loop that(1)] that(2) by (simp add: shard_text_def)
  show "Compressed res = map (\<lambda>j. oversized (shard_text repos res j)) [0..<length ?shards]"
    using build_loop_compressed [OF loop, of "shard_text repos res"]
    by (simp add: shard_text_def res)
qed

lemma mset_shard_plan:
  assumes "Build gz repos b = Inr res"
  shows "mset (concat (shard_plan repos res)) = mset (map Slug repos)"
  using Build_Inr(2,3) [OF assms]
  by (simp add: shard_plan_def mset_assignRoundRobin computeActualWorkers_pos)

lemma sort_key_Slug: "sort_key Slug xs = sort xs"
proof (rule properties_for_sort [symmetric])
  show "sorted (sort_key Slug xs)"
    using sorted_sort_key [of Slug xs] by (simp add: sorted_map flip: less_eq_Repository_def)
qed simp

lemma sort_key_Slug_perm: "mset xs = mset ys \<Longrightarrow> sort_key Slug xs = sort_key Slug ys"
  by (simp add: sort_key_Slug properties_for_sort)

text \<open>No shard has an index from the worker count on.\<close>

lemma Build_beyond:
  assumes "Build gz repos b = Inr res" and "sint (ActualWorkers res) \<le> int i"
  shows "map_of (Data res) (ShardKeyJSON i) = None" and "map_of (Data res) (ShardKeyGzip i) = None"
  using assms(2) by (auto simp: Build_Inr(4) [OF assms(1)] map_of_eq_None_iff split: if_splits)

section \<open>Reading a payload\<close>

text \<open>A reference reader for the payload text: fixed field order, decimal numbers, strings.\<close>

fun expect :: "string \<Rightarrow> string \<Rightarrow> string option" where
  "expect [] s = Some s"
| "expect (x # xs) [] = None"
| "expect (x # xs) (y # ys) = (if x = y then expect xs ys else None)"

definition is_digit :: "char \<Rightarrow> bool" where
  "is_digit c = (48 \<le> byte c \<and> byte c < 58)"

definition read_nat :: "string \<Rightarrow> nat \<times> string" where
  "read_nat s = (atoi_nat 0 (takeWhile is_digit s), dropWhile is_digit s)"

lemma expect_shorter: "expect xs s = Some t \<Longrightarrow> length t \<le> length s"
  by (induction xs s rule: expect.induct) (auto split: if_splits)

function read_items :: "string \<Rightarrow> (string list \<times> string) option" where
  "read_items s =
     (case expect [dquote] s of
        None \<Rightarrow> None
      | Some s1 \<Rightarrow>
          (case json_unstring s1 of
             None \<Rightarrow> None
           | Some (x, s2) \<Rightarrow>
               (case s2 of
                  [] \<Rightarrow> None
                | c # s3 \<Rightarrow>
                    if c = CHR '']'' then Some ([x], s3)
                    else if c = CHR '','' then map_option (\<lambda>(xs, t). (x # xs, t)) (read_items s3)
                    else None)))"
  by pat_completeness auto

termination
  by (relation "measure length")
    (auto dest!: expect_shorter json_unstring_shorter)

declare read_items.simps [simp del]

definition read_repos :: "string \<Rightarrow> (string list \<times> string) option" where
  "read_repos s =
     (case expect ''['' s of
        Some t \<Rightarrow> read_items t
      | None \<Rightarrow> map_option (\<lambda>t. ([], t)) (expect ''null'' s))"

definition readPayload :: "string \<Rightarrow> ShardPayload option" where
  "readPayload s =
     Option.bind (expect (''{'' @ json_field ''index'') s) (\<lambda>s1.
     let (i, s2) = read_nat s1 in
     Option.bind (expect ('','' @ json_field ''total'') s2) (\<lambda>s3.
     let (n, s4) = read_nat s3 in
     Option.bind (expect ('','' @ json_field ''repos'') s4) (\<lambda>s5.
     Option.bind (read_repos s5) (\<lambda>(xs, s6).
     if s6 = ''}'' then Some \<lparr>Index = i, Total = int n, Repos = xs\<rparr> else None))))"

lemma expect_append [simp]: "expect xs (xs @ t) = Some t"
  by (induction xs) auto

lemma digits_of_itoa: "c \<in> set (itoa_nat n) \<Longrightarrow> is_digit c"
  using itoa_nat_digits by (simp add: is_digit_def)

lemma read_nat_itoa [simp]: "\<not> is_digit c \<Longrightarrow> read_nat (itoa_nat n @ c # t) = (n, c # t)"
  by (simp add: read_nat_def takeWhile_append2 dropWhile_append2 digits_of_itoa)

lemma read_items_list:
  "ss \<noteq> [] \<Longrightarrow> list_all ascii ss \<Longrightarrow> read_items (json_list ss @ t) = Some (ss, t)"
proof (induction ss rule: json_list.induct)
  case 1
  then show ?case by simp
next
  case (2 s)
  then show ?case
    by (subst read_items.simps) (simp add: json_string_def json_unstring_chars)
next
  case (3 s u ss)
  then show ?case
    by (subst read_items.simps) (simp add: json_string_def json_unstring_chars)
qed

lemma read_repos_json: "list_all ascii ss \<Longrightarrow> read_repos (json_repos ss @ t) = Some (ss, t)"
  by (simp add: read_repos_def json_repos_def read_items_list)

lemma readPayload_marshal:
  assumes "0 \<le> Total p" and "list_all ascii (Repos p)"
  shows "readPayload (marshalPayload p) = Some p"
  using assms
  by (simp add: readPayload_def marshalPayload_def itoa_def is_digit_def read_repos_json)

section \<open>Properties\<close>

text \<open>
  Reading shard \<open>k\<close> of a data map: the plain key first, else the compressed one, whose text
  \<open>ungz\<close> turns back into the payload.
\<close>

definition readShard :: "(string \<Rightarrow> string option) \<Rightarrow> (string \<times> string) list \<Rightarrow> nat \<Rightarrow> ShardPayload option" where
  "readShard ungz data k =
     (case map_of data (ShardKeyJSON k) of
        Some raw \<Rightarrow> readPayload raw
      | None \<Rightarrow> Option.bind (map_of data (ShardKeyGzip k)) (\<lambda>e. Option.bind (ungz e) readPayload))"

lemma Build_lookup:
  assumes "Build gz repos b = Inr res" and "k < nat (sint (ActualWorkers res))"
  shows "map_of (Data res) (ShardKeyJSON k) =
      (if oversized (shard_text repos res k) then None else Some (shard_text repos res k))"
    and "map_of (Data res) (ShardKeyGzip k) =
      (if oversized (shard_text repos res k) then Some (projr (gzipBase64 gz (shard_text repos res k)))
       else None)"
proof -
  let ?P = "\<lambda>j. oversized (shard_text repos res j)" and ?v = "\<lambda>j. shard_value gz (shard_text repos res j)"
  note data = Build_Inr(4) [OF assms(1)]
  have hit: "map_of (Data res) (if ?P k then ShardKeyGzip k else ShardKeyJSON k) = Some (?v k)"
    using shard.lookup_key [of 0 k "nat (sint (ActualWorkers res))" ?P ?v] assms(2) by (simp add: data)
  have miss: "map_of (Data res) (if ?P k then ShardKeyJSON k else ShardKeyGzip k) = None"
    using shard.lookup_other [of ?P ?v 0 "nat (sint (ActualWorkers res))" k] by (simp add: data)
  show "map_of (Data res) (ShardKeyJSON k) =
      (if ?P k then None else Some (shard_text repos res k))"
    using hit miss by (cases "?P k") (simp_all add: shard_value_def)
  show "map_of (Data res) (ShardKeyGzip k) =
      (if ?P k then Some (projr (gzipBase64 gz (shard_text repos res k))) else None)"
    using hit miss by (cases "?P k") (simp_all add: shard_value_def)
qed

lemma set_shard_plan:
  assumes "Build gz repos b = Inr res" and "k < length (shard_plan repos res)"
  shows "set (shard_plan repos res ! k) \<subseteq> Slug ` set repos"
proof -
  have "set (concat (shard_plan repos res)) = Slug ` set repos"
    using mset_eq_setD [OF mset_shard_plan [OF assms(1)]] by simp
  with nth_mem [OF assms(2)] show ?thesis by auto
qed

lemma readShard_Build:
  assumes build: "Build gz repos b = Inr res" and k: "k < nat (sint (ActualWorkers res))"
    and ascii: "\<forall>r\<in>set repos. ascii (Slug r)"
    and ungz: "\<forall>raw z. gz raw = Inr z \<longrightarrow> ungz (base64 z) = Some raw"
  shows "readShard ungz (Data res) k =
     Some \<lparr>Index = k, Total = sint (ActualWorkers res), Repos = shard_plan repos res ! k\<rparr>"
proof -
  let ?p = "\<lparr>Index = k, Total = sint (ActualWorkers res), Repos = shard_plan repos res ! k\<rparr>"
  have "0 \<le> Total ?p" using k by simp
  moreover have "list_all ascii (Repos ?p)"
    using set_shard_plan [OF build, of k] k ascii by (auto simp: list_all_iff)
  ultimately have read: "readPayload (shard_text repos res k) = Some ?p"
    unfolding shard_text_def by (rule readPayload_marshal)
  show ?thesis
  proof (cases "oversized (shard_text repos res k)")
    case True
    with Build_Inr(5) [OF build, of k] k obtain z where z: "gz (shard_text repos res k) = Inr z"
      by auto
    with ungz have "ungz (base64 z) = Some (shard_text repos res k)" by simp
    with True z read show ?thesis
      by (simp add: readShard_def Build_lookup [OF build k] gzipBase64_def)
  next
    case False
    with read show ?thesis by (simp add: readShard_def Build_lookup [OF build k])
  qed
qed

text \<open>
  C14 (roundtrip). Reading back every shard of a built data map gives, over all shards, each input
  repository exactly once; shard \<open>k\<close> says it is shard \<open>k\<close> of \<open>ActualWorkers\<close>. For ASCII
  slugs, and a decompressor that inverts the compressor.
\<close>

theorem build_reads_back:
  assumes "Build gz repos b = Inr res"
    and "\<forall>r\<in>set repos. ascii (Slug r)"
    and "\<forall>raw z. gz raw = Inr z \<longrightarrow> ungz (base64 z) = Some raw"
  shows "(\<forall>k < nat (sint (ActualWorkers res)). \<exists>p. readShard ungz (Data res) k = Some p
            \<and> Index p = k \<and> Total p = sint (ActualWorkers res))
    \<and> mset (concat (map (\<lambda>k. Repos (the (readShard ungz (Data res) k)))
                     [0..<nat (sint (ActualWorkers res))])) = mset (map Slug repos)"
proof -
  let ?n = "nat (sint (ActualWorkers res))"
  note read = readShard_Build [OF assms(1) _ assms(2,3)]
  have "map (\<lambda>k. Repos (the (readShard ungz (Data res) k))) [0..<?n] = shard_plan repos res"
    by (rule nth_equalityI) (simp_all add: read)
  then show ?thesis using read mset_shard_plan [OF assms(1)] by simp
qed

definition ex_bounds :: WorkerBounds where
  "ex_bounds = \<lparr>MinWorkers = 1, MaxWorkers = 10, ReposPerWorker = 2\<rparr>"

definition ex_repos :: "Repository list" where
  "ex_repos = [Repository ''o/b'', Repository ''o/c'', Repository ''o/a'']"

definition ex_gzip :: "string \<Rightarrow> string res" where
  "ex_gzip raw = Inl (errors_New ''no compressor'')"

definition ex_result :: Result where
  "ex_result = projr (Build ex_gzip ex_repos ex_bounds)"

lemma ex_valid: "valid_bounds ex_bounds"
  by (simp add: valid_bounds_def ex_bounds_def)

lemma ex_compute: "computeActualWorkers 3 ex_bounds = 2"
  by (simp add: computeActualWorkers_def ex_bounds_def div32_def sdiv_nonneg word_sless_alt)

lemma ex_shards:
  "assignRoundRobin (sort_key Slug ex_repos) 2 = [[''o/a'', ''o/c''], [''o/b'']]"
  by (simp add: ex_repos_def assignRoundRobin_def numeral_2_eq_2)

lemmas payload_eval = marshalPayload_def json_field_def json_repos_def json_string_def
  json_chars.simps(2) htmlSafe_def itoa_def itoa_nat.simps gzipThresholdBytes_def

lemma ex_build: "Build ex_gzip ex_repos ex_bounds = Inr ex_result \<and> ActualWorkers ex_result = 2"
proof -
  have len: "length ex_repos = 3" by (simp add: ex_repos_def)
  have "ex_repos \<noteq> []" by (simp add: ex_repos_def)
  then have "\<exists>res. Build ex_gzip ex_repos ex_bounds = Inr res \<and> ActualWorkers res = 2"
    using ex_valid by (simp add: Build_def len ex_compute ex_shards Let_def payload_eval)
  then show ?thesis by (auto simp: ex_result_def)
qed

theorem build_reads_back_witness:
  "mset (concat (map (\<lambda>k. Repos (the (readShard (\<lambda>_. None) (Data ex_result) k))) [0..<2]))
   = {#''o/a'', ''o/b'', ''o/c''#}"
proof -
  have "\<forall>r\<in>set ex_repos. ascii (Slug r)" by (simp add: ex_repos_def)
  moreover have "\<forall>raw z. ex_gzip raw = Inr z \<longrightarrow> (\<lambda>_. None) (base64 z) = Some raw"
    by (simp add: ex_gzip_def)
  ultimately show ?thesis
    using build_reads_back [OF ex_build [THEN conjunct1], of "\<lambda>_. None"] ex_build
    by (simp add: ex_repos_def del: upt_conv_Cons)
qed

text \<open>
  The result depends on the set of discovered repositories and not on the order
  discovery returned them in.
\<close>

theorem build_order_independent:
  assumes "mset repos = mset repos'"
  shows "Build gz repos b = Build gz repos' b"
proof -
  have "repos = [] \<longleftrightarrow> repos' = []" using assms by (metis mset_zero_iff)
  moreover have "length repos = length repos'" using assms by (rule mset_eq_length)
  ultimately show ?thesis
    using sort_key_Slug_perm [OF assms] by (simp add: Build_def split: option.split)
qed

theorem build_order_independent_witness:
  "Build ex_gzip ex_repos ex_bounds = Build ex_gzip (rev ex_repos) ex_bounds"
  by (rule build_order_independent) (simp add: ex_repos_def)

text \<open>
  In 32-bit arithmetic the worker count is the documented
  \<open>clamp(ceil(count / reposPerWorker), min, max)\<close> for every count up to \<open>2^30\<close>, although the sum
  inside may wrap around.
\<close>

theorem workers_clamped:
  assumes "valid_bounds b" and "0 \<le> sint rc" and "sint rc \<le> 2 ^ 30"
  shows "sint (computeActualWorkers rc b) =
     max (sint (MinWorkers b)) (min (sint (MaxWorkers b))
       ((sint rc + sint (ReposPerWorker b) - 1) div sint (ReposPerWorker b)))"
  using computeActualWorkers_clamp [OF assms] by (simp add: clamp_workers_def ceil_div_def)

text \<open>At \<open>reposPerWorker = 2^31 - 1\<close> the sum wraps; the result is still the minimum.\<close>

theorem workers_clamped_witness:
  "sint (computeActualWorkers 3 \<lparr>MinWorkers = 2, MaxWorkers = 9, ReposPerWorker = 2147483647\<rparr>) = 2"
  using workers_clamped [of "\<lparr>MinWorkers = 2, MaxWorkers = 9, ReposPerWorker = 2147483647\<rparr>" 3]
  by (simp add: valid_bounds_def)

text \<open>
  C35 (functional). Round robin: shard \<open>k\<close> of \<open>n\<close> holds exactly the repositories at positions
  congruent to \<open>k\<close> modulo \<open>n\<close>, in order, and no two shards differ in size by more than one.
\<close>

theorem round_robin_balanced:
  assumes "i < nat (sint n)" and "j < nat (sint n)"
  shows "length (assignRoundRobin repos n) = nat (sint n)
    \<and> assignRoundRobin repos n ! i = nths (map Slug repos) {p. p mod nat (sint n) = i}
    \<and> length (assignRoundRobin repos n ! i) \<le> Suc (length (assignRoundRobin repos n ! j))"
proof -
  let ?k = "nat (sint n)" and ?L = "length repos"
  have step: "(m + ?k) div ?k = Suc (m div ?k)" for m using assms by (simp add: div_add_self2)
  have "(?L + ?k - 1 - i) div ?k \<le> (?L + ?k - 1 - j + ?k) div ?k"
    by (rule div_le_mono) (use assms in linarith)
  also have "\<dots> = Suc ((?L + ?k - 1 - j) div ?k)" by (rule step)
  finally have "length (assignRoundRobin repos n ! i) \<le> Suc (length (assignRoundRobin repos n ! j))"
    using assms by (simp add: length_shard)
  then show ?thesis using assms by (simp add: assignRoundRobin_nth)
qed

theorem round_robin_balanced_witness:
  "length (assignRoundRobin ex_repos 2 ! 0) \<le> Suc (length (assignRoundRobin ex_repos 2 ! 1))"
  by (rule round_robin_balanced [of 0 2 1 ex_repos, THEN conjunct2, THEN conjunct2]) simp_all

lemma Build_total:
  assumes "repos \<noteq> []" and "valid_bounds b" and "\<And>raw. \<exists>z. gz raw = Inr z"
  shows "\<exists>res. Build gz repos b = Inr res"
proof (cases "Build gz repos b")
  case (Inl e)
  then obtain raw e' where "gz raw = Inl e'"
    using assms(1,2) by (auto simp: Build_def Let_def split: sum.splits dest!: build_loop_Inl)
  with assms(3) [of raw] show ?thesis by simp
qed auto

text \<open>
  When the builder fails: no repositories first, then invalid bounds, then a compressor
  error on an oversized payload; with none of these it succeeds.
\<close>

theorem build_outcome:
  "(repos = [] \<longrightarrow> Build gz repos b = Inl errNoRepositories)
   \<and> (repos \<noteq> [] \<and> \<not> valid_bounds b \<longrightarrow>
        (\<exists>e. Build gz repos b = Inl e \<and> errors_Is e ErrInvalidBounds))
   \<and> (repos \<noteq> [] \<and> valid_bounds b \<longrightarrow>
        (\<forall>e. Build gz repos b = Inl e \<longrightarrow> (\<exists>raw e'. oversized raw \<and> gz raw = Inl e')))"
  (is "?A \<and> ?B \<and> ?C")
proof (intro conjI impI allI)
  show "Build gz repos b = Inl errNoRepositories" if "repos = []"
    using that by (simp add: Build_def)
  show "\<exists>e. Build gz repos b = Inl e \<and> errors_Is e ErrInvalidBounds"
    if "repos \<noteq> [] \<and> \<not> valid_bounds b"
    using that validateBounds_Some [of b] by (cases "validateBounds b") (auto simp: Build_def validateBounds_None)
  show "\<exists>raw e'. oversized raw \<and> gz raw = Inl e'"
    if "repos \<noteq> [] \<and> valid_bounds b" "Build gz repos b = Inl e" for e
    using that
    by (auto simp: Build_def Let_def split: sum.splits dest!: build_loop_Inl)
qed

theorem build_outcome_witness:
  "\<exists>e. Build ex_gzip ex_repos \<lparr>MinWorkers = 5, MaxWorkers = 1, ReposPerWorker = 1\<rparr> = Inl e
     \<and> errors_Is e ErrInvalidBounds"
  using build_outcome [of ex_repos ex_gzip "\<lparr>MinWorkers = 5, MaxWorkers = 1, ReposPerWorker = 1\<rparr>"]
  by (simp add: ex_repos_def valid_bounds_def)

text \<open>
  Layout of the data map: one entry per shard, under the compressed key exactly
  when the payload is longer than the threshold; \<open>Compressed\<close> records the same.
\<close>

theorem build_layout:
  assumes "Build gz repos b = Inr res"
  shows "length (Data res) = nat (sint (ActualWorkers res))
    \<and> distinct (map fst (Data res))
    \<and> (\<forall>k < nat (sint (ActualWorkers res)).
         Compressed res ! k = (gzipThresholdBytes < length (shard_text repos res k))
         \<and> map_of (Data res) (ShardKeyJSON k) =
             (if Compressed res ! k then None else Some (shard_text repos res k))
         \<and> (map_of (Data res) (ShardKeyGzip k) \<noteq> None) = Compressed res ! k)"
proof -
  have "distinct (map fst (Data res))"
    using shard.distinct_keys [of "\<lambda>j. oversized (shard_text repos res j)" 0]
    by (simp add: Build_Inr(4) [OF assms] comp_def)
  then show ?thesis
    using Build_lookup [OF assms] Build_Inr(4,6) [OF assms] by (simp add: oversized_def)
qed

theorem build_layout_witness:
  "length (Data ex_result) = 2 \<and> distinct (map fst (Data ex_result))"
  using build_layout [OF ex_build [THEN conjunct1]] ex_build by simp

end
