(* ===== verification/Credentials.thy ===== *)
theory Credentials
  imports ApiTypes
begin

text \<open>
  Package \<open>internal/credentials\<close>: the per-Run mirrored Secret. A pointer argument that may be nil is
  an option.
\<close>

section \<open>Names and keys\<close>

definition MirrorAccessTokenKey :: string where "MirrorAccessTokenKey = ''access-token''"
definition LabelManaged :: string where "LabelManaged = ''renovate.fartlab.dev/managed''"
definition LabelManagedValue :: string where "LabelManagedValue = ''true''"
definition mirrorPrefix :: string where "mirrorPrefix = ''renovate-creds-''"

definition MirrorName :: "string \<Rightarrow> string" where
  "MirrorName runName =
     (let budget = DNS1123LabelMaxLength - length mirrorPrefix;
          runName = (if length runName > budget then take budget runName else runName)
      in mirrorPrefix @ runName)"

definition errNilRun :: goerror where
  "errNilRun = sentinel_error ErrNilRun ''credentials: nil Run''"

definition errEmptyAccessToken :: goerror where
  "errEmptyAccessToken = sentinel_error ErrEmptyAccessToken ''credentials: access token is empty''"

definition errNoAuth :: goerror where
  "errNoAuth = errors_New ''credentials: PlatformAuth has neither githubApp nor token set''"

definition AuthKey :: "RenovateRun option \<Rightarrow> string res" where
  "AuthKey run =
     (case run of
        None \<Rightarrow> Inl errNilRun
      | Some r \<Rightarrow>
          (let auth = ps_auth (rs_platformSnapshot (run_spec r)) in
           case pa_githubApp auth of
             Some app \<Rightarrow>
               (let key = TrimSpace (skr_key (gha_privateKeyRef app))
                in Inr (if key = '''' then ''private-key.pem'' else key))
           | None \<Rightarrow>
             (case pa_token auth of
                Some tok \<Rightarrow>
                  (let key = TrimSpace (skr_key (ta_secretRef tok))
                   in Inr (if key = '''' then ''token'' else key))
              | None \<Rightarrow> Inl errNoAuth)))"

definition SourceSecretName :: "RenovateRun option \<Rightarrow> string res" where
  "SourceSecretName run =
     (case run of
        None \<Rightarrow> Inl errNilRun
      | Some r \<Rightarrow>
          (let auth = ps_auth (rs_platformSnapshot (run_spec r)) in
           case pa_githubApp auth of
             Some app \<Rightarrow> Inr (skr_name (gha_privateKeyRef app))
           | None \<Rightarrow>
             (case pa_token auth of
                Some tok \<Rightarrow> Inr (skr_name (ta_secretRef tok))
              | None \<Rightarrow> Inl errNoAuth)))"

section \<open>The mirror\<close>

definition BuildMirror :: "RenovateRun option \<Rightarrow> string \<Rightarrow> Secret res" where
  "BuildMirror run accessToken =
     (case run of
        None \<Rightarrow> Inl errNilRun
      | Some r \<Rightarrow>
          if accessToken = '''' then Inl errEmptyAccessToken
          else Inr
            \<lparr>sec_meta = empty_meta\<lparr>
               m_name := MirrorName (run_name r),
               m_namespace := run_namespace r,
               m_labels :=
                 [(LabelManaged, LabelManagedValue),
                  (''renovate.fartlab.dev/run'', run_name r),
                  (''renovate.fartlab.dev/scan'', lor_name (rs_scanRef (run_spec r)))],
               m_ownerReferences := [ownerRefFor r]\<rparr>,
             sec_type = ''Opaque'',
             sec_data = [(MirrorAccessTokenKey, accessToken)]\<rparr>)"

section \<open>Properties\<close>

lemma mirror_budget [simp]: "DNS1123LabelMaxLength - length mirrorPrefix = 48"
  by (simp add: DNS1123LabelMaxLength_def mirrorPrefix_def)

interpretation mirror: bounded_name MirrorName mirrorPrefix "[]" 48
  by unfold_locales (auto simp: MirrorName_def Let_def DNS1123LabelMaxLength_def mirrorPrefix_def)

lemma AuthKey_nonempty: "AuthKey run = Inr k \<Longrightarrow> k \<noteq> []"
  by (auto simp: AuthKey_def Let_def split: option.splits if_splits)

text \<open>
  The name of a mirrored Secret is a legal DNS-1123 label length for every Run name, and Runs
  whose names fit the 48-byte budget never share a mirror.
\<close>

theorem mirror_name_ok:
  "length (MirrorName s) \<le> 63 \<and>
   (length s \<le> 48 \<longrightarrow> length t \<le> 48 \<longrightarrow> (MirrorName s = MirrorName t \<longleftrightarrow> s = t))"
  using mirror.length_mk [of s] mirror.mk_inj_short [of s t] by (simp add: DNS1123LabelMaxLength_def)

theorem mirror_name_ok_witness:
  "MirrorName ''nightly-abc'' \<noteq> MirrorName ''nightly-abd''"
  using mirror_name_ok [of "''nightly-abc''" "''nightly-abd''"] by simp

text \<open>
  Past the budget the suffix the API server generates no longer reaches the name: two Runs of
  a Scan whose name fills the budget get the same mirrored Secret.
\<close>

theorem mirror_name_collides:
  "48 \<le> length scan \<Longrightarrow> MirrorName (scan @ suffix1) = MirrorName (scan @ suffix2)"
  by (rule mirror.mk_collides)

theorem mirror_name_collides_witness:
  "MirrorName (replicate 48 CHR ''s'' @ ''-x7k2p'') = MirrorName (replicate 48 CHR ''s'' @ ''-q9v4d'')"
  by (rule mirror_name_collides) simp

text \<open>
  Building the mirror succeeds exactly for a Run and a non-empty token, and then the Secret
  carries the token under the worker's key and nothing else, lives in the Run's namespace under
  the mirror name, is marked as managed, and is owned by that Run and only by it.
\<close>

theorem BuildMirror_spec:
  "(case BuildMirror run tok of
      Inl e \<Rightarrow> (run = None \<and> errors_Is e ErrNilRun) \<or>
               (run \<noteq> None \<and> tok = [] \<and> errors_Is e ErrEmptyAccessToken)
    | Inr s \<Rightarrow> \<exists>r. run = Some r \<and> tok \<noteq> [] \<and>
        sec_data s = [(MirrorAccessTokenKey, tok)] \<and>
        m_name (sec_meta s) = MirrorName (run_name r) \<and>
        m_namespace (sec_meta s) = run_namespace r \<and>
        map_of (m_labels (sec_meta s)) LabelManaged = Some LabelManagedValue \<and>
        map_of (m_labels (sec_meta s)) ''renovate.fartlab.dev/run'' = Some (run_name r) \<and>
        map ow_uid (m_ownerReferences (sec_meta s)) = [m_uid (run_meta r)])"
  by (auto simp: BuildMirror_def errNilRun_def errEmptyAccessToken_def LabelManaged_def
      split: option.split)

end
