(* ===== verification/WorkerJob.thy ===== *)
theory WorkerJob
  imports ApiTypes Sharding Credentials
begin

text \<open>
  Package \<open>internal/jobspec\<close>: labels, the worker's environment, the merged Renovate configuration,
  the entrypoint script and the Indexed Job. JSON decoding (\<open>encoding/json\<close>'s \<open>Unmarshal\<close> into
  a \<open>map[string]any\<close>) is the parameter \<open>U\<close> of the functions that use it; the programs the
  script runs (\<open>gunzip\<close>, \<open>jq\<close>) are parameters of the script's model.
\<close>

section \<open>Constants\<close>

definition LabelRun :: string where "LabelRun = ''renovate.fartlab.dev/run''"
definition LabelScan :: string where "LabelScan = ''renovate.fartlab.dev/scan''"
definition LabelPlatform :: string where "LabelPlatform = ''renovate.fartlab.dev/platform''"
definition LabelManagedBy :: string where "LabelManagedBy = ''app.kubernetes.io/managed-by''"
definition LabelComponent :: string where "LabelComponent = ''app.kubernetes.io/component''"
definition ManagedByValue :: string where "ManagedByValue = ''renovate-operator''"
definition ComponentWorkerValue :: string where "ComponentWorkerValue = ''worker''"

lemmas label_defs = LabelRun_def LabelScan_def LabelPlatform_def LabelManagedBy_def LabelComponent_def
  ManagedByValue_def ComponentWorkerValue_def

definition envRenovatePlatform :: string where "envRenovatePlatform = ''RENOVATE_PLATFORM''"
definition envRenovateEndpoint :: string where "envRenovateEndpoint = ''RENOVATE_ENDPOINT''"
definition envRenovateAutodiscover :: string where "envRenovateAutodiscover = ''RENOVATE_AUTODISCOVER''"
definition envRenovateRequireCfg :: string where "envRenovateRequireCfg = ''RENOVATE_REQUIRE_CONFIG''"
definition envRenovateConfig :: string where "envRenovateConfig = ''RENOVATE_CONFIG''"
definition envRenovateToken :: string where "envRenovateToken = ''RENOVATE_TOKEN''"
definition envLogLevel :: string where "envLogLevel = ''LOG_LEVEL''"
definition envLogFormat :: string where "envLogFormat = ''LOG_FORMAT''"
definition envOTLPEndpoint :: string where "envOTLPEndpoint = ''OTEL_EXPORTER_OTLP_ENDPOINT''"
definition envOTELService :: string where "envOTELService = ''OTEL_SERVICE_NAME''"

lemmas env_names = envRenovatePlatform_def envRenovateEndpoint_def envRenovateAutodiscover_def
  envRenovateRequireCfg_def envRenovateConfig_def envRenovateToken_def envLogLevel_def
  envLogFormat_def envOTLPEndpoint_def envOTELService_def

definition otelServiceName :: string where "otelServiceName = ''renovate-worker''"
definition defaultLogLevel :: string where "defaultLogLevel = ''info''"
definition defaultLogFormat :: string where "defaultLogFormat = ''json''"
definition defaultJobTTLSeconds :: int32 where "defaultJobTTLSeconds = 7 * 24 * 60 * 60"
definition workerContainerName :: string where "workerContainerName = ''renovate''"
definition shardVolumeName :: string where "shardVolumeName = ''shards''"
definition jobNameSuffix :: string where "jobNameSuffix = ''-worker''"
definition maxJobNameLen :: nat where "maxJobNameLen = DNS1123LabelMaxLength"
definition ShardMountPath :: string where "ShardMountPath = ''/etc/shards''"

section \<open>Names and labels\<close>

definition JobName :: "string \<Rightarrow> string" where
  "JobName runName =
     (let suffix = jobNameSuffix;
          mx = maxJobNameLen - length suffix;
          runName = (if length runName > mx then take mx runName else runName)
      in runName @ suffix)"

definition WorkerLabels :: "RenovateRun \<Rightarrow> labels" where
  "WorkerLabels run =
     (let scan = lor_name (rs_scanRef (run_spec run));
          platform = ps_platformType (rs_platformSnapshot (run_spec run))
      in [(LabelRun, run_name run),
          (LabelScan, scan),
          (LabelPlatform, platform_string platform),
          (LabelManagedBy, ManagedByValue),
          (LabelComponent, ComponentWorkerValue)])"

section \<open>JSON values\<close>

text \<open>
  The values \<open>Unmarshal\<close> stores in an \<open>any\<close>. A number is the text \<open>Marshal\<close> writes for the
  decoded \<open>float64\<close>; an object is an association list with distinct keys.
\<close>

datatype json =
    JNull
  | JBool bool
  | JNum string
  | JStr string
  | JArr "json list"
  | JObj "(string \<times> json) list"

fun join_comma :: "string list \<Rightarrow> string" where
  "join_comma [] = []"
| "join_comma [s] = s"
| "join_comma (s # t # ss) = s @ '','' @ join_comma (t # ss)"

text \<open>\<open>json.Marshal\<close>: object members in key order. None of these values makes it fail.\<close>

fun json_Marshal :: "json \<Rightarrow> string" where
  "json_Marshal JNull = ''null''"
| "json_Marshal (JBool b) = (if b then ''true'' else ''false'')"
| "json_Marshal (JNum n) = n"
| "json_Marshal (JStr s) = json_string s"
| "json_Marshal (JArr xs) = ''['' @ join_comma (map json_Marshal xs) @ '']''"
| "json_Marshal (JObj kvs) =
     ''{'' @ join_comma (map (\<lambda>(k, t). json_string k @ '':'' @ t)
               (sort_key fst (map (\<lambda>kv. (fst kv, json_Marshal (snd kv))) kvs))) @ ''}''"

text \<open>\<open>maps.Copy\<close>.\<close>

definition maps_Copy :: "(string \<times> json) list \<Rightarrow> (string \<times> json) list \<Rightarrow> (string \<times> json) list" where
  "maps_Copy dst src = fold (\<lambda>(k, v) m. AList.update k v m) src dst"

text \<open>\<open>x, _ := m[k].([]any)\<close>: anything but an array is nil.\<close>

fun as_array :: "json option \<Rightarrow> json list" where
  "as_array (Some (JArr xs)) = xs"
| "as_array _ = []"

section \<open>Environment\<close>

record CredentialMount =
  SecretName :: string
  TokenKey :: string

definition resolveLogLevel :: "RenovatePlatformSpec \<Rightarrow> RenovateScanSpec \<Rightarrow> string" where
  "resolveLogLevel platform scan =
     (if ss_logLevel scan \<noteq> None \<and> ss_logLevel scan \<noteq> Some '''' then the (ss_logLevel scan)
      else if ps_logLevel platform \<noteq> None \<and> ps_logLevel platform \<noteq> Some ''''
      then the (ps_logLevel platform)
      else defaultLogLevel)"

fun renovatePlatformID :: "PlatformType \<Rightarrow> string" where
  "renovatePlatformID PlatformTypeGitHub = ''github''"
| "renovatePlatformID PlatformTypeForgejo = ''forgejo''"
| "renovatePlatformID (OtherPlatformType t) = t"

definition buildAuthEnv :: "RenovatePlatformSpec \<Rightarrow> CredentialMount \<Rightarrow> EnvVar list res" where
  "buildAuthEnv platform cred =
     (if pa_githubApp (ps_auth platform) = None \<and> pa_token (ps_auth platform) = None
      then Inl (errors_New ''jobspec: PlatformAuth has neither githubApp nor token set'')
      else if TokenKey cred = ''''
      then Inl (errors_New ''jobspec: CredentialMount.TokenKey is required'')
      else Inr [\<lparr>env_name = envRenovateToken, env_value = '''',
                 env_valueFrom = Some (SecretKeyRef (SecretName cred) (TokenKey cred))\<rparr>])"

text \<open>One decoding step of \<open>mergeRenovateConfig\<close>: a nil or empty raw value is skipped.\<close>

definition copyRaw ::
  "(string \<Rightarrow> (string \<times> json) list res) \<Rightarrow> string \<Rightarrow> string option
   \<Rightarrow> (string \<times> json) list \<Rightarrow> (string \<times> json) list res" where
  "copyRaw U pre raw merged =
     (case raw of
        None \<Rightarrow> Inr merged
      | Some bytes \<Rightarrow>
          if bytes = '''' then Inr merged
          else (case U bytes of
                  Inl e \<Rightarrow> Inl (wrapf pre e)
                | Inr cfg \<Rightarrow> Inr (maps_Copy merged cfg)))"

definition mergeRenovateConfig ::
  "(string \<Rightarrow> (string \<times> json) list res) \<Rightarrow> RenovatePlatformSpec \<Rightarrow> RenovateScanSpec \<Rightarrow> string res" where
  "mergeRenovateConfig U platform scan =
     (case copyRaw U ''jobspec: parse platform.runnerConfig: '' (ps_runnerConfig platform) [] of
        Inl e \<Rightarrow> Inl e
      | Inr merged1 \<Rightarrow>
        (case copyRaw U ''jobspec: parse scan.renovateConfigOverrides: ''
                (ss_renovateConfigOverrides scan) merged1 of
           Inl e \<Rightarrow> Inl e
         | Inr merged2 \<Rightarrow>
           (let merged =
              (if ps_presetRepoRef platform \<noteq> ''''
               then (let extends = as_array (map_of merged2 ''extends'')
                     in AList.update ''extends'' (JArr (JStr (ps_presetRepoRef platform) # extends)) merged2)
               else merged2)
            in if merged = [] then Inr '''' else Inr (json_Marshal (JObj merged)))))"

definition plainEnv :: "string \<Rightarrow> string \<Rightarrow> EnvVar" where
  "plainEnv n v = \<lparr>env_name = n, env_value = v, env_valueFrom = None\<rparr>"

definition otlpFieldPath :: string where
  "otlpFieldPath = ''metadata.annotations['' @ [CHR 0x27] @ ''renovate.fartlab.dev/otlp-endpoint''
     @ [CHR 0x27] @ '']''"

definition buildEnv ::
  "(string \<Rightarrow> (string \<times> json) list res) \<Rightarrow> RenovatePlatformSpec \<Rightarrow> RenovateScanSpec \<Rightarrow> CredentialMount
   \<Rightarrow> EnvVar list res" where
  "buildEnv U platform scan cred =
     (let out1 = [plainEnv envRenovatePlatform (renovatePlatformID (ps_platformType platform)),
                  plainEnv envLogLevel (resolveLogLevel platform scan),
                  plainEnv envLogFormat defaultLogFormat]
               @ (if ps_baseURL platform \<noteq> '''' then [plainEnv envRenovateEndpoint (ps_baseURL platform)]
                  else [])
      in case buildAuthEnv platform cred of
           Inl e \<Rightarrow> Inl e
         | Inr authEnvs \<Rightarrow>
           (let out2 = out1 @ authEnvs @ [plainEnv envRenovateAutodiscover ''false'']
                     @ (if RequireConfigEnabled (ss_discovery scan)
                        then [plainEnv envRenovateRequireCfg ''required''] else [])
            in case mergeRenovateConfig U platform scan of
                 Inl e \<Rightarrow> Inl e
               | Inr cfg \<Rightarrow>
                   Inr (out2
                     @ (if cfg \<noteq> '''' then [plainEnv envRenovateConfig cfg] else [])
                     @ [plainEnv envOTELService otelServiceName,
                        \<lparr>env_name = envOTLPEndpoint, env_value = '''',
                         env_valueFrom = Some (FieldRef otlpFieldPath)\<rparr>]
                     @ ss_extraEnv scan)))"

section \<open>The entrypoint script\<close>

text \<open>
  The text of the script. A double or single quote and the dollar sign are ordinary characters of
  the shell source; \<open>sq\<close> is a single quote.
\<close>

definition sq :: string where "sq = [CHR 0x27]"
definition dq :: string where "dq = [dquote]"
definition nl :: string where "nl = [CHR 0x0A]"

definition EntrypointShell :: string where
  "EntrypointShell =
     ''set -eu'' @ nl @
     ''INDEX='' @ dq @ ''${JOB_COMPLETION_INDEX:?missing JOB_COMPLETION_INDEX}'' @ dq @ nl @
     ''SHARD_FILE='' @ dq @ ''/etc/shards/shard-$(printf '' @ sq @ ''%04d'' @ sq @ '' '' @ dq
       @ ''$INDEX'' @ dq @ '').json'' @ dq @ nl @
     ''GZ_FILE='' @ dq @ ''${SHARD_FILE}.gz'' @ dq @ nl @
     ''if   [ -f '' @ dq @ ''$SHARD_FILE'' @ dq @ '' ]; then DATA='' @ dq @ ''$(cat '' @ dq
       @ ''$SHARD_FILE'' @ dq @ '')'' @ dq @ nl @
     ''elif [ -f '' @ dq @ ''$GZ_FILE'' @ dq @ ''    ]; then DATA='' @ dq @ ''$(gunzip -c '' @ dq
       @ ''$GZ_FILE'' @ dq @ '')'' @ dq @ nl @
     ''else echo '' @ dq @ ''shard $INDEX not present (looked at $SHARD_FILE and $GZ_FILE)'' @ dq
       @ '' >&2; exit 1'' @ nl @
     ''fi'' @ nl @
     ''RENOVATE_REPOSITORIES='' @ dq @ ''$(printf '' @ sq @ ''%s'' @ sq @ '' '' @ dq @ ''$DATA'' @ dq
       @ '' | jq -c '' @ sq @ ''.repos'' @ sq @ '')'' @ dq @ nl @
     ''export RENOVATE_REPOSITORIES'' @ nl @
     ''exec renovate'' @ nl"

text \<open>
  What the script does. \<open>files\<close> is the file system it sees, by path; \<open>index\<close> is
  \<open>JOB_COMPLETION_INDEX\<close> as the Job controller sets it, a number. Under \<open>set -e\<close> a failing
  \<open>gunzip\<close> or \<open>jq\<close> ends the script. The result is the value of \<open>RENOVATE_REPOSITORIES\<close> that
  \<open>renovate\<close> is started with. Command substitution drops trailing newlines.
\<close>

datatype shell_exit = MissingIndex | ShardNotPresent | GunzipFailed | JqFailed

definition entrypoint ::
  "(string \<Rightarrow> string option) \<Rightarrow> (string \<Rightarrow> string option) \<Rightarrow> (string \<rightharpoonup> string) \<Rightarrow> nat option
   \<Rightarrow> shell_exit + string" where
  "entrypoint gunzip jq files index =
     (case index of
        None \<Rightarrow> Inl MissingIndex
      | Some i \<Rightarrow>
        (let shardFile = ''/etc/shards/shard-'' @ pad04 i @ ''.json'';
             gzFile = shardFile @ ''.gz'';
             data = (case files shardFile of
                       Some t \<Rightarrow> Inr (TrimRight t (CHR 0x0A))
                     | None \<Rightarrow>
                       (case files gzFile of
                          Some z \<Rightarrow> (case gunzip z of
                                       Some t \<Rightarrow> Inr (TrimRight t (CHR 0x0A))
                                     | None \<Rightarrow> Inl GunzipFailed)
                        | None \<Rightarrow> Inl ShardNotPresent))
         in case data of
              Inl e \<Rightarrow> Inl e
            | Inr d \<Rightarrow> (case jq d of
                          None \<Rightarrow> Inl JqFailed
                        | Some r \<Rightarrow> Inr (TrimRight r (CHR 0x0A)))))"

section \<open>The Job\<close>

record BuildInput =
  bi_Run :: "RenovateRun option"
  bi_ShardConfigMap :: "ConfigMap option"
  bi_ActualWorkers :: int32
  bi_Credential :: CredentialMount

definition errJobNilRun :: goerror where
  "errJobNilRun = sentinel_error ErrNilRun ''jobspec: nil Run''"

definition errNilConfigMap :: goerror where
  "errNilConfigMap = sentinel_error ErrNilConfigMap ''jobspec: nil shard ConfigMap''"

definition errInvalidWorker :: "int32 \<Rightarrow> goerror" where
  "errInvalidWorker n = sentinel_error ErrInvalidWorker
     (''jobspec: actualWorkers must be '' @ ge_sign @ '' 1: got '' @ itoa (sint n))"

definition errNoCredential :: goerror where
  "errNoCredential =
     sentinel_error ErrNoCredential ''jobspec: credential mount must have a SecretName''"

definition workerJob :: "RenovateRun \<Rightarrow> ConfigMap \<Rightarrow> int32 \<Rightarrow> EnvVar list \<Rightarrow> Job" where
  "workerJob run cm actual envs =
     (let platform = rs_platformSnapshot (run_spec run);
          scan = rs_scanSnapshot (run_spec run);
          labels = WorkerLabels run
      in \<lparr>job_meta = empty_meta\<lparr>
            m_name := JobName (run_name run),
            m_namespace := run_namespace run,
            m_labels := labels,
            m_ownerReferences := [ownerRefFor run]\<rparr>,
          job_spec = \<lparr>
            js_completionMode = Some IndexedCompletion,
            js_parallelism = Some actual,
            js_completions = Some actual,
            js_backoffLimit = Some 0,
            js_backoffLimitPerIndex = ws_backoffLimitPerIndex (ss_workers scan),
            js_ttlSecondsAfterFinished = Some defaultJobTTLSeconds,
            js_template = \<lparr>
              pod_labels = labels,
              pod_restartPolicy = RestartPolicyNever,
              pod_runAsNonRoot = Some True,
              pod_seccompProfile = ''RuntimeDefault'',
              pod_volumes = [\<lparr>vol_name = shardVolumeName, vol_configMap = m_name (cm_meta cm)\<rparr>],
              pod_containers = [\<lparr>
                ct_name = workerContainerName,
                ct_image = ps_renovateImage platform,
                ct_command = [''/bin/sh'', ''-c'', EntrypointShell],
                ct_env = envs,
                ct_volumeMounts = [\<lparr>vm_name = shardVolumeName, vm_mountPath = ShardMountPath,
                                    vm_readOnly = True\<rparr>],
                ct_allowPrivilegeEscalation = Some False,
                ct_dropCapabilities = [''ALL''],
                ct_resources = ss_resources scan\<rparr>]\<rparr>\<rparr>,
          job_status = \<lparr>jst_succeeded = 0, jst_failed = 0, jst_conditions = []\<rparr>\<rparr>)"

definition BuildWorkerJob :: "(string \<Rightarrow> (string \<times> json) list res) \<Rightarrow> BuildInput \<Rightarrow> Job res" where
  "BuildWorkerJob U inp =
     (case bi_Run inp of
        None \<Rightarrow> Inl errJobNilRun
      | Some run \<Rightarrow>
        (case bi_ShardConfigMap inp of
           None \<Rightarrow> Inl errNilConfigMap
         | Some cm \<Rightarrow>
           if bi_ActualWorkers inp <s 1 then Inl (errInvalidWorker (bi_ActualWorkers inp))
           else if SecretName (bi_Credential inp) = '''' then Inl errNoCredential
           else (case buildEnv U (rs_platformSnapshot (run_spec run)) (rs_scanSnapshot (run_spec run))
                        (bi_Credential inp) of
                   Inl e \<Rightarrow> Inl e
                 | Inr envs \<Rightarrow> Inr (workerJob run cm (bi_ActualWorkers inp) envs))))"

section \<open>Job names\<close>

interpretation jobname: bounded_name JobName "[]" jobNameSuffix 56
  by unfold_locales
    (auto simp: JobName_def Let_def DNS1123LabelMaxLength_def maxJobNameLen_def jobNameSuffix_def)

section \<open>Effective environment\<close>

text \<open>The kubelet gives a container the last entry of each name.\<close>

definition env_of :: "EnvVar list \<Rightarrow> string \<Rightarrow> EnvVar option" where
  "env_of envs n = List.find (\<lambda>e. env_name e = n) (rev envs)"

lemma env_of_append: "env_of (xs @ ys) n = opt_or (env_of ys n) (env_of xs n)"
  by (simp add: env_of_def find_append)

lemma env_of_Nil [simp]: "env_of [] n = None"
  by (simp add: env_of_def)

lemma env_of_single [simp]: "env_of [e] n = (if env_name e = n then Some e else None)"
  by (simp add: env_of_def)

lemma env_of_Cons: "env_of (x # y # xs) n = opt_or (env_of (y # xs) n) (env_of [x] n)"
  using env_of_append [of "[x]" "y # xs" n] by simp

text \<open>The environment the operator means to give, name by name.\<close>

definition operator_env ::
  "RenovatePlatformSpec \<Rightarrow> RenovateScanSpec \<Rightarrow> CredentialMount \<Rightarrow> string \<Rightarrow> string \<Rightarrow> EnvVar option" where
  "operator_env platform scan cred cfg n =
     (if n = envRenovatePlatform then Some (plainEnv n (renovatePlatformID (ps_platformType platform)))
      else if n = envLogLevel then Some (plainEnv n (resolveLogLevel platform scan))
      else if n = envLogFormat then Some (plainEnv n defaultLogFormat)
      else if n = envRenovateEndpoint \<and> ps_baseURL platform \<noteq> '''' then Some (plainEnv n (ps_baseURL platform))
      else if n = envRenovateToken then
        Some \<lparr>env_name = n, env_value = '''', env_valueFrom = Some (SecretKeyRef (SecretName cred) (TokenKey cred))\<rparr>
      else if n = envRenovateAutodiscover then Some (plainEnv n ''false'')
      else if n = envRenovateRequireCfg \<and> RequireConfigEnabled (ss_discovery scan)
      then Some (plainEnv n ''required'')
      else if n = envRenovateConfig \<and> cfg \<noteq> '''' then Some (plainEnv n cfg)
      else if n = envOTELService then Some (plainEnv n otelServiceName)
      else if n = envOTLPEndpoint then
        Some \<lparr>env_name = n, env_value = '''', env_valueFrom = Some (FieldRef otlpFieldPath)\<rparr>
      else None)"

lemma plainEnv_name [simp]: "env_name (plainEnv n v) = n"
  by (simp add: plainEnv_def)

lemma buildEnv_Inr:
  assumes "buildEnv U platform scan cred = Inr envs"
  obtains cfg base where "mergeRenovateConfig U platform scan = Inr cfg"
    and "buildAuthEnv platform cred = Inr [\<lparr>env_name = envRenovateToken, env_value = '''',
                 env_valueFrom = Some (SecretKeyRef (SecretName cred) (TokenKey cred))\<rparr>]"
    and "envs = base @ ss_extraEnv scan" 
    and "\<And>n. env_of base n = operator_env platform scan cred cfg n"
proof -
  from assms obtain cfg where cfg: "mergeRenovateConfig U platform scan = Inr cfg"
    by (auto simp: buildEnv_def Let_def split: sum.splits)
  from assms have auth: "buildAuthEnv platform cred = Inr [\<lparr>env_name = envRenovateToken, env_value = '''',
                 env_valueFrom = Some (SecretKeyRef (SecretName cred) (TokenKey cred))\<rparr>]"
    by (auto simp: buildEnv_def buildAuthEnv_def Let_def split: sum.splits if_splits)
  define base where "base =
    [plainEnv envRenovatePlatform (renovatePlatformID (ps_platformType platform)),
     plainEnv envLogLevel (resolveLogLevel platform scan), plainEnv envLogFormat defaultLogFormat]
    @ (if ps_baseURL platform \<noteq> '''' then [plainEnv envRenovateEndpoint (ps_baseURL platform)] else [])
    @ [\<lparr>env_name = envRenovateToken, env_value = '''',
                 env_valueFrom = Some (SecretKeyRef (SecretName cred) (TokenKey cred))\<rparr>]
    @ [plainEnv envRenovateAutodiscover ''false'']
    @ (if RequireConfigEnabled (ss_discovery scan) then [plainEnv envRenovateRequireCfg ''required''] else [])
    @ (if cfg \<noteq> '''' then [plainEnv envRenovateConfig cfg] else [])
    @ [plainEnv envOTELService otelServiceName,
       \<lparr>env_name = envOTLPEndpoint, env_value = '''', env_valueFrom = Some (FieldRef otlpFieldPath)\<rparr>]"
  have "envs = base @ ss_extraEnv scan"
    using assms by (simp add: buildEnv_def Let_def auth cfg base_def)
  moreover have "env_of base n = operator_env platform scan cred cfg n" for n
    by (auto simp: base_def operator_env_def env_of_append env_of_Cons env_names)
  ultimately show thesis using that cfg auth by blast
qed

text \<open>
  C37. The worker's effective environment: a name the Scan's \<open>extraEnv\<close> sets has the user's entry,
  every other name has exactly what the operator's table says. So the access token is only ever
  given as a reference into the mirrored Secret, and auto-discovery is off unless the user
  overrides it.
\<close>

theorem env_precedence:
  assumes "buildEnv U platform scan cred = Inr envs"
  shows "\<exists>cfg. mergeRenovateConfig U platform scan = Inr cfg \<and>
    (\<forall>n. env_of envs n = opt_or (env_of (ss_extraEnv scan) n) (operator_env platform scan cred cfg n))"
  using assms by (rule buildEnv_Inr) (auto simp: env_of_append)

section \<open>Merged configuration\<close>

lemma map_of_maps_Copy:
  "distinct (map fst src) \<Longrightarrow>
   map_of (maps_Copy dst src) k = opt_or (map_of src k) (map_of dst k)"
proof (induction src arbitrary: dst)
  case Nil
  then show ?case by (simp add: maps_Copy_def)
next
  case (Cons kv src)
  obtain k' v where kv: "kv = (k', v)" by (cases kv)
  have "maps_Copy dst (kv # src) = maps_Copy (AList.update k' v dst) src"
    by (simp add: maps_Copy_def kv)
  moreover have "map_of src k' = None" using Cons.prems kv by (auto simp: map_of_eq_None_iff)
  ultimately show ?case
    using Cons by (auto simp: kv update_conv')
qed

lemma distinct_maps_Copy: "distinct (map fst dst) \<Longrightarrow> distinct (map fst (maps_Copy dst src))"
  unfolding maps_Copy_def
  by (induction src arbitrary: dst) (auto simp: distinct_update)

text \<open>The object a raw field decodes to; an absent or empty field is the empty object.\<close>

definition raw_object :: "(string \<Rightarrow> (string \<times> json) list res) \<Rightarrow> string option \<Rightarrow> (string \<times> json) list res" where
  "raw_object U raw = (case raw of None \<Rightarrow> Inr [] | Some b \<Rightarrow> if b = '''' then Inr [] else U b)"

lemma copyRaw_Inr:
  "raw_object U raw = Inr cfg \<Longrightarrow> copyRaw U pre raw merged = Inr (maps_Copy merged cfg)"
  by (auto simp: raw_object_def copyRaw_def maps_Copy_def split: option.splits if_splits)

lemma copyRaw_Inl:
  "raw_object U raw = Inl e \<Longrightarrow> copyRaw U pre raw merged = Inl (wrapf pre e)"
  by (auto simp: raw_object_def copyRaw_def split: option.splits if_splits)

text \<open>
  The configuration handed to Renovate is the two decoded objects merged key by key with the
  Scan's value winning, except that a preset reference is put in front of the \<open>extends\<close> array;
  nothing at all is emitted when there is nothing to say. A field that does not decode is an
  error. Decoded objects have distinct keys.
\<close>

theorem merge_config_spec:
  assumes "\<forall>raw cfg. U raw = Inr cfg \<longrightarrow> distinct (map fst cfg)"
  shows "case (raw_object U (ps_runnerConfig platform), raw_object U (ss_renovateConfigOverrides scan)) of
      (Inr pcfg, Inr scfg) \<Rightarrow>
        (\<exists>m. mergeRenovateConfig U platform scan = Inr (if m = [] then '''' else json_Marshal (JObj m))
           \<and> distinct (map fst m)
           \<and> (\<forall>k. map_of m k =
                (let v = opt_or (map_of scfg k) (map_of pcfg k) in
                 if k = ''extends'' \<and> ps_presetRepoRef platform \<noteq> ''''
                 then Some (JArr (JStr (ps_presetRepoRef platform) # as_array v)) else v)))
    | (Inl e, _) \<Rightarrow> mergeRenovateConfig U platform scan
          = Inl (wrapf ''jobspec: parse platform.runnerConfig: '' e)
    | (Inr _, Inl e) \<Rightarrow> mergeRenovateConfig U platform scan
          = Inl (wrapf ''jobspec: parse scan.renovateConfigOverrides: '' e)"
proof (cases "raw_object U (ps_runnerConfig platform)")
  case (Inl e)
  then show ?thesis by (simp add: mergeRenovateConfig_def copyRaw_Inl)
next
  case p: (Inr pcfg)
  show ?thesis
  proof (cases "raw_object U (ss_renovateConfigOverrides scan)")
    case (Inl e)
    with p show ?thesis by (simp add: mergeRenovateConfig_def copyRaw_Inr copyRaw_Inl)
  next
    case s: (Inr scfg)
    have dp: "distinct (map fst pcfg)" and ds: "distinct (map fst scfg)"
      using assms p s by (auto simp: raw_object_def split: option.splits if_splits)
    let ?m2 = "maps_Copy (maps_Copy [] pcfg) scfg"
    let ?preset = "ps_presetRepoRef platform"
    define m where "m = (if ?preset \<noteq> '''' then AList.update ''extends''
        (JArr (JStr ?preset # as_array (map_of ?m2 ''extends''))) ?m2 else ?m2)"
    have m2: "map_of ?m2 k = opt_or (map_of scfg k) (map_of pcfg k)" for k
      by (simp add: map_of_maps_Copy dp ds)
    have "distinct (map fst ?m2)" by (intro distinct_maps_Copy) simp
    then have "distinct (map fst m)" by (auto simp: m_def distinct_update)
    moreover have "mergeRenovateConfig U platform scan
        = Inr (if m = [] then '''' else json_Marshal (JObj m))"
      by (simp add: mergeRenovateConfig_def copyRaw_Inr p s m_def Let_def)
    moreover have "\<forall>k. map_of m k = (let v = opt_or (map_of scfg k) (map_of pcfg k) in
        if k = ''extends'' \<and> ?preset \<noteq> '''' then Some (JArr (JStr ?preset # as_array v)) else v)"
      by (auto simp: m_def m2 update_conv' Let_def)
    ultimately show ?thesis using p s by auto
  qed
qed

definition ex_platform :: RenovatePlatformSpec where
  "ex_platform = \<lparr>ps_platformType = PlatformTypeForgejo, ps_baseURL = ''https://code.example'',
     ps_auth = \<lparr>pa_githubApp = None,
                pa_token = Some \<lparr>ta_secretRef = \<lparr>skr_name = ''creds'', skr_key = ''token''\<rparr>\<rparr>\<rparr>,
     ps_runnerConfig = None, ps_presetRepoRef = ''org/presets'',
     ps_renovateImage = ''renovate:43'', ps_logLevel = None\<rparr>"

definition ex_scan :: RenovateScanSpec where
  "ex_scan = \<lparr>ss_platformRef = \<lparr>lor_name = ''forge''\<rparr>, ss_schedule = ''0 4 * * *'', ss_timeZone = '''',
     ss_suspend = False, ss_concurrencyPolicy = ForbidConcurrent,
     ss_workers = \<lparr>ws_minWorkers = 1, ws_maxWorkers = 10, ws_reposPerWorker = 50,
                   ws_backoffLimitPerIndex = Some 2\<rparr>,
     ss_discovery = \<lparr>ds_autodiscover = None, ds_requireConfig = None, ds_filter = [''org/*''],
                     ds_topics = [], ds_skipForks = None, ds_skipArchived = None\<rparr>,
     ss_renovateConfigOverrides = Some ''{}'', ss_extraEnv = [plainEnv ''LOG_LEVEL'' ''debug''],
     ss_logLevel = None, ss_resources = None, ss_successfulRunsHistoryLimit = None,
     ss_failedRunsHistoryLimit = None\<rparr>"

definition ex_unmarshal :: "string \<Rightarrow> (string \<times> json) list res" where
  "ex_unmarshal raw = (if raw = ''{}'' then Inr [] else Inl (errors_New ''invalid JSON''))"

lemma ex_raw:
  "raw_object ex_unmarshal (ps_runnerConfig ex_platform) = Inr []"
  "raw_object ex_unmarshal (ss_renovateConfigOverrides ex_scan) = Inr []"
  "ps_presetRepoRef ex_platform = ''org/presets''"
  by (simp_all add: raw_object_def ex_platform_def ex_scan_def ex_unmarshal_def)

theorem merge_config_spec_witness:
  "\<exists>m. mergeRenovateConfig ex_unmarshal ex_platform ex_scan = Inr (if m = [] then '''' else json_Marshal (JObj m))
     \<and> map_of m ''extends'' = Some (JArr [JStr ''org/presets''])"
proof -
  have "\<forall>raw cfg. ex_unmarshal raw = Inr cfg \<longrightarrow> distinct (map fst cfg)"
    by (simp add: ex_unmarshal_def)
  from merge_config_spec [OF this, of ex_platform ex_scan] obtain m
    where "mergeRenovateConfig ex_unmarshal ex_platform ex_scan
        = Inr (if m = [] then '''' else json_Marshal (JObj m))"
      and m: "\<forall>k. map_of m k = (if k = ''extends'' then Some (JArr [JStr ''org/presets'']) else None)"
    by (auto simp: ex_raw Let_def cong: if_cong)
  moreover from m have "map_of m ''extends'' = Some (JArr [JStr ''org/presets''])" by simp
  ultimately show ?thesis by blast
qed

lemma ex_env: "\<exists>envs. buildEnv ex_unmarshal ex_platform ex_scan \<lparr>SecretName = ''m'', TokenKey = ''access-token''\<rparr> = Inr envs"
  by (simp add: buildEnv_def buildAuthEnv_def mergeRenovateConfig_def copyRaw_def ex_platform_def
      ex_scan_def ex_unmarshal_def Let_def)

theorem env_precedence_witness:
  "\<exists>envs. buildEnv ex_unmarshal ex_platform ex_scan \<lparr>SecretName = ''m'', TokenKey = ''access-token''\<rparr> = Inr envs
     \<and> env_of envs ''LOG_LEVEL'' = Some (plainEnv ''LOG_LEVEL'' ''debug'')
     \<and> map_option env_valueFrom (env_of envs ''RENOVATE_TOKEN'')
         = Some (Some (SecretKeyRef ''m'' ''access-token''))"
proof -
  from ex_env obtain envs where envs: "buildEnv ex_unmarshal ex_platform ex_scan
      \<lparr>SecretName = ''m'', TokenKey = ''access-token''\<rparr> = Inr envs" by blast
  from env_precedence [OF this] obtain cfg where
    "\<forall>n. env_of envs n = opt_or (env_of (ss_extraEnv ex_scan) n)
      (operator_env ex_platform ex_scan \<lparr>SecretName = ''m'', TokenKey = ''access-token''\<rparr> cfg n)"
    by blast
  with envs show ?thesis by (simp add: ex_scan_def operator_env_def env_names)
qed

section \<open>The Job\<close>

text \<open>
  A worker Job is built exactly when there is a Run, a ConfigMap, at least one worker, a Secret
  name and an environment; it then is an Indexed Job with one completion per shard, all in
  parallel, owned by the Run, with the shard ConfigMap mounted read-only where the entrypoint
  looks, and a pod that meets the restricted security profile.
\<close>

theorem worker_job_spec:
  "case BuildWorkerJob U inp of
     Inl e \<Rightarrow> bi_Run inp = None \<or> bi_ShardConfigMap inp = None \<or> sint (bi_ActualWorkers inp) < 1
        \<or> SecretName (bi_Credential inp) = [] \<or>
        (\<exists>run. bi_Run inp = Some run \<and> buildEnv U (rs_platformSnapshot (run_spec run))
            (rs_scanSnapshot (run_spec run)) (bi_Credential inp) = Inl e)
   | Inr job \<Rightarrow> \<exists>run cm envs c. bi_Run inp = Some run \<and> bi_ShardConfigMap inp = Some cm
        \<and> 1 \<le> sint (bi_ActualWorkers inp) \<and> SecretName (bi_Credential inp) \<noteq> []
        \<and> buildEnv U (rs_platformSnapshot (run_spec run)) (rs_scanSnapshot (run_spec run))
            (bi_Credential inp) = Inr envs
        \<and> m_name (job_meta job) = JobName (run_name run)
        \<and> m_ownerReferences (job_meta job) = [ownerRefFor run]
        \<and> js_completionMode (job_spec job) = Some IndexedCompletion
        \<and> js_completions (job_spec job) = Some (bi_ActualWorkers inp)
        \<and> js_parallelism (job_spec job) = js_completions (job_spec job)
        \<and> js_backoffLimit (job_spec job) = Some 0
        \<and> pod_containers (js_template (job_spec job)) = [c]
        \<and> ct_env c = envs \<and> ct_command c = [''/bin/sh'', ''-c'', EntrypointShell]
        \<and> map vol_configMap (pod_volumes (js_template (job_spec job))) = [m_name (cm_meta cm)]
        \<and> map vm_mountPath (ct_volumeMounts c) = [ShardMountPath]
        \<and> list_all vm_readOnly (ct_volumeMounts c)
        \<and> pod_runAsNonRoot (js_template (job_spec job)) = Some True
        \<and> ct_allowPrivilegeEscalation c = Some False \<and> ct_dropCapabilities c = [''ALL'']"
  by (auto simp: BuildWorkerJob_def workerJob_def Let_def word_sless_alt
      split: option.split sum.split)

section \<open>The entrypoint on the built shards\<close>

text \<open>The shard ConfigMap mounted at \<^const>\<open>ShardMountPath\<close>: one file per key.\<close>

definition mounted :: "(string \<times> string) list \<Rightarrow> string \<rightharpoonup> string" where
  "mounted data = map_of (map (\<lambda>(k, v). (ShardMountPath @ ''/'' @ k, v)) data)"

lemma mounted_lookup: "mounted data (ShardMountPath @ ''/'' @ k) = map_of data k"
  unfolding mounted_def by (induction data) auto

lemma mounted_json: "mounted data (''/etc/shards/shard-'' @ pad04 i @ ''.json'') = map_of data (ShardKeyJSON i)"
  using mounted_lookup [of data "ShardKeyJSON i"] by (simp add: ShardMountPath_def ShardKeyJSON_def)

lemma mounted_gzip:
  "mounted data ((''/etc/shards/shard-'' @ pad04 i @ ''.json'') @ ''.gz'') = map_of data (ShardKeyGzip i)"
  using mounted_lookup [of data "ShardKeyGzip i"] by (simp add: ShardMountPath_def ShardKeyGzip_def)

lemma TrimRight_payload [simp]: "TrimRight (marshalPayload p) (CHR 0x0A) = marshalPayload p"
  by (rule TrimRight_last) (simp_all add: marshalPayload_def)

lemma json_list_ne [simp]: "json_list ss \<noteq> []"
  by (induction ss rule: json_list.induct) auto

lemma last_json_list [simp]: "last (json_list ss) = CHR '']''"
  by (induction ss rule: json_list.induct) auto

lemma TrimRight_repos [simp]: "TrimRight (json_repos ss) (CHR 0x0A) = json_repos ss"
  by (rule TrimRight_last) (simp_all add: json_repos_def)

lemma entrypoint_json:
  assumes "map_of data (ShardKeyJSON i) = Some t" 
  shows "entrypoint gunzip jq (mounted data) (Some i) =
    (case jq (TrimRight t (CHR 0x0A)) of None \<Rightarrow> Inl JqFailed | Some r \<Rightarrow> Inr (TrimRight r (CHR 0x0A)))"
  using assms by (simp only: entrypoint_def mounted_json mounted_gzip Let_def option.case sum.case)

lemma entrypoint_gzip:
  assumes "map_of data (ShardKeyJSON i) = None" and "map_of data (ShardKeyGzip i) = Some z" and "gunzip z = None"
  shows "entrypoint gunzip jq (mounted data) (Some i) = Inl GunzipFailed"
  using assms by (simp only: entrypoint_def mounted_json mounted_gzip Let_def option.case sum.case)

lemma entrypoint_missing:
  assumes "map_of data (ShardKeyJSON i) = None" and "map_of data (ShardKeyGzip i) = None"
  shows "entrypoint gunzip jq (mounted data) (Some i) = Inl ShardNotPresent"
  using assms by (simp only: entrypoint_def mounted_json mounted_gzip Let_def option.case sum.case)

definition plain_slug :: "string \<Rightarrow> bool" where
  "plain_slug s = list_all (\<lambda>c. htmlSafe (byte c)) s"

lemma entrypoint_plain_shard:
  assumes "Build gz repos b = Inr res" and "k < nat (sint (ActualWorkers res))"
    and "\<not> oversized (shard_text repos res k)"
    and "\<forall>r\<in>set repos. plain_slug (Slug r)"
    and "\<forall>p. 0 \<le> Total p \<and> list_all plain_slug (Repos p) \<longrightarrow> jq (marshalPayload p) = Some (json_repos (Repos p) @ nl)"
  shows "entrypoint gunzip jq (mounted (Data res)) (Some k) = Inr (json_repos (shard_plan repos res ! k))"
proof -
  let ?p = "\<lparr>Index = k, Total = sint (ActualWorkers res), Repos = shard_plan repos res ! k\<rparr>"
  have "list_all plain_slug (Repos ?p)"
    using set_shard_plan [OF assms(1), of k] assms(2,4) by (auto simp: list_all_iff)
  moreover have "0 \<le> Total ?p" using assms(2) by auto
  ultimately have "jq (shard_text repos res k) = Some (json_repos (Repos ?p) @ nl)"
    using assms(5) [rule_format, of ?p] by (simp add: shard_text_def)
  moreover have "map_of (Data res) (ShardKeyJSON k) = Some (shard_text repos res k)"
    using Build_lookup(1) [OF assms(1,2)] assms(3) by simp
  ultimately show ?thesis
    by (simp add: entrypoint_json shard_text_def nl_def)
qed

text \<open>
  End to end: the worker with completion index \<open>k\<close> of a Job over the built shards starts
  Renovate with exactly the repositories of shard \<open>k\<close>, for every shard that is stored plain. The
  law on \<open>jq\<close> is what \<open>jq -c .repos\<close> prints for the payload's own text.
\<close>

theorem worker_gets_its_shard:
  assumes "Build gz repos b = Inr res" and "k < nat (sint (ActualWorkers res))"
    and "\<not> oversized (shard_text repos res k)"
    and "\<forall>r\<in>set repos. plain_slug (Slug r)"
    and "\<forall>p. 0 \<le> Total p \<and> list_all plain_slug (Repos p) \<longrightarrow> jq (marshalPayload p) = Some (json_repos (Repos p) @ nl)"
  shows "entrypoint gunzip jq (mounted (Data res)) (Some k) = Inr (json_repos (shard_plan repos res ! k))"
  by (rule entrypoint_plain_shard [OF assms])

definition ex_jq :: "string \<Rightarrow> string option" where
  "ex_jq t = map_option (\<lambda>p. json_repos (Repos p) @ nl) (readPayload t)"

lemma plain_slug_ascii: "plain_slug s \<Longrightarrow> ascii s"
  by (auto simp: plain_slug_def ascii_def htmlSafe_def list_all_iff)

lemma ex_jq_law: "\<forall>p. 0 \<le> Total p \<and> list_all plain_slug (Repos p) \<longrightarrow> ex_jq (marshalPayload p) = Some (json_repos (Repos p) @ nl)"
  by (auto simp: ex_jq_def readPayload_marshal list_all_iff plain_slug_ascii)

lemma ex_plan: "shard_plan ex_repos ex_result = [[''o/a'', ''o/c''], [''o/b'']]"
  using ex_build ex_shards by (simp add: shard_plan_def)

theorem worker_gets_its_shard_witness:
  "entrypoint (\<lambda>_. None) ex_jq (mounted (Data ex_result)) (Some 0) = Inr (json_repos [''o/a'', ''o/c''])"
proof -
  have "\<not> oversized (shard_text ex_repos ex_result 0)"
    by (simp add: oversized_def shard_text_def ex_plan payload_eval ex_build)
  moreover have "\<forall>r\<in>set ex_repos. plain_slug (Slug r)"
    by (simp add: ex_repos_def plain_slug_def htmlSafe_def)
  ultimately show ?thesis
    using worker_gets_its_shard [OF ex_build [THEN conjunct1], of 0 ex_jq "\<lambda>_. None"] ex_jq_law ex_build
    by (simp add: ex_plan)
qed

text \<open>
  C36. A shard over the threshold cannot be read by its worker: the ConfigMap holds base64 text and
  the script hands it to \<open>gunzip\<close> as it is. The laws are that a compressor's output is never empty, and that \<open>gunzip\<close>
  rejects non-empty text of base64 characters: of the formats it reads (gzip, zip, compress, pack, lzh), each starts with
  bytes one of which is no such character.
\<close>

theorem compressed_shard_unreadable:
  assumes "Build gz repos b = Inr res" and "k < nat (sint (ActualWorkers res))"
    and "oversized (shard_text repos res k)"
    and "\<forall>t z. gz t = Inr z \<longrightarrow> z \<noteq> []"
    and "\<forall>z. z \<noteq> [] \<and> list_all b64_alphabet z \<longrightarrow> gunzip z = None"
  shows "entrypoint gunzip jq (mounted (Data res)) (Some k) = Inl GunzipFailed"
proof -
  let ?t = "shard_text repos res k"
  from Build_Inr(5) [OF assms(1), of k] assms(2,3) obtain z where "gz ?t = Inr z" by auto
  then have gz: "map_of (Data res) (ShardKeyGzip k) = Some (base64 z)"
    and no: "map_of (Data res) (ShardKeyJSON k) = None"
    using Build_lookup [OF assms(1,2)] assms(3) by (simp_all add: gzipBase64_def)
  have "list_all b64_alphabet (base64 z)" by (simp add: list_all_iff base64_alphabet)
  moreover have "z \<noteq> []" using assms(4) \<open>gz ?t = Inr z\<close> by blast
  then have "base64 z \<noteq> []" by (cases z rule: base64.cases) simp_all
  ultimately have "gunzip (base64 z) = None" using assms(5) by blast
  then show ?thesis by (rule entrypoint_gzip [OF no gz])
qed

definition ex_big :: "Repository list" where
  "ex_big = [Repository (replicate 1000000 CHR ''x'')]"

lemma json_chars_plain: "plain_slug s \<Longrightarrow> json_chars s = s"
  by (induction s) (auto simp: plain_slug_def json_chars.simps(2) htmlSafe_def)

lemma ex_big_build:
  "\<exists>res. Build (\<lambda>_. Inr ''z'') ex_big ex_bounds = Inr res \<and> ActualWorkers res = 1"
proof -
  obtain res where res: "Build (\<lambda>_. Inr ''z'') ex_big ex_bounds = Inr res"
    using Build_total [of ex_big ex_bounds "\<lambda>_. Inr ''z''"] ex_valid by (auto simp: ex_big_def)
  moreover have "computeActualWorkers 1 ex_bounds = 1"
    by (simp add: computeActualWorkers_def ex_bounds_def div32_def sdiv_nonneg word_sless_alt)
  ultimately show ?thesis using Build_Inr(3) [OF res] by (simp add: ex_big_def)
qed

lemma ex_big_oversized:
  assumes "ActualWorkers res = 1"
  shows "oversized (shard_text ex_big res 0)"
proof -
  let ?s = "replicate 1000000 CHR ''x''"
  have "json_chars ?s = ?s"
    by (rule json_chars_plain) (simp add: plain_slug_def htmlSafe_def list_all_iff)
  then show ?thesis using assms
    by (simp add: oversized_def shard_text_def shard_plan_def ex_big_def assignRoundRobin_def
        marshalPayload_def json_repos_def json_string_def gzipThresholdBytes_def)
qed

theorem compressed_shard_unreadable_witness:
  "\<exists>res. Build (\<lambda>_. Inr ''z'') ex_big ex_bounds = Inr res \<and>
     entrypoint (\<lambda>z. if take 2 z = [CHR 0x1F, CHR 0x8B] then Some z else None) Some
       (mounted (Data res)) (Some 0) = Inl GunzipFailed"
proof -
  from ex_big_build obtain res
    where res: "Build (\<lambda>_. Inr ''z'') ex_big ex_bounds = Inr res" and one: "ActualWorkers res = 1"
    by blast
  have len: "0 < nat (sint (ActualWorkers res))" by (simp add: one)
  have gz: "list_all b64_alphabet z \<Longrightarrow> take 2 z \<noteq> [CHR 0x1F, CHR 0x8B]" for z
    by (cases z) (auto simp: b64_alphabet_def)
  from compressed_shard_unreadable [OF res len ex_big_oversized [OF one],
      of "\<lambda>z. if take 2 z = [CHR 0x1F, CHR 0x8B] then Some z else None"] res gz
  show ?thesis by auto
qed

text \<open>
  The worker Job's name fits a DNS-1123 label and tells Runs apart while their names fit the
  56-byte budget; past it, Runs whose names agree on the first 56 bytes share a Job name.
\<close>

theorem job_name_ok:
  "length (JobName s) \<le> 63 \<and>
   (length s \<le> 56 \<longrightarrow> length t \<le> 56 \<longrightarrow> (JobName s = JobName t \<longleftrightarrow> s = t)) \<and>
   (JobName s = JobName t \<longleftrightarrow> take 56 s = take 56 t)"
  using jobname.length_mk [of s] jobname.mk_inj_short [of s t] jobname.mk_eq_iff [of s t]
  by (simp add: DNS1123LabelMaxLength_def)

theorem job_name_ok_witness:
  "JobName ''nightly-abc'' \<noteq> JobName ''nightly-abd''"
  using job_name_ok [of "''nightly-abc''" "''nightly-abd''"] by simp

end
