(* ===== verification/PathMatch.thy ===== *)
theory PathMatch
  imports GoEncoding
begin

text \<open>
  \<open>path.Match\<close> of the Go standard library, which both platform clients filter repository names
  with, and what it accepts for the pattern shapes the Scan documentation uses. \<open>None\<close> stands for
  \<open>ErrBadPattern\<close>.
\<close>

section \<open>The matcher\<close>

definition getEsc :: "string \<Rightarrow> (nat \<times> string) option" where
  "getEsc chunk =
     (case chunk of
        [] \<Rightarrow> None
      | c # cs \<Rightarrow>
          if c = CHR ''-'' \<or> c = CHR '']'' then None
          else (let chunk = (if c = bslash then cs else chunk) in
                if chunk = [] then None
                else (let (r, n) = decodeRune chunk in
                      if r = RuneError \<and> n = 1 then None
                      else if drop n chunk = [] then None
                      else Some (r, drop n chunk))))"

lemma getEsc_shorter: "getEsc chunk = Some (r, rest) \<Longrightarrow> rest \<noteq> [] \<and> length rest < length chunk"
proof -
  assume "getEsc chunk = Some (r, rest)"
  moreover define ch where "ch = (if hd chunk = bslash then tl chunk else chunk)"
  ultimately have ch: "ch \<noteq> [] \<and> length ch \<le> length chunk \<and> rest \<noteq> []
      \<and> rest = drop (snd (decodeRune ch)) ch"
    by (cases chunk) (auto simp: getEsc_def Let_def split: if_splits prod.splits)
  then have "0 < snd (decodeRune ch)" using decodeRune_size_pos by (cases ch) auto
  with ch show ?thesis by (auto simp: not_le)
qed

text \<open>The ranges of a character class, up to its closing bracket.\<close>

function class_ranges :: "nat \<Rightarrow> bool \<Rightarrow> bool \<Rightarrow> string \<Rightarrow> (bool \<times> string) option" where
  "class_ranges r match some chunk =
     (if chunk \<noteq> [] \<and> hd chunk = CHR '']'' \<and> some then Some (match, tl chunk)
      else (case getEsc chunk of
              None \<Rightarrow> None
            | Some (lo, chunk1) \<Rightarrow>
                (case (if hd chunk1 = CHR ''-'' then getEsc (tl chunk1) else Some (lo, chunk1)) of
                   None \<Rightarrow> None
                 | Some (hi, chunk2) \<Rightarrow>
                     class_ranges r (match \<or> (lo \<le> r \<and> r \<le> hi)) True chunk2)))"
  by pat_completeness auto
termination
  by (relation "measure (\<lambda>(_, _, _, chunk). length chunk)")
    (auto split: if_splits dest!: getEsc_shorter)

declare class_ranges.simps [simp del]

lemma class_ranges_shorter: "class_ranges r m b chunk = Some (m', rest) \<Longrightarrow> length rest < length chunk"
proof (induction r m b chunk rule: class_ranges.induct)
  case (1 r m b chunk)
  show ?case
  proof (cases "chunk \<noteq> [] \<and> hd chunk = CHR '']'' \<and> b")
    case True
    with 1(2) show ?thesis by (subst (asm) class_ranges.simps) (cases chunk, auto)
  next
    case False
    with 1(2) obtain lo c1 hi c2 where e1: "getEsc chunk = Some (lo, c1)"
      and e2: "(if hd c1 = CHR ''-'' then getEsc (tl c1) else Some (lo, c1)) = Some (hi, c2)"
      and rec: "class_ranges r (m \<or> (lo \<le> r \<and> r \<le> hi)) True c2 = Some (m', rest)"
      by (auto simp: class_ranges.simps [of r m b chunk] split: option.splits)
    have "length c2 \<le> length c1" using e2 getEsc_shorter by (fastforce split: if_splits)
    with 1(1) [OF False e1 refl e2 refl rec] getEsc_shorter [OF e1] show ?thesis by simp
  qed
qed

text \<open>\<open>matchChunk\<close>: \<open>Some None\<close> is no match, \<open>Some (Some rest)\<close> a match of a prefix of \<open>s\<close>.\<close>

function matchChunk :: "bool \<Rightarrow> string \<Rightarrow> string \<Rightarrow> string option option" where
  "matchChunk failed [] s = Some (if failed then None else Some s)"
| "matchChunk failed0 (c # cs) s =
     (let failed = (failed0 \<or> s = []) in
      if c = CHR ''['' then
        (let (r, n) = (if failed then (0, 0) else decodeRune s);
             s' = drop n s;
             negated = (cs \<noteq> [] \<and> hd cs = CHR 0x5E);
             body = (if negated then tl cs else cs)
         in case class_ranges r False False body of
              None \<Rightarrow> None
            | Some (match, rest) \<Rightarrow> matchChunk (failed \<or> match = negated) rest s')
      else if c = CHR ''?'' then
        matchChunk (failed \<or> hd s = CHR ''/'')
          cs (if failed then s else drop (snd (decodeRune s)) s)
      else if c = bslash then
        (case cs of
           [] \<Rightarrow> None
         | d # ds \<Rightarrow> matchChunk (failed \<or> d \<noteq> hd s) ds (if failed then s else tl s))
      else matchChunk (failed \<or> c \<noteq> hd s) cs (if failed then s else tl s))"
  by pat_completeness auto
termination
  by (relation "measure (\<lambda>(_, chunk, _). length chunk)")
    (auto dest!: class_ranges_shorter split: if_splits)

declare matchChunk.simps(2) [simp del]

text \<open>\<open>scanChunk\<close>: the length of the leading part without an unescaped star outside a class.\<close>

fun scan_len :: "bool \<Rightarrow> string \<Rightarrow> nat" where
  "scan_len inrange [] = 0"
| "scan_len inrange (c # cs) =
     (if c = bslash then (case cs of [] \<Rightarrow> 1 | d # ds \<Rightarrow> 2 + scan_len inrange ds)
      else if c = CHR ''['' then Suc (scan_len True cs)
      else if c = CHR '']'' then Suc (scan_len False cs)
      else if c = CHR ''*'' \<and> \<not> inrange then 0
      else Suc (scan_len inrange cs))"

definition scanChunk :: "string \<Rightarrow> bool \<times> string \<times> string" where
  "scanChunk pattern =
     (let p = dropWhile (\<lambda>c. c = CHR ''*'') pattern;
          i = scan_len False p
      in (pattern \<noteq> [] \<and> hd pattern = CHR ''*'', take i p, drop i p))"

text \<open>The retry loop after a star: skip one more byte each time, never a slash.\<close>

fun star_loop :: "string \<Rightarrow> bool \<Rightarrow> string \<Rightarrow> string option option" where
  "star_loop chunk isLast [] = Some None"
| "star_loop chunk isLast (c # cs) =
     (if c = CHR ''/'' then Some None
      else case matchChunk False chunk cs of
             None \<Rightarrow> None
           | Some None \<Rightarrow> star_loop chunk isLast cs
           | Some (Some t) \<Rightarrow> if isLast \<and> t \<noteq> [] then star_loop chunk isLast cs else Some (Some t))"

lemma scanChunk_shorter:
  assumes "pattern \<noteq> []" and "scanChunk pattern = (star, chunk, rest)"
  shows "length rest < length pattern"
proof (cases "hd pattern = CHR ''*''")
  case True
  let ?p = "dropWhile (\<lambda>c. c = CHR ''*'') pattern"
  have "?p = dropWhile (\<lambda>c. c = CHR ''*'') (tl pattern)" using True assms(1) by (cases pattern) auto
  then have "length ?p < length pattern"
    using assms(1) length_dropWhile_le [of "\<lambda>c. c = CHR ''*''" "tl pattern"] by (cases pattern) auto
  moreover have "length rest \<le> length ?p" using assms(2) by (auto simp: scanChunk_def Let_def)
  ultimately show ?thesis by simp
next
  case False
  obtain c cs where p: "pattern = c # cs" using assms(1) by (cases pattern) auto
  then have dw: "dropWhile (\<lambda>c. c = CHR ''*'') pattern = pattern" using False by simp
  have "0 < scan_len False pattern" using p False by (auto split: list.splits)
  then show ?thesis using assms(2) dw p by (auto simp: scanChunk_def Let_def)
qed

lemmas scanChunk_decreases = scanChunk_shorter [OF _ sym]

text \<open>The syntax check of the rest of the pattern after a mismatch.\<close>

function check_rest :: "string \<Rightarrow> bool option" where
  "check_rest pattern =
     (if pattern = [] then Some False
      else (case scanChunk pattern of (_, chunk, rest) \<Rightarrow>
             (case matchChunk False chunk [] of None \<Rightarrow> None | Some _ \<Rightarrow> check_rest rest)))"
  by pat_completeness auto
termination
  by (relation "measure length") (auto dest: scanChunk_decreases)

declare check_rest.simps [simp del]

function path_Match :: "string \<Rightarrow> string \<Rightarrow> bool option" where
  "path_Match pattern name =
     (if pattern = [] then Some (name = [])
      else (case scanChunk pattern of (star, chunk, rest) \<Rightarrow>
        if star \<and> chunk = [] then Some (CHR ''/'' \<notin> set name)
        else (case matchChunk False chunk name of
                None \<Rightarrow> None
              | Some r \<Rightarrow>
                  (case r of
                     Some t \<Rightarrow>
                       if t = [] \<or> rest \<noteq> [] then path_Match rest t
                       else if star then
                         (case star_loop chunk (rest = []) name of
                            None \<Rightarrow> None
                          | Some (Some t') \<Rightarrow> path_Match rest t'
                          | Some None \<Rightarrow> check_rest rest)
                       else check_rest rest
                   | None \<Rightarrow>
                       if star then
                         (case star_loop chunk (rest = []) name of
                            None \<Rightarrow> None
                          | Some (Some t') \<Rightarrow> path_Match rest t'
                          | Some None \<Rightarrow> check_rest rest)
                       else check_rest rest))))"
  by pat_completeness auto
termination
  by (relation "measure (\<lambda>(pattern, _). length pattern)") (auto dest: scanChunk_decreases)

declare path_Match.simps [simp del]

section \<open>Literal text and trailing stars\<close>

definition meta_char :: "char \<Rightarrow> bool" where
  "meta_char c = (c = CHR ''*'' \<or> c = CHR ''?'' \<or> c = CHR ''['' \<or> c = CHR '']'' \<or> c = bslash)"

definition literal :: "string \<Rightarrow> bool" where
  "literal p = list_all (\<lambda>c. \<not> meta_char c) p"

lemma literal_Cons [simp]: "literal (c # p) \<longleftrightarrow> \<not> meta_char c \<and> literal p"
  by (simp add: literal_def)

lemma literal_Nil [simp]: "literal []"
  by (simp add: literal_def)

lemma scan_len_literal: "literal p \<Longrightarrow> scan_len False (p @ rest) = length p + scan_len False rest"
  by (induction p) (auto simp: meta_char_def)

lemma matchChunk_failed: "literal p \<Longrightarrow> matchChunk True p s = Some None"
  by (induction p arbitrary: s) (auto simp: matchChunk.simps(2) meta_char_def)

lemma matchChunk_literal:
  "literal p \<Longrightarrow> matchChunk False p s = Some (if take (length p) s = p then Some (drop (length p) s) else None)"
proof (induction p arbitrary: s)
  case Nil
  then show ?case by simp
next
  case (Cons c p)
  show ?case
  proof (cases s)
    case Nil
    with Cons show ?thesis by (auto simp: matchChunk.simps(2) meta_char_def matchChunk_failed)
  next
    case (Cons a list)
    with Cons.IH Cons.prems show ?thesis
      by (cases "c = a") (auto simp: matchChunk.simps(2) meta_char_def matchChunk_failed)
  qed
qed

lemma scanChunk_literal:
  assumes "literal p" and "p \<noteq> []"
  shows "scanChunk (p @ rest) = (False, p @ take (scan_len False rest) rest, drop (scan_len False rest) rest)"
proof -
  have "hd p \<noteq> CHR ''*''" using assms by (cases p) (auto simp: meta_char_def)
  then have "dropWhile (\<lambda>c. c = CHR ''*'') (p @ rest) = p @ rest" using assms(2) by (cases p) auto
  then show ?thesis
    using assms \<open>hd p \<noteq> CHR ''*''\<close> by (simp add: scanChunk_def Let_def scan_len_literal)
qed

lemma check_rest_Nil [simp]: "check_rest [] = Some False"
  by (simp add: check_rest.simps)

lemma path_Match_Nil [simp]: "path_Match [] name = Some (name = [])"
  by (simp add: path_Match.simps)

lemma path_Match_star [simp]: "path_Match ''*'' name = Some (CHR ''/'' \<notin> set name)"
  by (simp add: path_Match.simps [of "''*''"] scanChunk_def)

lemma check_rest_star [simp]: "check_rest ''*'' = Some False"
  by (simp add: check_rest.simps [of "''*''"] scanChunk_def)

lemma path_Match_literal:
  assumes "literal p"
  shows "path_Match p name = Some (name = p)"
proof (cases "p = []")
  case False
  with scanChunk_literal [OF assms False, of "[]"] matchChunk_literal [OF assms, of name] show ?thesis
    by (auto simp: path_Match.simps [of p] dest: sym)
qed auto

text \<open>
  A literal prefix followed by a star, the documented shapes \<open>owner/*\<close> and \<open>owner/prefix-*\<close>:
  exactly the names that start with the prefix and have no further slash.
\<close>

lemma path_Match_prefix_star:
  assumes "literal p"
  shows "path_Match (p @ ''*'') name = Some (take (length p) name = p \<and> CHR ''/'' \<notin> set (drop (length p) name))"
proof (cases "p = []")
  case False
  with scanChunk_literal [OF assms False, of "''*''"] matchChunk_literal [OF assms, of name] show ?thesis
    by (simp add: path_Match.simps [of "p @ ''*''"])
qed simp

end
