(* ===== verification/PlatformClient.thy ===== *)
theory PlatformClient
  imports ApiTypes PathMatch
begin

text \<open>
  Package \<open>internal/platform\<close>: the interface the Run reconciler talks to a forge through, its
  error sentinels and the rate-limit error. A client is a record of functions over a state \<open>'n\<close> of
  the network and the rate limiter. \<open>Discover\<close> pages through a listing the server controls, so it
  may not return: its result is an option.
\<close>

section \<open>Data\<close>

record PlatformRepository =
  pr_slug :: string
  pr_defaultBranch :: string
  pr_archived :: bool
  pr_fork :: bool
  pr_topics :: "string list"

record DiscoveryFilter =
  df_patterns :: "string list"
  df_topics :: "string list"
  df_skipForks :: bool
  df_skipArchived :: bool
  df_owner :: string

definition ConfigPaths :: "string list" where
  "ConfigPaths = [''renovate.json'', ''.renovaterc'', ''.renovaterc.json'',
     ''.github/renovate.json'', ''.gitlab/renovate.json'']"

record 'n PlatformClient =
  pc_Discover :: "DiscoveryFilter \<Rightarrow> 'n \<Rightarrow> (PlatformRepository list res \<times> 'n) option"
  pc_HasRenovateConfig :: "PlatformRepository \<Rightarrow> 'n \<Rightarrow> bool res \<times> 'n"
  pc_MintAccessToken :: "'n \<Rightarrow> (string \<times> gotime) res \<times> 'n"

section \<open>Errors\<close>

text \<open>The texts of the sentinels; \<open>platform_error s e\<close> is \<open>fmt.Errorf("%w: %v", s, e)\<close>.\<close>

fun sentinel_text :: "sentinel \<Rightarrow> string" where
  "sentinel_text ErrTransient = ''platform: transient error''"
| "sentinel_text ErrPermanent = ''platform: permanent error''"
| "sentinel_text ErrUnauthorized = ''platform: unauthorized''"
| "sentinel_text ErrNotFound = ''platform: not found''"
| "sentinel_text _ = ''''"

definition platform_error :: "sentinel \<Rightarrow> goerror \<Rightarrow> goerror" where
  "platform_error s e = wrap_sentinel s (sentinel_text s) e"

lemma errors_Is_platform_error [simp, go_err]: "errors_Is (platform_error s e) t \<longleftrightarrow> t = s"
  by (simp add: platform_error_def)

text \<open>\<open>Duration.String\<close> of a positive duration.\<close>

definition frac_text :: "nat \<Rightarrow> nat \<Rightarrow> string" where
  "frac_text v prec =
     (let ds = itoa_nat (v mod 10 ^ prec);
          padded = replicate (prec - length ds) CHR ''0'' @ ds;
          kept = TrimRight padded CHR ''0''
      in if kept = [] then [] else ''.'' @ kept)"

definition duration_string :: "int \<Rightarrow> string" where
  "duration_string d =
     (let u = nat d in
      if u = 0 then ''0s''
      else if u < 1000 then itoa_nat u @ ''ns''
      else if u < 1000000 then itoa_nat (u div 1000) @ frac_text u 3 @ [CHR 0xC2, CHR 0xB5] @ ''s''
      else if u < 1000000000 then itoa_nat (u div 1000000) @ frac_text u 6 @ ''ms''
      else (let s = u div 1000000000; m = s div 60; h = m div 60 in
            (if h > 0 then itoa_nat h @ ''h'' else [])
            @ (if m > 0 then itoa_nat (m mod 60) @ ''m'' else [])
            @ itoa_nat (s mod 60) @ frac_text u 9 @ ''s''))"

record RateLimitedError =
  RetryAfter :: int
  Cause :: goerror

definition RateLimited_Error :: "RateLimitedError \<Rightarrow> string" where
  "RateLimited_Error e =
     (if RetryAfter e > 0
      then ''platform: rate limited, retry after '' @ duration_string (RetryAfter e)
      else ''platform: rate limited'')"

text \<open>As an \<open>error\<close> value: \<open>Unwrap\<close> reports \<open>ErrTransient\<close>.\<close>

definition rate_limited :: "RateLimitedError \<Rightarrow> goerror" where
  "rate_limited e = sentinel_error ErrTransient (RateLimited_Error e)"

lemma errors_Is_rate_limited [simp, go_err]: "errors_Is (rate_limited e) t \<longleftrightarrow> t = ErrTransient"
  by (simp add: rate_limited_def)

section \<open>The contract of a client\<close>

text \<open>
  What a filter lets through, on the platform-neutral repository. A client of a forge that has no topics on its repositories
  (\<open>topical\<close> is false: Forgejo) leaves the wanted topics out, as the \<open>DiscoveryFilter\<close> documents.
\<close>

definition pattern_hit :: "string list \<Rightarrow> string \<Rightarrow> bool" where
  "pattern_hit ps name = (ps = [] \<or> (\<exists>p\<in>set ps. path_Match p name = Some True))"

definition topic_hit :: "string list \<Rightarrow> string list \<Rightarrow> bool" where
  "topic_hit wanted have = (wanted = [] \<or> (\<exists>t\<in>set wanted. t \<in> set have))"

definition admits :: "bool \<Rightarrow> DiscoveryFilter \<Rightarrow> PlatformRepository \<Rightarrow> bool" where
  "admits topical f r =
     ((df_skipArchived f \<longrightarrow> \<not> pr_archived r) \<and> (df_skipForks f \<longrightarrow> \<not> pr_fork r)
      \<and> pattern_hit (df_patterns f) (pr_slug r) \<and> (topical \<longrightarrow> topic_hit (df_topics f) (pr_topics r)))"

locale platform_client =
  fixes topical :: bool
    and C :: "'n PlatformClient"
  assumes discover_admits: "pc_Discover C f n = Some (Inr rs, n') \<Longrightarrow> list_all (admits topical f) rs"
    and discover_owner: "df_owner f = '''' \<Longrightarrow> \<exists>e. pc_Discover C f n = Some (Inl e, n) \<and>
          \<not> errors_Is e ErrTransient"
    and probe_slug: "CHR ''/'' \<notin> set (pr_slug r) \<Longrightarrow> \<exists>e. pc_HasRenovateConfig C r n = (Inl e, n)"
begin

lemma discovered_in_scope:
  assumes "pc_Discover C f n = Some (Inr rs, n')" and "r \<in> set rs"
  shows "(df_skipArchived f \<longrightarrow> \<not> pr_archived r) \<and> (df_skipForks f \<longrightarrow> \<not> pr_fork r)
    \<and> (df_patterns f \<noteq> [] \<longrightarrow> (\<exists>p\<in>set (df_patterns f). path_Match p (pr_slug r) = Some True))"
  using discover_admits [OF assms(1)] assms(2)
  by (auto simp: list_all_iff admits_def pattern_hit_def)

text \<open>With the documented \<open>owner/*\<close> pattern alone, only that owner's repositories come back.\<close>

lemma discovered_of_owner:
  assumes "pc_Discover C f n = Some (Inr rs, n')" and "r \<in> set rs"
    and "df_patterns f = [owner @ ''/*'']" and "literal owner"
  shows "\<exists>name. pr_slug r = owner @ ''/'' @ name \<and> CHR ''/'' \<notin> set name"
proof -
  have "path_Match ((owner @ ''/'') @ ''*'') (pr_slug r) = Some True"
    using discovered_in_scope [OF assms(1,2)] assms(3) by simp
  moreover have "literal (owner @ ''/'')" using assms(4) by (simp add: literal_def meta_char_def)
  ultimately have "take (length (owner @ ''/'')) (pr_slug r) = owner @ ''/''"
      "CHR ''/'' \<notin> set (drop (length (owner @ ''/'')) (pr_slug r))"
    by (simp_all only: path_Match_prefix_star) simp_all
  then show ?thesis
    using append_take_drop_id [of "length (owner @ ''/'')" "pr_slug r"]
    by (intro exI [of _ "drop (length (owner @ ''/'')) (pr_slug r)"]) (metis append_assoc)
qed

end

text \<open>The outcome of probing in order when the server's answers do not change meanwhile.\<close>

definition first_answer :: "(string \<Rightarrow> goerror option) \<Rightarrow> string list \<Rightarrow> bool res" where
  "first_answer answer ps =
     (case List.find (\<lambda>p. \<not> (\<exists>e. answer p = Some e \<and> errors_Is e ErrNotFound)) ps of
        None \<Rightarrow> Inr False
      | Some p \<Rightarrow> (case answer p of None \<Rightarrow> Inr True | Some e \<Rightarrow> Inl e))"

section \<open>Paged listings\<close>

text \<open>
  One step of a listing yields the entries of a page and the next page to ask for, if any. A chain
  of pages is a complete listing: the limiter admits and the server answers every request, and the
  last answer names no next page.
\<close>

inductive page_chain ::
  "('n \<Rightarrow> goerror option \<times> 'n) \<Rightarrow> ('p \<Rightarrow> 'n \<Rightarrow> (goerror + 'a list \<times> 'p option) \<times> 'n)
   \<Rightarrow> 'p \<Rightarrow> 'n \<Rightarrow> 'a list list \<Rightarrow> 'n \<Rightarrow> bool"
  for wait fetch where
  last_page: "wait n = (None, n1) \<Longrightarrow> fetch p n1 = (Inr (rs, None), n2) \<Longrightarrow>
     page_chain wait fetch p n [rs] n2"
| more_pages: "wait n = (None, n1) \<Longrightarrow> fetch p n1 = (Inr (rs, Some q), n2) \<Longrightarrow>
     page_chain wait fetch q n2 chunks n3 \<Longrightarrow> page_chain wait fetch p n (rs # chunks) n3"

inductive_cases page_chainE: "page_chain wait fetch p n chunks n'"

locale pager =
  fixes wait :: "'n \<Rightarrow> goerror option \<times> 'n"
    and fetch :: "'p \<Rightarrow> 'n \<Rightarrow> (goerror + 'a list \<times> 'p option) \<times> 'n"
    and run :: "'p \<Rightarrow> 'a list \<Rightarrow> 'n \<Rightarrow> ('a list res \<times> 'n) option"
  assumes run_eq: "run p all n =
      (case wait n of
         (Some e, n1) \<Rightarrow> Some (Inl e, n1)
       | (None, n1) \<Rightarrow>
           (case fetch p n1 of
              (Inl e, n2) \<Rightarrow> Some (Inl e, n2)
            | (Inr (rs, None), n2) \<Rightarrow> Some (Inr (all @ rs), n2)
            | (Inr (rs, Some q), n2) \<Rightarrow> run q (all @ rs) n2))"
    and run_sound: "run p all n = Some (Inr rs, n') \<Longrightarrow>
      \<exists>chunks. page_chain wait fetch p n chunks n' \<and> rs = all @ concat chunks"
begin

lemma run_chain:
  "page_chain wait fetch p n chunks n' \<Longrightarrow> run p all n = Some (Inr (all @ concat chunks), n')"
proof (induction arbitrary: all rule: page_chain.induct)
  case (last_page n n1 p rs n2)
  then show ?case by (simp add: run_eq)
next
  case (more_pages n n1 p rs q n2 chunks n3)
  then show ?case by (subst run_eq) simp
qed

lemma run_iff: "run p [] n = Some (Inr rs, n') \<longleftrightarrow>
    (\<exists>chunks. page_chain wait fetch p n chunks n' \<and> rs = concat chunks)"
  using run_chain [of p n _ n' "[]"] run_sound [of p "[]" n rs n'] by auto

end

end
