(* ===== verification/RunReconciler.thy ===== *)
theory RunReconciler
  imports Kube Sharding Credentials WorkerJob PlatformClient
begin

text \<open>
  The Run controller (\<open>internal/controller/renovaterun_controller.go\<close>): the state machine of a Run.
  Tracing spans and log lines have no effect on the state and are left out.
\<close>

section \<open>The reconciler\<close>

text \<open>
  Its fields, and the library functions it reaches: the condition helpers of \<open>apimachinery\<close>,
  \<open>metav1.Now\<close>, the compressor and the JSON decoder.
\<close>

record ('s, 'n) RenovateRunReconciler =
  rn_Client :: "'s kclient"
  rn_Clock :: "nat \<Rightarrow> gotime"
  rn_OperatorNamespace :: string
  rn_PlatformClientFactory :: "RenovatePlatformSpec \<Rightarrow> Secret \<Rightarrow> 'n PlatformClient res"
  rn_meta :: meta_api
  rn_metaNow :: "nat \<Rightarrow> gotime"
  rn_gzip :: "string \<Rightarrow> string res"
  rn_unmarshal :: "string \<Rightarrow> (string \<times> json) list res"

definition requeueAfterRunTransient :: int where
  "requeueAfterRunTransient = 30 * nanos_per_second"

abbreviation on_status :: "(RenovateRunStatus \<Rightarrow> RenovateRunStatus) \<Rightarrow> RenovateRun \<Rightarrow> RenovateRun" where
  "on_status f run \<equiv> run\<lparr>run_status := f (run_status run)\<rparr>"

definition run_mark_true ::
  "('s, 'n) RenovateRunReconciler \<Rightarrow> string \<Rightarrow> string \<Rightarrow> string \<Rightarrow> RenovateRun \<Rightarrow> ('s, 'n) world
   \<Rightarrow> RenovateRun \<times> ('s, 'n) world" where
  "run_mark_true R ty reason msg run w =
     (let (t, w1) = read_clock (rn_metaNow R) w in
      (on_status (\<lambda>st. st\<lparr>rst_conditions :=
         mark_true (rn_meta R) t (rst_conditions st) ty reason msg (m_generation (run_meta run))\<rparr>) run, w1))"

definition run_mark_false ::
  "('s, 'n) RenovateRunReconciler \<Rightarrow> string \<Rightarrow> string \<Rightarrow> string \<Rightarrow> RenovateRun \<Rightarrow> ('s, 'n) world
   \<Rightarrow> RenovateRun \<times> ('s, 'n) world" where
  "run_mark_false R ty reason msg run w =
     (let (t, w1) = read_clock (rn_metaNow R) w in
      (on_status (\<lambda>st. st\<lparr>rst_conditions :=
         mark_false (rn_meta R) t (rst_conditions st) ty reason msg (m_generation (run_meta run))\<rparr>) run, w1))"

section \<open>Terminal and transient outcomes\<close>

definition runMetricLabels :: "RenovateRun \<Rightarrow> string \<times> string" where
  "runMetricLabels run =
     (lor_name (rs_scanRef (run_spec run)),
      platform_string (ps_platformType (rs_platformSnapshot (run_spec run))))"

definition recordRunTerminal :: "RenovateRun \<Rightarrow> string \<Rightarrow> ('s, 'n) world \<Rightarrow> ('s, 'n) world" where
  "recordRunTerminal run result w =
     (let (scan, plat) = runMetricLabels run;
          w1 = emit (RunsTotal scan plat result) w
      in case (rst_startTime (run_status run), rst_completionTime (run_status run)) of
           (Some st, Some ct) \<Rightarrow>
             (let d = Sub_time ct st in
              if d < 0 then w1 else emit (RunDurationSeconds scan plat d) w1)
         | _ \<Rightarrow> w1)"

type_synonym ('s, 'n) run_step = "outcome \<times> RenovateRun \<times> ('s, 'n) world"

definition markFailed ::
  "('s, 'n) RenovateRunReconciler \<Rightarrow> string \<Rightarrow> RenovateRun \<Rightarrow> ('s, 'n) world \<Rightarrow> ('s, 'n) run_step" where
  "markFailed R msg run w =
     (let (t, w1) = read_clock (rn_Clock R) w;
          run1 = on_status (\<lambda>st. st\<lparr>rst_completionTime := Some t, rst_phase := RunPhaseFailed\<rparr>) run;
          (run2, w2) = run_mark_true R TypeFailed ReasonDiscoveryFailed msg run1 w1
      in ((noRequeue, None), run2, recordRunTerminal run2 ResultFailed w2))"

definition markTransient ::
  "('s, 'n) RenovateRunReconciler \<Rightarrow> goerror \<Rightarrow> string \<Rightarrow> RenovateRun \<Rightarrow> ('s, 'n) world \<Rightarrow> ('s, 'n) run_step" where
  "markTransient R err reason run w =
     (let (run1, w1) = run_mark_false R TypeStarted reason (err_msg err) run w
      in ((requeue_in requeueAfterRunTransient, None), run1, w1))"

definition handleDiscoverErr ::
  "('s, 'n) RenovateRunReconciler \<Rightarrow> goerror \<Rightarrow> RenovateRun \<Rightarrow> ('s, 'n) world \<Rightarrow> ('s, 'n) run_step" where
  "handleDiscoverErr R err run w =
     (if errors_Is err ErrTransient then markTransient R err ReasonDiscoveryFailed run w
      else markFailed R (''discovery: '' @ err_msg err) run w)"

section \<open>Credentials\<close>

definition fetchSourceSecret ::
  "('s, 'n) RenovateRunReconciler \<Rightarrow> RenovateRun \<Rightarrow> ('s, 'n) world \<Rightarrow> Secret res" where
  "fetchSourceSecret R run w =
     (case SourceSecretName (Some run) of
        Inl e \<Rightarrow> Inl e
      | Inr srcName \<Rightarrow>
          (case Get_Secret (rn_Client R) (rn_OperatorNamespace R) srcName (w_cluster w) of
             Inl e \<Rightarrow> Inl (wrapf ''get source secret: '' e)
           | Inr src \<Rightarrow> Inr src))"

definition mirrorCredential ::
  "('s, 'n) RenovateRunReconciler \<Rightarrow> RenovateRun \<Rightarrow> string \<Rightarrow> ('s, 'n) world \<Rightarrow> Secret res \<times> ('s, 'n) world" where
  "mirrorCredential R run accessToken w =
     (case BuildMirror (Some run) accessToken of
        Inl e \<Rightarrow> (Inl e, w)
      | Inr dst \<Rightarrow>
          (case Get_Secret (rn_Client R) (m_namespace (sec_meta dst)) (m_name (sec_meta dst)) (w_cluster w) of
             Inl e \<Rightarrow>
               if IsNotFound e then
                 (case on_cluster (Create_Secret (rn_Client R) dst) w of
                    (Inl ce, w1) \<Rightarrow> (Inl (wrapf ''create mirrored secret: '' ce), w1)
                  | (Inr dst', w1) \<Rightarrow> (Inr dst', w1))
               else (Inl (wrapf ''get mirrored secret: '' e), w)
           | Inr existing \<Rightarrow>
               (let existing1 = existing\<lparr>sec_data := sec_data dst,
                      sec_meta := (sec_meta existing)\<lparr>m_labels := m_labels (sec_meta dst)\<rparr>\<rparr>
                in case on_cluster (Update_Secret (rn_Client R) existing1) w of
                     (Inl ue, w1) \<Rightarrow> (Inl (wrapf ''update mirrored secret: '' ue), w1)
                   | (Inr existing2, w1) \<Rightarrow> (Inr existing2, w1))))"

section \<open>Discovery\<close>

text \<open>\<open>indexOf\<close>; -1 when the byte does not occur.\<close>

fun indexOf_from :: "int \<Rightarrow> string \<Rightarrow> char \<Rightarrow> int" where
  "indexOf_from i [] b = -1"
| "indexOf_from i (c # cs) b = (if c = b then i else indexOf_from (i + 1) cs b)"

definition indexOf :: "string \<Rightarrow> char \<Rightarrow> int" where
  "indexOf s b = indexOf_from 0 s b"

fun owner_from :: "string list \<Rightarrow> string \<Rightarrow> string" where
  "owner_from [] ns = ns"
| "owner_from (f # fs) ns =
     (let i = indexOf f CHR ''/'' in if i > 0 then take (nat i) f else owner_from fs ns)"

definition discoveryOwner :: "RenovateRun \<Rightarrow> string" where
  "discoveryOwner run =
     owner_from (ds_filter (ss_discovery (rs_scanSnapshot (run_spec run)))) (run_namespace run)"

definition discoveryFilter :: "RenovateRun \<Rightarrow> DiscoveryFilter" where
  "discoveryFilter run =
     (let d = ss_discovery (rs_scanSnapshot (run_spec run)) in
      \<lparr>df_patterns = ds_filter d, df_topics = ds_topics d, df_skipForks = SkipForksEnabled d,
       df_skipArchived = SkipArchivedEnabled d, df_owner = discoveryOwner run\<rparr>)"

fun probeRepos ::
  "'n PlatformClient \<Rightarrow> PlatformRepository list \<Rightarrow> PlatformRepository list \<Rightarrow> 'n
   \<Rightarrow> PlatformRepository list res \<times> 'n" where
  "probeRepos plat out [] n = (Inr out, n)"
| "probeRepos plat out (repo # rest) n =
     (case pc_HasRenovateConfig plat repo n of
        (Inl e, n1) \<Rightarrow> (Inl e, n1)
      | (Inr ok, n1) \<Rightarrow> probeRepos plat (if ok then out @ [repo] else out) rest n1)"

definition discoverRepos ::
  "'n PlatformClient \<Rightarrow> RenovateRun \<Rightarrow> ('s, 'n) world
   \<Rightarrow> (PlatformRepository list res \<times> ('s, 'n) world) option" where
  "discoverRepos plat run w =
     (case pc_Discover plat (discoveryFilter run) (w_net w) of
        None \<Rightarrow> None
      | Some (Inl e, n1) \<Rightarrow> Some (Inl e, w\<lparr>w_net := n1\<rparr>)
      | Some (Inr all, n1) \<Rightarrow>
          if \<not> RequireConfigEnabled (ss_discovery (rs_scanSnapshot (run_spec run)))
          then Some (Inr all, w\<lparr>w_net := n1\<rparr>)
          else (case probeRepos plat [] all n1 of (r, n2) \<Rightarrow> Some (r, w\<lparr>w_net := n2\<rparr>)))"

section \<open>Shards and Job\<close>

definition runBounds :: "RenovateRun \<Rightarrow> WorkerBounds" where
  "runBounds run =
     (let ws = ss_workers (rs_scanSnapshot (run_spec run)) in
      \<lparr>MinWorkers = (if ws_minWorkers ws = 0 then 1 else ws_minWorkers ws),
       MaxWorkers = (if ws_maxWorkers ws = 0 then 10 else ws_maxWorkers ws),
       ReposPerWorker = (if ws_reposPerWorker ws = 0 then 50 else ws_reposPerWorker ws)\<rparr>)"

definition ownerRefForRun :: "RenovateRun \<Rightarrow> OwnerReference" where
  "ownerRefForRun run = \<lparr>ow_apiVersion = GroupVersion, ow_kind = ''RenovateRun'', ow_name = run_name run,
     ow_uid = m_uid (run_meta run), ow_controller = Some True, ow_blockOwnerDeletion = Some True\<rparr>"

definition shardConfigMap :: "RenovateRun \<Rightarrow> (string \<times> string) list \<Rightarrow> ConfigMap" where
  "shardConfigMap run data =
     \<lparr>cm_meta = empty_meta\<lparr>m_name := run_name run @ ''-shards'', m_namespace := run_namespace run,
        m_labels := WorkerLabels run, m_ownerReferences := [ownerRefForRun run]\<rparr>,
      cm_data = data\<rparr>"

definition ensureShardConfigMap ::
  "('s, 'n) RenovateRunReconciler \<Rightarrow> RenovateRun \<Rightarrow> PlatformRepository list \<Rightarrow> ('s, 'n) world
   \<Rightarrow> (ConfigMap \<times> int32) res \<times> ('s, 'n) world" where
  "ensureShardConfigMap R run repos w =
     (case Build (rn_gzip R) (map (\<lambda>r. Repository (pr_slug r)) repos) (runBounds run) of
        Inl e \<Rightarrow> (Inl (wrapf ''shard build: '' e), w)
      | Inr result \<Rightarrow>
          (let cm = shardConfigMap run (Data result) in
           case Get_ConfigMap (rn_Client R) (m_namespace (cm_meta cm)) (m_name (cm_meta cm)) (w_cluster w) of
             Inl e \<Rightarrow>
               if IsNotFound e then
                 (case on_cluster (Create_ConfigMap (rn_Client R) cm) w of
                    (Inl ce, w1) \<Rightarrow> (Inl (wrapf ''create shard CM: '' ce), w1)
                  | (Inr cm', w1) \<Rightarrow> (Inr (cm', ActualWorkers result), w1))
               else (Inl (wrapf ''get shard CM: '' e), w)
           | Inr existing \<Rightarrow> (Inr (existing, ActualWorkers result), w)))"

definition ensureWorkerJob ::
  "('s, 'n) RenovateRunReconciler \<Rightarrow> RenovateRun \<Rightarrow> Secret \<Rightarrow> ConfigMap \<Rightarrow> int32 \<Rightarrow> ('s, 'n) world
   \<Rightarrow> Job res \<times> ('s, 'n) world" where
  "ensureWorkerJob R run mirrored cm actualWorkers w =
     (let cred = \<lparr>SecretName = m_name (sec_meta mirrored), TokenKey = MirrorAccessTokenKey\<rparr> in
      case BuildWorkerJob (rn_unmarshal R)
             \<lparr>bi_Run = Some run, bi_ShardConfigMap = Some cm, bi_ActualWorkers = actualWorkers,
              bi_Credential = cred\<rparr> of
        Inl e \<Rightarrow> (Inl e, w)
      | Inr job \<Rightarrow>
          (case Get_Job (rn_Client R) (m_namespace (job_meta job)) (m_name (job_meta job)) (w_cluster w) of
             Inl e \<Rightarrow>
               if IsNotFound e then
                 (case on_cluster (Create_Job (rn_Client R) job) w of
                    (Inl ce, w1) \<Rightarrow> (Inl (wrapf ''create worker Job: '' ce), w1)
                  | (Inr job', w1) \<Rightarrow> (Inr job', w1))
               else (Inl (wrapf ''get worker Job: '' e), w)
           | Inr existing \<Rightarrow> (Inr existing, w)))"

section \<open>Pending and Discovering\<close>

text \<open>The head: start time, the Started condition, the phase.\<close>

definition admitRun ::
  "('s, 'n) RenovateRunReconciler \<Rightarrow> RenovateRun \<Rightarrow> ('s, 'n) world \<Rightarrow> RenovateRun \<times> ('s, 'n) world" where
  "admitRun R run w =
     (let (now, w1) = read_clock (rn_Clock R) w;
          run1 = (if rst_startTime (run_status run) = None
                  then on_status (\<lambda>st. st\<lparr>rst_startTime := Some now\<rparr>) run else run);
          (run2, w2) = run_mark_true R TypeStarted ReasonAdmitted ''run admitted by controller'' run1 w1
      in (on_status (\<lambda>st. st\<lparr>rst_phase := RunPhaseDiscovering\<rparr>) run2, w2))"

text \<open>The move to Running, once the Job exists.\<close>

definition discoveredMessage :: "nat \<Rightarrow> int32 \<Rightarrow> string" where
  "discoveredMessage repoCount actualWorkers =
     ''discovered '' @ itoa_nat repoCount @ '' repos across '' @ itoa (sint actualWorkers) @ '' workers''"

definition startRun ::
  "('s, 'n) RenovateRunReconciler \<Rightarrow> nat \<Rightarrow> int32 \<Rightarrow> Job \<Rightarrow> RenovateRun \<Rightarrow> ('s, 'n) world \<Rightarrow> ('s, 'n) run_step" where
  "startRun R repoCount actualWorkers job run w =
     (let run2 = on_status (\<lambda>st. st\<lparr>rst_workerJobRef := Some \<lparr>or_apiVersion = ''batch/v1'',
                   or_kind = ''Job'', or_name = m_name (job_meta job),
                   or_namespace = m_namespace (job_meta job), or_uid = m_uid (job_meta job)\<rparr>\<rparr>) run;
          (run3, w1) =
            (if rst_discoveryCompletionTime (run_status run2) = None
             then (let (t, w') = read_clock (rn_Clock R) w
                   in (on_status (\<lambda>st. st\<lparr>rst_discoveryCompletionTime := Some t\<rparr>) run2, w'))
             else (run2, w));
          (run4, w2) =
            (if rst_workersStartTime (run_status run3) = None
             then (let (t, w') = read_clock (rn_Clock R) w1
                   in (on_status (\<lambda>st. st\<lparr>rst_workersStartTime := Some t\<rparr>) run3, w'))
             else (run3, w1));
          (run5, w3) = run_mark_true R TypeDiscovered ReasonDiscoveryComplete
            (discoveredMessage repoCount actualWorkers) run4 w2
      in ((noRequeue, None), on_status (\<lambda>st. st\<lparr>rst_phase := RunPhaseRunning\<rparr>) run5, w3))"

definition dispatchRun ::
  "('s, 'n) RenovateRunReconciler \<Rightarrow> Secret \<Rightarrow> PlatformRepository list \<Rightarrow> RenovateRun \<Rightarrow> ('s, 'n) world
   \<Rightarrow> ('s, 'n) run_step" where
  "dispatchRun R mirrored repos run w =
     (if repos = [] then markFailed R ''no repositories matched discovery filter'' run w
      else (case ensureShardConfigMap R run repos w of
        (Inl e, w1) \<Rightarrow> markTransient R e ReasonReconcileError run w1
      | (Inr (cm, actualWorkers), w1) \<Rightarrow>
        (let (scanLabel, platLabel) = runMetricLabels run;
             w2 = emit (ShardCount scanLabel platLabel actualWorkers) w1;
             run1 = on_status (\<lambda>st. st\<lparr>rst_discoveredRepos := word_of_nat (length repos),
                      rst_actualWorkers := actualWorkers,
                      rst_shardConfigMapRef := Some \<lparr>or_apiVersion = ''v1'', or_kind = ''ConfigMap'',
                        or_name = m_name (cm_meta cm), or_namespace = m_namespace (cm_meta cm),
                        or_uid = m_uid (cm_meta cm)\<rparr>\<rparr>) run
         in case ensureWorkerJob R run1 mirrored cm actualWorkers w2 of
              (Inl e, w3) \<Rightarrow> markTransient R e ReasonReconcileError run1 w3
            | (Inr job, w3) \<Rightarrow> startRun R (length repos) actualWorkers job run1 w3)))"

definition discoverAndDispatch ::
  "('s, 'n) RenovateRunReconciler \<Rightarrow> RenovateRun \<Rightarrow> ('s, 'n) world \<Rightarrow> ('s, 'n) run_step option" where
  "discoverAndDispatch R run0 w0 =
     (case admitRun R run0 w0 of (run, w1) \<Rightarrow>
      (case fetchSourceSecret R run w1 of
         Inl e \<Rightarrow> Some (markTransient R e ReasonReconcileError run w1)
       | Inr source \<Rightarrow>
         (case rn_PlatformClientFactory R (rs_platformSnapshot (run_spec run)) source of
            Inl e \<Rightarrow> Some (markFailed R (''platform client init: '' @ err_msg e) run w1)
          | Inr plat \<Rightarrow>
            (case pc_MintAccessToken plat (w_net w1) of
               (Inl e, n1) \<Rightarrow>
                 Some (markTransient R (wrapf ''mint access token: '' e) ReasonReconcileError run (w1\<lparr>w_net := n1\<rparr>))
             | (Inr (accessToken, _), n1) \<Rightarrow>
               (case mirrorCredential R run accessToken (w1\<lparr>w_net := n1\<rparr>) of
                  (Inl e, w2) \<Rightarrow> Some (markTransient R e ReasonReconcileError run w2)
                | (Inr mirrored, w2) \<Rightarrow>
                  (let (scanLabel, platLabel) = runMetricLabels run;
                       (discoveryStart, w3) = read_clock (rn_Clock R) w2
                   in case discoverRepos plat run w3 of
                        None \<Rightarrow> None
                      | Some (found, w4) \<Rightarrow>
                        (let (discoveryEnd, w5) = read_clock (rn_Clock R) w4;
                             w6 = emit (DiscoveryDurationSeconds scanLabel platLabel
                                          (Sub_time discoveryEnd discoveryStart)) w5
                         in case found of
                              Inl e \<Rightarrow>
                                Some (handleDiscoverErr R e run (emit (DiscoveryErrorsTotal scanLabel platLabel) w6))
                            | Inr repos \<Rightarrow> Some (dispatchRun R mirrored repos run w6))))))))"

section \<open>Running\<close>

fun failedCondition :: "JobCondition list \<Rightarrow> JobCondition option" where
  "failedCondition [] = None"
| "failedCondition (c # cs) =
     (if jc_type c = JobFailed \<and> jc_status c = ConditionTrue then Some c else failedCondition cs)"

definition observeJob ::
  "('s, 'n) RenovateRunReconciler \<Rightarrow> RenovateRun \<Rightarrow> ('s, 'n) world \<Rightarrow> ('s, 'n) run_step" where
  "observeJob R run w =
     (case rst_workerJobRef (run_status run) of
        None \<Rightarrow> markFailed R ''running phase without WorkerJobRef'' run w
      | Some ref \<Rightarrow>
        (case Get_Job (rn_Client R) (or_namespace ref) (or_name ref) (w_cluster w) of
           Inl e \<Rightarrow>
             if IsNotFound e then markFailed R ''worker Job vanished before completion'' run w
             else ((noRequeue, Some (wrapf ''get job: '' e)), run, w)
         | Inr job \<Rightarrow>
           (let run1 = on_status (\<lambda>st. st\<lparr>rst_succeededShards := jst_succeeded (job_status job),
                         rst_failedShards := jst_failed (job_status job)\<rparr>) run;
                completions = (case js_completions (job_spec job) of None \<Rightarrow> 1 | Some n \<Rightarrow> n)
            in if completions \<le>s jst_succeeded (job_status job) then
                 (let (t, w1) = read_clock (rn_Clock R) w;
                      run2 = on_status (\<lambda>st. st\<lparr>rst_completionTime := Some t, rst_phase := RunPhaseSucceeded\<rparr>) run1;
                      (run3, w2) = run_mark_true R TypeSucceeded ReasonJobComplete
                        ''all shards completed successfully'' run2 w1
                  in ((noRequeue, None), run3, recordRunTerminal run3 ResultSucceeded w2))
               else (case failedCondition (jst_conditions (job_status job)) of
                 Some c \<Rightarrow>
                   (let (t, w1) = read_clock (rn_Clock R) w;
                        run2 = on_status (\<lambda>st. st\<lparr>rst_completionTime := Some t, rst_phase := RunPhaseFailed\<rparr>) run1;
                        (run3, w2) = run_mark_true R TypeFailed ReasonJobFailed
                          (''worker Job failed: '' @ jc_message c) run2 w1;
                        (scanLabel, platLabel) = runMetricLabels run3;
                        w3 = (if 0 <s jst_failed (job_status job)
                              then emit (ShardsFailedTotal scanLabel platLabel (jst_failed (job_status job))) w2
                              else w2)
                    in ((noRequeue, None), run3, recordRunTerminal run3 ResultFailed w3))
               | None \<Rightarrow> ((noRequeue, None), run1, w)))))"

section \<open>The state machine\<close>

definition run_reconcile ::
  "('s, 'n) RenovateRunReconciler \<Rightarrow> RenovateRun \<Rightarrow> ('s, 'n) world \<Rightarrow> ('s, 'n) run_step option" where
  "run_reconcile R run0 w =
     (let run1 = on_status (\<lambda>st. st\<lparr>rst_observedGeneration := m_generation (run_meta run0)\<rparr>) run0;
          run = (if run_phase run1 = RunPhaseUnset
                 then on_status (\<lambda>st. st\<lparr>rst_phase := RunPhasePending\<rparr>) run1 else run1)
      in case run_phase run of
           RunPhasePending \<Rightarrow> discoverAndDispatch R run w
         | RunPhaseDiscovering \<Rightarrow> discoverAndDispatch R run w
         | RunPhaseRunning \<Rightarrow> Some (observeJob R run w)
         | RunPhaseSucceeded \<Rightarrow> Some ((noRequeue, None), run, w)
         | RunPhaseFailed \<Rightarrow> Some ((noRequeue, None), run, w)
         | _ \<Rightarrow> Some ((noRequeue, Some (errors_New (''unknown phase '' @ go_quote (phase_string (run_phase run))))),
                      run, w))"

definition run_Reconcile ::
  "('s, 'n) RenovateRunReconciler \<Rightarrow> string \<Rightarrow> string \<Rightarrow> ('s, 'n) world
   \<Rightarrow> (outcome \<times> ('s, 'n) world) option" where
  "run_Reconcile R ns name w =
     (case Get_Run (rn_Client R) ns name (w_cluster w) of
        Inl e \<Rightarrow> Some ((noRequeue, IgnoreNotFound e), w)
      | Inr run \<Rightarrow>
        (case run_reconcile R run w of
           None \<Rightarrow> None
         | Some ((result, err), run', w1) \<Rightarrow>
           (case on_cluster (StatusUpdate_Run (rn_Client R) run') w1 of
              (None, w2) \<Rightarrow> Some ((result, err), w2)
            | (Some ue, w2) \<Rightarrow>
                if IsConflict ue then Some ((requeue_in requeueAfterStatusConflict, None), w2)
                else Some ((result, if err = None then Some ue else err), w2))))"

interpretation run_shell: reconcile_shell
  "\<lambda>w. Get_Run (rn_Client R) ns name (w_cluster w)" "run_reconcile R"
  "\<lambda>run. on_cluster (StatusUpdate_Run (rn_Client R) run)" "run_Reconcile R ns name"
  for R :: "('s, 'n) RenovateRunReconciler" and ns name
  by unfold_locales (simp add: run_Reconcile_def split: sum.split option.split prod.split)

end
