(* ===== verification/RunInvariant.thy ===== *)
theory RunInvariant
  imports RunReconciler
begin

text \<open>
  The status invariant of a Run and its preservation: one lemma per handler of the Run controller,
  combined into the step \<^const>\<open>run_reconcile\<close>, and the controller as a transition system.
\<close>

section \<open>Frame of a step\<close>

definition isTerminalPhase :: "RunPhase \<Rightarrow> bool" where
  "isTerminalPhase p = (p = RunPhaseSucceeded \<or> p = RunPhaseFailed)"

lemma isTerminalPhase_simps [simp]:
  "isTerminalPhase RunPhaseSucceeded" "isTerminalPhase RunPhaseFailed"
  "\<not> isTerminalPhase RunPhaseUnset" "\<not> isTerminalPhase RunPhasePending"
  "\<not> isTerminalPhase RunPhaseDiscovering" "\<not> isTerminalPhase RunPhaseRunning"
  "\<not> isTerminalPhase (OtherRunPhase s)"
  by (simp_all add: isTerminalPhase_def)

text \<open>
  What a step did to the Run, in the terms of the state machine: identity and specification are
  kept; the phase and the completion time are one of the listed results.
\<close>

definition same_object :: "RenovateRun \<Rightarrow> RenovateRun \<Rightarrow> bool" where
  "same_object run run' = (run_meta run' = run_meta run \<and> run_spec run' = run_spec run)"

lemma run_mark_eq:
  "run_mark_true R ty rs ms run w =
     (on_status (\<lambda>st. st\<lparr>rst_conditions := mark_true (rn_meta R) (rn_metaNow R (w_ticks w)) (rst_conditions st)
        ty rs ms (m_generation (run_meta run))\<rparr>) run, w\<lparr>w_ticks := Suc (w_ticks w)\<rparr>)"
  "run_mark_false R ty rs ms run w =
     (on_status (\<lambda>st. st\<lparr>rst_conditions := mark_false (rn_meta R) (rn_metaNow R (w_ticks w)) (rst_conditions st)
        ty rs ms (m_generation (run_meta run))\<rparr>) run, w\<lparr>w_ticks := Suc (w_ticks w)\<rparr>)"
  by (simp_all add: run_mark_true_def run_mark_false_def read_clock_def)

text \<open>Handlers that write nothing to the cluster.\<close>

lemma step_clusters:
  "markFailed R msg run w = (oc, run', w') \<Longrightarrow> w_cluster w' = w_cluster w"
  "markTransient R e rs run w = (oc, run', w') \<Longrightarrow> w_cluster w' = w_cluster w"
  "startRun R n k job run w = (oc, run', w') \<Longrightarrow> w_cluster w' = w_cluster w"
  "admitRun R run w = (run', w') \<Longrightarrow> w_cluster w' = w_cluster w"
  "handleDiscoverErr R e run w = (oc, run', w') \<Longrightarrow> w_cluster w' = w_cluster w"
  "observeJob R run w = (oc, run', w') \<Longrightarrow> w_cluster w' = w_cluster w"
  "discoverRepos plat run w = Some (x, w') \<Longrightarrow> w_cluster w' = w_cluster w"
  by (auto simp: markFailed_def markTransient_def startRun_def admitRun_def handleDiscoverErr_def observeJob_def
      discoverRepos_def recordRunTerminal_def run_mark_eq read_clock_def Let_def
      split: if_splits prod.splits option.splits sum.splits)

lemma markFailed_run:
  assumes "markFailed R msg run w = (oc, run', w')"
  shows "same_object run run'" and "run_phase run' = RunPhaseFailed"
    and "rst_completionTime (run_status run') \<noteq> None" and "oc = (noRequeue, None)"
    and "rst_conditions (run_status run') = mark_true (rn_meta R) (rn_metaNow R (Suc (w_ticks w)))
      (rst_conditions (run_status run)) TypeFailed ReasonDiscoveryFailed msg (m_generation (run_meta run))"
  using assms by (auto simp: markFailed_def run_mark_eq read_clock_def same_object_def Let_def)

lemma markTransient_run:
  assumes "markTransient R e reason run w = (oc, run', w')"
  shows "same_object run run'" and "run_phase run' = run_phase run"
    and "rst_completionTime (run_status run') = rst_completionTime (run_status run)"
    and "oc = (requeue_in requeueAfterRunTransient, None)"
    and "rst_conditions (run_status run') = mark_false (rn_meta R) (rn_metaNow R (w_ticks w))
      (rst_conditions (run_status run)) TypeStarted reason (err_msg e) (m_generation (run_meta run))"
    and "rst_startTime (run_status run') = rst_startTime (run_status run)"
  using assms by (auto simp: markTransient_def run_mark_eq same_object_def)

lemma admitRun_run:
  assumes "admitRun R run w = (run', w')"
  shows "same_object run run'" and "run_phase run' = RunPhaseDiscovering"
    and "rst_completionTime (run_status run') = rst_completionTime (run_status run)"
    and "rst_startTime (run_status run') \<noteq> None"
    and "\<exists>t. rst_conditions (run_status run') = mark_true (rn_meta R) (rn_metaNow R t)
      (rst_conditions (run_status run)) TypeStarted ReasonAdmitted ''run admitted by controller'' (m_generation (run_meta run))"
  using assms by (auto simp: admitRun_def run_mark_eq read_clock_def same_object_def Let_def split: if_splits)

section \<open>The status invariant\<close>

abbreviation run_conditions :: "RenovateRun \<Rightarrow> Condition list" where
  "run_conditions run \<equiv> rst_conditions (run_status run)"

definition run_wf :: "meta_api \<Rightarrow> RenovateRun \<Rightarrow> bool" where
  "run_wf M run =
     (let st = run_status run; p = rst_phase st in
      (isTerminalPhase p \<longleftrightarrow> rst_completionTime st \<noteq> None) \<and>
      (p = RunPhaseRunning \<longrightarrow>
         rst_workerJobRef st \<noteq> None \<and> rst_shardConfigMapRef st \<noteq> None \<and>
         rst_discoveryCompletionTime st \<noteq> None \<and> rst_workersStartTime st \<noteq> None \<and>
         1 \<le> sint (rst_actualWorkers st)) \<and>
      (p \<in> {RunPhaseDiscovering, RunPhaseRunning, RunPhaseSucceeded, RunPhaseFailed} \<longrightarrow>
         rst_startTime st \<noteq> None) \<and>
      (IsTrue M (rst_conditions st) TypeSucceeded \<longleftrightarrow> p = RunPhaseSucceeded) \<and>
      (IsTrue M (rst_conditions st) TypeFailed \<longleftrightarrow> p = RunPhaseFailed) \<and>
      (\<forall>s. p \<noteq> OtherRunPhase s))"

text \<open>A Run that has started and not ended.\<close>

definition run_open :: "meta_api \<Rightarrow> RenovateRun \<Rightarrow> bool" where
  "run_open M run =
     (rst_completionTime (run_status run) = None \<and> rst_startTime (run_status run) \<noteq> None \<and>
      \<not> IsTrue M (run_conditions run) TypeSucceeded \<and> \<not> IsTrue M (run_conditions run) TypeFailed)"

text \<open>The reconciler's libraries: the documented condition helpers and a clock that is set.\<close>

definition sound_libs :: "('s, 'n) RenovateRunReconciler \<Rightarrow> bool" where
  "sound_libs R = (meta_conditions (rn_meta R) \<and> (\<forall>t. \<not> IsZero (rn_metaNow R t)))"

lemma run_marks:
  assumes "sound_libs R"
  shows "IsTrue (rn_meta R) (mark_true (rn_meta R) (rn_metaNow R t) cs ty rs ms g) ty'
      \<longleftrightarrow> ty' = ty \<or> IsTrue (rn_meta R) cs ty'"
    and "IsTrue (rn_meta R) (mark_false (rn_meta R) (rn_metaNow R t) cs ty rs ms g) ty'
      \<longleftrightarrow> ty' \<noteq> ty \<and> IsTrue (rn_meta R) cs ty'"
proof -
  have M: "meta_conditions (rn_meta R)" and nz: "\<not> IsZero (rn_metaNow R t)"
    using assms by (simp_all add: sound_libs_def)
  note marks = meta_conditions.cond_marks [OF M nz]
  show "IsTrue (rn_meta R) (mark_true (rn_meta R) (rn_metaNow R t) cs ty rs ms g) ty'
      \<longleftrightarrow> ty' = ty \<or> IsTrue (rn_meta R) cs ty'" by (rule marks(1))
  show "IsTrue (rn_meta R) (mark_false (rn_meta R) (rn_metaNow R t) cs ty rs ms g) ty'
      \<longleftrightarrow> ty' \<noteq> ty \<and> IsTrue (rn_meta R) cs ty'" by (rule marks(2))
qed

lemma admitRun_open:
  assumes "sound_libs R" and "run_wf (rn_meta R) run"
    and "run_phase run \<in> {RunPhaseUnset, RunPhasePending, RunPhaseDiscovering}"
    and "admitRun R run w = (run', w')"
  shows "run_open (rn_meta R) run'"
proof -
  obtain t where "run_conditions run' = mark_true (rn_meta R) (rn_metaNow R t) (run_conditions run)
      TypeStarted ReasonAdmitted ''run admitted by controller'' (m_generation (run_meta run))"
    using admitRun_run(5) [OF assms(4)] by blast
  moreover have "rst_completionTime (run_status run) = None"
      "\<not> IsTrue (rn_meta R) (run_conditions run) TypeSucceeded" "\<not> IsTrue (rn_meta R) (run_conditions run) TypeFailed"
    using assms(2,3) by (auto simp: run_wf_def Let_def)
  ultimately show ?thesis
    using admitRun_run(3,4) [OF assms(4)] by (simp add: run_open_def run_marks [OF assms(1)])
qed

lemma markFailed_wf:
  assumes "sound_libs R" and "run_open (rn_meta R) run" and "markFailed R msg run w = (oc, run', w')"
  shows "run_wf (rn_meta R) run'"
proof -
  have "rst_startTime (run_status run') = rst_startTime (run_status run)"
    using assms(3) by (auto simp: markFailed_def run_mark_eq read_clock_def Let_def)
  with assms(2) show ?thesis
    using markFailed_run [OF assms(3)]
    by (simp add: run_wf_def run_open_def Let_def run_marks [OF assms(1)])
qed

lemma markTransient_wf:
  assumes "sound_libs R" and "run_open (rn_meta R) run" and "run_phase run = RunPhaseDiscovering"
    and "markTransient R e reason run w = (oc, run', w')"
  shows "run_wf (rn_meta R) run'"
  using assms(2,3) markTransient_run [OF assms(4)]
  by (simp add: run_wf_def run_open_def Let_def run_marks [OF assms(1)])

lemma ensureShardConfigMap_workers:
  assumes "ensureShardConfigMap R run repos w = (Inr (cm, k), w')"
  shows "1 \<le> sint k"
proof -
  from assms obtain res where b: "Build (rn_gzip R) (map (\<lambda>r. Repository (pr_slug r)) repos) (runBounds run) = Inr res"
      and k: "k = ActualWorkers res"
    by (auto simp: ensureShardConfigMap_def Let_def split: sum.splits if_splits prod.splits)
  show ?thesis using Build_Inr(2,3) [OF b] by (simp add: k computeActualWorkers_pos)
qed

lemma startRun_run:
  assumes "startRun R n k job run w = (oc, run', w')"
  shows "oc = (noRequeue, None)" and "same_object run run'" and "run_phase run' = RunPhaseRunning"
    and "rst_workerJobRef (run_status run') \<noteq> None"
    and "rst_shardConfigMapRef (run_status run') = rst_shardConfigMapRef (run_status run)"
    and "rst_discoveryCompletionTime (run_status run') \<noteq> None"
    and "rst_workersStartTime (run_status run') \<noteq> None"
    and "rst_actualWorkers (run_status run') = rst_actualWorkers (run_status run)"
    and "rst_startTime (run_status run') = rst_startTime (run_status run)"
    and "rst_completionTime (run_status run') = rst_completionTime (run_status run)"
    and "\<exists>t. run_conditions run' = mark_true (rn_meta R) (rn_metaNow R t) (run_conditions run) TypeDiscovered
         ReasonDiscoveryComplete (discoveredMessage n k) (m_generation (run_meta run))"
  using assms
  by (auto simp: startRun_def run_mark_eq read_clock_def same_object_def Let_def split: if_splits)

text \<open>
  The path of \<^const>\<open>dispatchRun\<close>: the shard ConfigMap, then the Job, then Running. The Run that goes to the Job
  notes the shards in its status.
\<close>

definition shards_noted :: "nat \<Rightarrow> ConfigMap \<Rightarrow> int32 \<Rightarrow> RenovateRun \<Rightarrow> RenovateRun" where
  "shards_noted n cm k = on_status (\<lambda>st. st\<lparr>rst_discoveredRepos := word_of_nat n, rst_actualWorkers := k,
     rst_shardConfigMapRef := Some \<lparr>or_apiVersion = ''v1'', or_kind = ''ConfigMap'', or_name = m_name (cm_meta cm),
       or_namespace = m_namespace (cm_meta cm), or_uid = m_uid (cm_meta cm)\<rparr>\<rparr>)"

lemma shards_noted_simps [simp]:
  "run_meta (shards_noted n cm k run) = run_meta run" "run_spec (shards_noted n cm k run) = run_spec run"
  "run_apiVersion (shards_noted n cm k run) = run_apiVersion run" "run_kind (shards_noted n cm k run) = run_kind run"
  "run_conditions (shards_noted n cm k run) = run_conditions run" "run_phase (shards_noted n cm k run) = run_phase run"
  "rst_startTime (run_status (shards_noted n cm k run)) = rst_startTime (run_status run)"
  "rst_completionTime (run_status (shards_noted n cm k run)) = rst_completionTime (run_status run)"
  "rst_actualWorkers (run_status (shards_noted n cm k run)) = k"
  "rst_shardConfigMapRef (run_status (shards_noted n cm k run)) = Some \<lparr>or_apiVersion = ''v1'', or_kind = ''ConfigMap'',
     or_name = m_name (cm_meta cm), or_namespace = m_namespace (cm_meta cm), or_uid = m_uid (cm_meta cm)\<rparr>"
  by (simp_all add: shards_noted_def)

lemma shards_noted_same [simp]:
  "same_object run (shards_noted n cm k run)" "same_object (shards_noted n cm k run) run' \<longleftrightarrow> same_object run run'"
  by (simp_all add: same_object_def)

definition sharded :: "RenovateRun \<Rightarrow> int32 \<Rightarrow> ('s, 'n) world \<Rightarrow> ('s, 'n) world" where
  "sharded run k w = (case runMetricLabels run of (scanLabel, platLabel) \<Rightarrow> emit (ShardCount scanLabel platLabel k) w)"

lemma sharded_cluster [simp]: "w_cluster (sharded run k w) = w_cluster w"
  by (simp add: sharded_def split: prod.split)

lemma dispatchRun_eq:
  "dispatchRun R m repos run w =
     (if repos = [] then markFailed R ''no repositories matched discovery filter'' run w
      else case ensureShardConfigMap R run repos w of
        (Inl e, w1) \<Rightarrow> markTransient R e ReasonReconcileError run w1
      | (Inr (cm, k), w1) \<Rightarrow>
        (case ensureWorkerJob R (shards_noted (length repos) cm k run) m cm k (sharded run k w1) of
           (Inl e, w3) \<Rightarrow> markTransient R e ReasonReconcileError (shards_noted (length repos) cm k run) w3
         | (Inr job, w3) \<Rightarrow> startRun R (length repos) k job (shards_noted (length repos) cm k run) w3))"
  by (simp add: dispatchRun_def shards_noted_def sharded_def Let_def split: prod.split sum.split)

lemma dispatchRun_path:
  assumes "dispatchRun R m repos run w = step"
  obtains (nothing) "markFailed R ''no repositories matched discovery filter'' run w = step"
  | (no_shards) e w1 where "ensureShardConfigMap R run repos w = (Inl e, w1)"
      "markTransient R e ReasonReconcileError run w1 = step"
  | (no_job) cm k w1 e w3 where "ensureShardConfigMap R run repos w = (Inr (cm, k), w1)"
      "ensureWorkerJob R (shards_noted (length repos) cm k run) m cm k (sharded run k w1) = (Inl e, w3)"
      "markTransient R e ReasonReconcileError (shards_noted (length repos) cm k run) w3 = step"
  | (started) cm k w1 job w3 where "ensureShardConfigMap R run repos w = (Inr (cm, k), w1)"
      "ensureWorkerJob R (shards_noted (length repos) cm k run) m cm k (sharded run k w1) = (Inr job, w3)"
      "startRun R (length repos) k job (shards_noted (length repos) cm k run) w3 = step"
proof (cases "repos = []")
  case True
  show ?thesis by (rule nothing) (use assms True in \<open>simp add: dispatchRun_eq\<close>)
next
  case ne: False
  obtain c w1 where sh: "ensureShardConfigMap R run repos w = (c, w1)" by fastforce
  show ?thesis
  proof (cases c)
    case (Inl e)
    show ?thesis by (rule no_shards [of e w1]) (use ne sh assms Inl in \<open>simp_all add: dispatchRun_eq\<close>)
  next
    case (Inr ck)
    obtain cm k where ck: "ck = (cm, k)" by (cases ck)
    obtain j w3 where j: "ensureWorkerJob R (shards_noted (length repos) cm k run) m cm k (sharded run k w1) = (j, w3)"
      by fastforce
    with ne sh Inr ck assms have "(case j of
        Inl e \<Rightarrow> markTransient R e ReasonReconcileError (shards_noted (length repos) cm k run) w3
      | Inr job \<Rightarrow> startRun R (length repos) k job (shards_noted (length repos) cm k run) w3) = step"
      by (simp add: dispatchRun_eq split: sum.splits)
    with sh Inr ck j no_job started show ?thesis by (cases j) auto
  qed
qed

text \<open>How it can end.\<close>

lemma dispatchRun_cases:
  assumes "dispatchRun R mirrored repos run w = (oc, run', w')"
  obtains (failed) msg w1 where "markFailed R msg run w1 = (oc, run', w')"
  | (shardless) e w1 where "markTransient R e ReasonReconcileError run w1 = (oc, run', w')"
  | (jobless) e run1 w1 where "markTransient R e ReasonReconcileError run1 w1 = (oc, run', w')"
      "same_object run run1" "run_conditions run1 = run_conditions run" "run_phase run1 = run_phase run"
      "rst_startTime (run_status run1) = rst_startTime (run_status run)"
      "rst_completionTime (run_status run1) = rst_completionTime (run_status run)"
  | (running) ms t where "oc = (noRequeue, None)" "same_object run run'" "run_phase run' = RunPhaseRunning"
      "rst_workerJobRef (run_status run') \<noteq> None" "rst_shardConfigMapRef (run_status run') \<noteq> None"
      "rst_discoveryCompletionTime (run_status run') \<noteq> None"
      "rst_workersStartTime (run_status run') \<noteq> None" "1 \<le> sint (rst_actualWorkers (run_status run'))"
      "rst_startTime (run_status run') = rst_startTime (run_status run)"
      "rst_completionTime (run_status run') = rst_completionTime (run_status run)"
      "run_conditions run' = mark_true (rn_meta R) (rn_metaNow R t) (run_conditions run) TypeDiscovered
         ReasonDiscoveryComplete ms (m_generation (run_meta run))"
  using assms
proof (cases rule: dispatchRun_path)
  case nothing
  then show ?thesis by (rule failed)
next
  case (no_shards e w1)
  from no_shards(2) show ?thesis by (rule shardless)
next
  case (no_job cm k w1 e w3)
  from no_job(3) show ?thesis by (rule jobless) simp_all
next
  case (started cm k w1 job w3)
  from startRun_run(11) [OF started(3)] obtain t where
    "run_conditions run' = mark_true (rn_meta R) (rn_metaNow R t) (run_conditions run) TypeDiscovered
      ReasonDiscoveryComplete (discoveredMessage (length repos) k) (m_generation (run_meta run))" by auto
  with startRun_run(1-10) [OF started(3)] ensureShardConfigMap_workers [OF started(1)] show ?thesis
    by (intro running [of t "discoveredMessage (length repos) k"]) simp_all
qed

text \<open>The three ways a discovering step ends, from the admitted Run.\<close>

inductive discovery_end :: "('s, 'n) RenovateRunReconciler \<Rightarrow> RenovateRun \<Rightarrow> ('s, 'n) run_step \<Rightarrow> bool"
  for R run where
  retry: "reason \<in> {ReasonReconcileError, ReasonDiscoveryFailed} \<Longrightarrow> discovery_end R run (markTransient R e reason run w)"
| give_up: "discovery_end R run (markFailed R msg run w)"
| dispatch: "discovery_end R run (dispatchRun R mirrored repos run w)"

lemma discoverAndDispatch_end:
  assumes "discoverAndDispatch R run0 w0 = Some step"
  shows "discovery_end R (fst (admitRun R run0 w0)) step"
proof -
  obtain run w1 where adm: "admitRun R run0 w0 = (run, w1)" by fastforce
  show ?thesis
  proof (cases "fetchSourceSecret R run w1")
    case (Inl e)
    with assms adm show ?thesis by (auto simp: discoverAndDispatch_def intro: discovery_end.intros)
  next
    case src: (Inr source)
    show ?thesis
    proof (cases "rn_PlatformClientFactory R (rs_platformSnapshot (run_spec run)) source")
      case (Inl e)
      with assms adm src show ?thesis by (auto simp: discoverAndDispatch_def intro: discovery_end.intros)
    next
      case plat: (Inr plat)
      show ?thesis
      proof (cases "pc_MintAccessToken plat (w_net w1)")
        case mint: (Pair r n1)
        show ?thesis
        proof (cases r)
          case (Inl e)
          with assms adm src plat mint show ?thesis by (auto simp: discoverAndDispatch_def intro: discovery_end.intros)
        next
          case r: (Inr te)
          obtain tok ex where te: "te = (tok, ex)" by (cases te)
          obtain m w2 where mir: "mirrorCredential R run tok (w1\<lparr>w_net := n1\<rparr>) = (m, w2)" by fastforce
          show ?thesis
          proof (cases m)
            case (Inl e)
            with assms adm src plat mint r te mir show ?thesis by (auto simp: discoverAndDispatch_def intro: discovery_end.intros)
          next
            case (Inr mirrored)
            with assms adm src plat mint r te mir show ?thesis
              by (auto simp: discoverAndDispatch_def handleDiscoverErr_def Let_def read_clock_def
                  intro: discovery_end.intros split: prod.splits option.splits sum.splits if_splits)
          qed
        qed
      qed
    qed
  qed
qed

lemma dispatchRun_same: "dispatchRun R mirrored repos run w = (oc, run', w') \<Longrightarrow> same_object run run'"
  by (erule dispatchRun_cases) (auto dest: markFailed_run(1) markTransient_run(1) simp: same_object_def)

lemma dispatchRun_wf:
  assumes "sound_libs R" and "run_open (rn_meta R) run" and "run_phase run = RunPhaseDiscovering"
    and "dispatchRun R mirrored repos run w = (oc, run', w')"
  shows "run_wf (rn_meta R) run'"
  using assms(4)
proof (cases rule: dispatchRun_cases)
  case (failed msg w1)
  then show ?thesis using markFailed_wf [OF assms(1,2)] by blast
next
  case (shardless e w1)
  then show ?thesis using markTransient_wf [OF assms(1,2,3)] by blast
next
  case (jobless e run1 w1)
  have "run_open (rn_meta R) run1" "run_phase run1 = RunPhaseDiscovering"
    using assms(2,3) jobless by (simp_all add: run_open_def)
  then show ?thesis using markTransient_wf [OF assms(1)] jobless(1) by blast
next
  case (running ms t)
  then show ?thesis using assms(2) by (simp add: run_wf_def run_open_def Let_def run_marks [OF assms(1)])
qed

lemma discoverAndDispatch_wf:
  assumes "sound_libs R" and "run_wf (rn_meta R) run0"
    and "run_phase run0 \<in> {RunPhaseUnset, RunPhasePending, RunPhaseDiscovering}"
    and "discoverAndDispatch R run0 w0 = Some (oc, run', w')"
  shows "run_wf (rn_meta R) run' \<and> same_object run0 run' \<and>
    run_phase run' \<in> {RunPhaseDiscovering, RunPhaseRunning, RunPhaseFailed}"
proof -
  obtain run w1 where adm: "admitRun R run0 w0 = (run, w1)" by fastforce
  have op: "run_open (rn_meta R) run" by (rule admitRun_open [OF assms(1,2,3) adm])
  have ph: "run_phase run = RunPhaseDiscovering" and so: "same_object run0 run"
    using admitRun_run(1,2) [OF adm] by simp_all
  from discoverAndDispatch_end [OF assms(4)] adm have "discovery_end R run (oc, run', w')" by simp
  then consider (tr) e reason w where "markTransient R e reason run w = (oc, run', w')"
    | (fl) msg w where "markFailed R msg run w = (oc, run', w')"
    | (di) mirrored repos w where "dispatchRun R mirrored repos run w = (oc, run', w')"
    by (cases rule: discovery_end.cases) auto
  then show ?thesis
  proof cases
    case tr
    with markTransient_run(1,2) [OF tr] markTransient_wf [OF assms(1) op ph tr] ph so show ?thesis
      by (simp add: same_object_def)
  next
    case fl
    with markFailed_run(1,2) [OF fl] markFailed_wf [OF assms(1) op fl] so show ?thesis
      by (simp add: same_object_def)
  next
    case di
    have "run_phase run' \<in> {RunPhaseDiscovering, RunPhaseRunning, RunPhaseFailed}"
      using di by (cases rule: dispatchRun_cases) (auto dest: markFailed_run(2) markTransient_run(2) simp: ph)
    with dispatchRun_same [OF di] dispatchRun_wf [OF assms(1) op ph di] so show ?thesis
      by (simp add: same_object_def)
  qed
qed

lemma observeJob_wf:
  assumes "sound_libs R" and "run_wf (rn_meta R) run" and "run_phase run = RunPhaseRunning"
    and "observeJob R run w = (oc, run', w')"
  shows "run_wf (rn_meta R) run' \<and> same_object run run' \<and>
    run_phase run' \<in> {RunPhaseRunning, RunPhaseSucceeded, RunPhaseFailed}"
proof -
  have op: "run_open (rn_meta R) run" using assms(2,3) by (simp add: run_wf_def run_open_def Let_def)
  from assms(2,3) obtain ref where ref: "rst_workerJobRef (run_status run) = Some ref"
    by (auto simp: run_wf_def Let_def)
  show ?thesis
  proof (cases "Get_Job (rn_Client R) (or_namespace ref) (or_name ref) (w_cluster w)")
    case (Inl e)
    show ?thesis
    proof (cases "IsNotFound e")
      case True
      with assms(4) ref Inl have mf: "markFailed R ''worker Job vanished before completion'' run w = (oc, run', w')"
        by (simp add: observeJob_def)
      with markFailed_run(1,2) [OF mf] markFailed_wf [OF assms(1) op mf] show ?thesis by simp
    next
      case False
      with assms(2,3,4) ref Inl show ?thesis by (simp add: observeJob_def same_object_def)
    qed
  next
    case (Inr job)
    with assms(2,3,4) ref show ?thesis
      by (auto simp: observeJob_def run_wf_def same_object_def Let_def read_clock_def run_mark_eq
          run_marks [OF assms(1)] split: if_splits option.splits prod.splits)
  qed
qed

section \<open>The state machine\<close>

text \<open>The moves of the documented state machine.\<close>

fun phase_edge :: "RunPhase \<Rightarrow> RunPhase \<Rightarrow> bool" where
  "phase_edge RunPhaseUnset q = (q \<in> {RunPhaseDiscovering, RunPhaseRunning, RunPhaseFailed})"
| "phase_edge RunPhasePending q = (q \<in> {RunPhaseDiscovering, RunPhaseRunning, RunPhaseFailed})"
| "phase_edge RunPhaseDiscovering q = (q \<in> {RunPhaseDiscovering, RunPhaseRunning, RunPhaseFailed})"
| "phase_edge RunPhaseRunning q = (q \<in> {RunPhaseRunning, RunPhaseSucceeded, RunPhaseFailed})"
| "phase_edge RunPhaseSucceeded q = (q = RunPhaseSucceeded)"
| "phase_edge RunPhaseFailed q = (q = RunPhaseFailed)"
| "phase_edge (OtherRunPhase s) q = (q = OtherRunPhase s)"

definition observed :: "RenovateRun \<Rightarrow> RenovateRun" where
  "observed run = (let run1 = on_status (\<lambda>st. st\<lparr>rst_observedGeneration := m_generation (run_meta run)\<rparr>) run
     in if run_phase run1 = RunPhaseUnset then on_status (\<lambda>st. st\<lparr>rst_phase := RunPhasePending\<rparr>) run1 else run1)"

lemma observed_simps [simp]:
  "run_phase (observed run) = (if run_phase run = RunPhaseUnset then RunPhasePending else run_phase run)"
  "run_meta (observed run) = run_meta run" "run_spec (observed run) = run_spec run"
  by (simp_all add: observed_def Let_def)

lemma observed_wf: "run_wf M run \<Longrightarrow> run_wf M (observed run)"
  by (auto simp: observed_def run_wf_def Let_def)

lemma run_reconcile_eq:
  "run_reconcile R run w =
     (case run_phase (observed run) of
        RunPhasePending \<Rightarrow> discoverAndDispatch R (observed run) w
      | RunPhaseDiscovering \<Rightarrow> discoverAndDispatch R (observed run) w
      | RunPhaseRunning \<Rightarrow> Some (observeJob R (observed run) w)
      | RunPhaseSucceeded \<Rightarrow> Some ((noRequeue, None), observed run, w)
      | RunPhaseFailed \<Rightarrow> Some ((noRequeue, None), observed run, w)
      | _ \<Rightarrow> Some ((noRequeue, Some (errors_New (''unknown phase '' @ go_quote (phase_string (run_phase (observed run)))))),
                   observed run, w))"
  by (simp only: run_reconcile_def observed_def Let_def)

lemma run_reconcile_wf:
  assumes "sound_libs R" and "run_wf (rn_meta R) run" and "run_reconcile R run w = Some (oc, run', w')"
  shows "run_wf (rn_meta R) run' \<and> same_object run run' \<and> phase_edge (run_phase run) (run_phase run')"
proof -
  have wf: "run_wf (rn_meta R) (observed run)" by (rule observed_wf [OF assms(2)])
  note disp = discoverAndDispatch_wf [OF assms(1) wf]
  consider "run_phase run \<in> {RunPhaseUnset, RunPhasePending, RunPhaseDiscovering}"
    | "run_phase run = RunPhaseRunning" | "isTerminalPhase (run_phase run)"
    using assms(2) by (cases "run_phase run") (auto simp: run_wf_def Let_def)
  then show ?thesis
  proof cases
    case 1
    then have "discoverAndDispatch R (observed run) w = Some (oc, run', w')"
      using assms(3) by (auto simp: run_reconcile_eq)
    with disp [of w oc run' w'] 1 show ?thesis by (auto simp: same_object_def)
  next
    case 2
    then have "observeJob R (observed run) w = (oc, run', w')" using assms(3) by (simp add: run_reconcile_eq)
    with observeJob_wf [OF assms(1) wf] 2 show ?thesis by (auto simp: same_object_def)
  next
    case 3
    with assms(3) wf show ?thesis
      by (auto simp: run_reconcile_eq isTerminalPhase_def same_object_def)
  qed
qed

inductive run_moves :: "('s, 'n) RenovateRunReconciler \<Rightarrow> RenovateRun \<Rightarrow> RenovateRun \<Rightarrow> bool" for R where
  reconciled: "run_reconcile R run w = Some (oc, run', w') \<Longrightarrow> run_moves R run run'"
| touched: "run_moves R run (run\<lparr>run_meta := m\<rparr>)"

inductive_cases run_movesE: "run_moves R run run'"

definition fresh_status :: RenovateRunStatus where
  "fresh_status = \<lparr>rst_conditions = [], rst_phase = RunPhaseUnset, rst_startTime = None,
     rst_discoveryCompletionTime = None, rst_workersStartTime = None, rst_completionTime = None,
     rst_discoveredRepos = 0, rst_actualWorkers = 0, rst_shardConfigMapRef = None,
     rst_workerJobRef = None, rst_succeededShards = 0, rst_failedShards = 0, rst_observedGeneration = 0\<rparr>"

definition new_run :: "RenovateRun \<Rightarrow> bool" where
  "new_run run = (run_status run = fresh_status)"

lemma new_run_wf:
  assumes "sound_libs R" and "new_run run"
  shows "run_wf (rn_meta R) run"
proof -
  have "meta_conditions (rn_meta R)" using assms(1) by (simp add: sound_libs_def)
  then have "\<not> IsTrue (rn_meta R) [] ty" for ty by (rule meta_conditions.nothing_true)
  then show ?thesis using assms(2) by (simp add: new_run_def run_wf_def fresh_status_def Let_def)
qed

lemma run_moves_wf:
  assumes "sound_libs R" and "run_wf (rn_meta R) run" and "run_moves R run run'"
  shows "run_wf (rn_meta R) run'"
  using assms(3)
proof cases
  case (reconciled w oc w')
  with run_reconcile_wf [OF assms(1,2)] show ?thesis by blast
next
  case (touched m)
  with assms(2) show ?thesis by (simp add: run_wf_def)
qed

text \<open>The Run controller as a transition system, for libraries that keep their contract.\<close>

interpretation run_machine: invariant_system
  "\<lambda>run. sound_libs R \<and> new_run run" "\<lambda>run run'. sound_libs R \<and> run_moves R run run'"
  "\<lambda>run. sound_libs R \<and> run_wf (rn_meta R) run" for R :: "('s, 'n) RenovateRunReconciler"
  by unfold_locales (auto intro: new_run_wf run_moves_wf)

lemma run_moves_sound: "sound_libs R \<Longrightarrow> (run_moves R)\<^sup>*\<^sup>* run run' \<Longrightarrow>
    (\<lambda>run run'. sound_libs R \<and> run_moves R run run')\<^sup>*\<^sup>* run run'"
  by simp

end
