(* ===== verification/RunProperties.thy ===== *)
theory RunProperties
  imports RunInvariant
begin

text \<open>
  What the Run controller guarantees: the state machine and its invariant, the terminal counter,
  the reading of the worker Job, the treatment of discovery errors, and the way to Running.
\<close>

section \<open>Metrics of a step\<close>

definition terminal_count :: "('s, 'n) world \<Rightarrow> nat" where
  "terminal_count w = length (filter is_RunsTotal (w_metrics w))"

lemma terminal_count_simps [simp]:
  "terminal_count (emit m w) = terminal_count w + (if is_RunsTotal m then 1 else 0)"
  "terminal_count (snd (read_clock clk w)) = terminal_count w"
  "terminal_count (w\<lparr>w_ticks := i\<rparr>) = terminal_count w"
  "terminal_count (w\<lparr>w_net := n\<rparr>) = terminal_count w"
  "terminal_count (snd (on_cluster f w)) = terminal_count w"
  by (simp_all add: terminal_count_def)

lemma on_cluster_count: "on_cluster f w = (r, w') \<Longrightarrow> terminal_count w' = terminal_count w"
  using terminal_count_simps(5) [of f w] by simp

lemma recordRunTerminal_count [simp]: "terminal_count (recordRunTerminal run res w) = Suc (terminal_count w)"
  by (simp add: recordRunTerminal_def Let_def split: option.split prod.split)

lemma markFailed_count: "markFailed R msg run w = (oc, run', w') \<Longrightarrow> terminal_count w' = Suc (terminal_count w)"
  by (auto simp: markFailed_def run_mark_eq read_clock_def Let_def)

lemma markTransient_count: "markTransient R e rs run w = (oc, run', w') \<Longrightarrow> terminal_count w' = terminal_count w"
  by (auto simp: markTransient_def run_mark_eq)

lemma admitRun_count: "terminal_count (snd (admitRun R run w)) = terminal_count w"
  by (simp add: admitRun_def run_mark_eq read_clock_def Let_def)

lemma mirrorCredential_count: "mirrorCredential R run tok w = (r, w') \<Longrightarrow> terminal_count w' = terminal_count w"
  by (auto simp: mirrorCredential_def Let_def on_cluster_count
      split: sum.splits if_splits prod.splits dest: on_cluster_count)

lemma ensureShardConfigMap_count: "ensureShardConfigMap R run repos w = (r, w') \<Longrightarrow> terminal_count w' = terminal_count w"
  by (auto simp: ensureShardConfigMap_def Let_def split: sum.splits if_splits prod.splits dest: on_cluster_count)

lemma ensureWorkerJob_count: "ensureWorkerJob R run m cm k w = (r, w') \<Longrightarrow> terminal_count w' = terminal_count w"
  by (auto simp: ensureWorkerJob_def Let_def split: sum.splits if_splits prod.splits dest: on_cluster_count)

lemma discoverRepos_count: "discoverRepos plat run w = Some (r, w') \<Longrightarrow> terminal_count w' = terminal_count w"
  by (auto simp: discoverRepos_def split: option.splits sum.splits if_splits prod.splits)

lemma startRun_count: "startRun R n k job run w = (oc, run', w') \<Longrightarrow> terminal_count w' = terminal_count w"
  by (auto simp: startRun_def run_mark_eq read_clock_def Let_def split: if_splits)

lemmas step_counts = markFailed_count markTransient_count mirrorCredential_count ensureShardConfigMap_count
  ensureWorkerJob_count discoverRepos_count startRun_count

text \<open>A step counts the Run as ended exactly when it ends it.\<close>

definition counts_end :: "('s, 'n) world \<Rightarrow> ('s, 'n) run_step \<Rightarrow> bool" where
  "counts_end w step = (case step of (oc, run', w') \<Rightarrow>
     terminal_count w' = terminal_count w + (if isTerminalPhase (run_phase run') then 1 else 0))"

lemma counts_markFailed: "terminal_count w1 = terminal_count w \<Longrightarrow> counts_end w (markFailed R msg run w1)"
  using markFailed_run(2) [of R msg run w1] markFailed_count [of R msg run w1]
  by (cases "markFailed R msg run w1") (simp add: counts_end_def)

lemma counts_markTransient:
  "terminal_count w1 = terminal_count w \<Longrightarrow> \<not> isTerminalPhase (run_phase run) \<Longrightarrow>
   counts_end w (markTransient R e rs run w1)"
  using markTransient_run(2) [of R e rs run w1] markTransient_count [of R e rs run w1]
  by (cases "markTransient R e rs run w1") (simp add: counts_end_def)

lemma counts_startRun:
  "terminal_count w1 = terminal_count w \<Longrightarrow> counts_end w (startRun R n k job run w1)"
  using startRun_run(3) [of R n k job run w1] startRun_count [of R n k job run w1]
  by (cases "startRun R n k job run w1") (simp add: counts_end_def)

lemma counts_dispatchRun:
  assumes "terminal_count w1 = terminal_count w" and "\<not> isTerminalPhase (run_phase run)"
  shows "counts_end w (dispatchRun R mirrored repos run w1)"
  using assms
  by (auto simp: dispatchRun_def Let_def
      intro!: counts_markFailed counts_markTransient counts_startRun
      split: prod.splits sum.splits dest!: ensureShardConfigMap_count ensureWorkerJob_count)

lemma counts_discoverAndDispatch:
  assumes "discoverAndDispatch R run w = Some step"
  shows "counts_end w step"
proof -
  obtain run1 w1 where adm: "admitRun R run w = (run1, w1)" by fastforce
  have c1: "terminal_count w1 = terminal_count w" using admitRun_count [of R run w] adm by simp
  have p1: "\<not> isTerminalPhase (run_phase run1)" using admitRun_run(2) [OF adm] by simp
  note intros = counts_markFailed counts_markTransient counts_dispatchRun
  from assms adm c1 p1 show ?thesis
    by (auto simp: discoverAndDispatch_def handleDiscoverErr_def Let_def read_clock_def
        intro!: intros split: prod.splits sum.splits option.splits if_splits
        dest!: mirrorCredential_count discoverRepos_count)
qed

lemma counts_observeJob:
  assumes "\<not> isTerminalPhase (run_phase run)"
  shows "counts_end w (observeJob R run w)"
  using assms
  by (auto simp: observeJob_def Let_def run_mark_eq read_clock_def counts_end_def
      split: option.splits sum.splits prod.splits if_splits dest: markFailed_count markFailed_run(2))

section \<open>Properties\<close>

subsection \<open>An example controller\<close>

definition ex_clock :: "nat \<Rightarrow> gotime" where
  "ex_clock i = \<lparr>wall = int i * nanos_per_second, zone = ''UTC''\<rparr>"

definition ex_forge :: "nat PlatformClient" where
  "ex_forge = \<lparr>pc_Discover = (\<lambda>f n. Some (Inr [\<lparr>pr_slug = ''org/a'', pr_defaultBranch = ''main'',
       pr_archived = False, pr_fork = False, pr_topics = []\<rparr>], Suc n)),
     pc_HasRenovateConfig = (\<lambda>r n. (Inr True, Suc n)),
     pc_MintAccessToken = (\<lambda>n. (Inr (''tok'', zero_time), n))\<rparr>"

definition ex_R :: "(cluster, nat) RenovateRunReconciler" where
  "ex_R = \<lparr>rn_Client = sim_client, rn_Clock = ex_clock, rn_OperatorNamespace = ''ops'',
     rn_PlatformClientFactory = (\<lambda>spec sec. Inr ex_forge), rn_meta = ref_meta, rn_metaNow = ex_clock,
     rn_gzip = (\<lambda>raw. Inr raw), rn_unmarshal = ex_unmarshal\<rparr>"

definition ex_run :: RenovateRun where
  "ex_run = \<lparr>run_apiVersion = GroupVersion, run_kind = ''RenovateRun'',
     run_meta = empty_meta\<lparr>m_name := ''nightly-1'', m_namespace := ''team''\<rparr>,
     run_spec = \<lparr>rs_scanRef = \<lparr>lor_name = ''nightly''\<rparr>, rs_platformSnapshot = ex_platform,
                 rs_scanSnapshot = ex_scan\<rparr>,
     run_status = fresh_status\<rparr>"

definition ex_world :: "cluster \<Rightarrow> (cluster, nat) world" where
  "ex_world s = \<lparr>w_cluster = s, w_net = 0, w_ticks = 0, w_metrics = []\<rparr>"

lemma ex_sound: "sound_libs ex_R"
  by (simp add: sound_libs_def ex_R_def ref.meta_conditions_axioms ex_clock_def IsZero_def zero_wall_def
      nanos_per_second_def)

lemma ex_source: "SourceSecretName (Some (ex_run\<lparr>run_status := st\<rparr>)) = Inr ''creds''"
  by (simp add: SourceSecretName_def ex_run_def ex_platform_def)

text \<open>On an empty cluster the source Secret is missing: the Run is retried.\<close>

lemma ex_step:
  "\<exists>run' w'. run_reconcile ex_R ex_run (ex_world empty_cluster) =
     Some ((requeue_in requeueAfterRunTransient, None), run', w') \<and> run_phase run' = RunPhaseDiscovering"
proof -
  have ph: "run_phase (observed ex_run) = RunPhasePending" by (simp add: ex_run_def fresh_status_def)
  obtain run1 w1 where adm: "admitRun ex_R (observed ex_run) (ex_world empty_cluster) = (run1, w1)" by fastforce
  have so: "same_object (observed ex_run) run1" and p1: "run_phase run1 = RunPhaseDiscovering"
    using admitRun_run(1,2) [OF adm] by simp_all
  have "w_cluster w1 = empty_cluster"
    using adm by (auto simp: admitRun_def run_mark_eq read_clock_def Let_def ex_world_def)
  then have "\<exists>e. fetchSourceSecret ex_R run1 w1 = Inl e"
    using so by (simp add: fetchSourceSecret_def SourceSecretName_def same_object_def ex_run_def ex_platform_def
        ex_R_def sim_client_def sim_get_def empty_cluster_def)
  then obtain e where "run_reconcile ex_R ex_run (ex_world empty_cluster) =
      Some (markTransient ex_R e ReasonReconcileError run1 w1)"
    using adm ph by (auto simp: run_reconcile_eq discoverAndDispatch_def)
  moreover obtain oc run' w' where mt: "markTransient ex_R e ReasonReconcileError run1 w1 = (oc, run', w')"
    by (cases "markTransient ex_R e ReasonReconcileError run1 w1")
  ultimately show ?thesis
    using markTransient_run(2,4) [OF mt] p1 by simp
qed

subsection \<open>The state machine\<close>

text \<open>
  Whatever sequence of reconciles a new Run goes through, in whatever states of the cluster and
  the forge, its status stays consistent: a completion time is set exactly in the terminal phases,
  the Succeeded and Failed conditions agree with the phase, a Running Run has its Job reference,
  its shard ConfigMap reference, its timestamps and at least one worker, and the phase is always
  one of the declared ones.
\<close>

theorem run_status_invariant:
  assumes "sound_libs R" and "new_run run" and "(run_moves R)\<^sup>*\<^sup>* run run'"
  shows "run_wf (rn_meta R) run'"
  using run_machine.reachable_inv [of R run run'] assms by simp

theorem run_status_invariant_witness:
  "\<exists>run'. run_moves ex_R ex_run run' \<and> run_phase run' = RunPhaseDiscovering \<and> run_wf ref_meta run'"
proof -
  from ex_step obtain run' w' oc where
    step: "run_reconcile ex_R ex_run (ex_world empty_cluster) = Some (oc, run', w')"
    and ph: "run_phase run' = RunPhaseDiscovering" by blast
  from step have mv: "run_moves ex_R ex_run run'" by (rule reconciled)
  moreover have "new_run ex_run" by (simp add: new_run_def ex_run_def)
  moreover have "rn_meta ex_R = ref_meta" by (simp add: ex_R_def)
  ultimately show ?thesis
    using run_status_invariant [OF ex_sound, of ex_run run'] ph by auto
qed

text \<open>
  Every reconcile of a Run in a consistent state moves its phase along an edge of the state
  machine Pending, Discovering, Running, Succeeded or Failed, and never changes the Run's identity
  or its snapshotted specification.
\<close>

theorem run_phase_moves:
  assumes "sound_libs R" and "run_wf (rn_meta R) run" and "run_reconcile R run w = Some (oc, run', w')"
  shows "phase_edge (run_phase run) (run_phase run') \<and> run_meta run' = run_meta run \<and>
    run_spec run' = run_spec run"
  using run_reconcile_wf [OF assms] by (simp add: same_object_def)

theorem run_phase_moves_witness:
  "\<exists>oc run' w'. run_reconcile ex_R ex_run (ex_world empty_cluster) = Some (oc, run', w') \<and>
     phase_edge RunPhaseUnset (run_phase run') \<and> run_spec run' = run_spec ex_run"
proof -
  from ex_step obtain run' w' oc where
    step: "run_reconcile ex_R ex_run (ex_world empty_cluster) = Some (oc, run', w')" by blast
  have "new_run ex_run" by (simp add: new_run_def ex_run_def)
  from run_phase_moves [OF ex_sound new_run_wf [OF ex_sound this] step] step show ?thesis
    by (auto simp: ex_run_def fresh_status_def)
qed

text \<open>
  A terminal Run is left alone: reconciling it writes nothing to the cluster, talks to no forge,
  emits no metric, asks for no requeue and changes only the observed generation.
\<close>

theorem terminal_run_untouched:
  assumes "run_phase run = RunPhaseSucceeded \<or> run_phase run = RunPhaseFailed"
  shows "run_reconcile R run w =
    Some ((noRequeue, None), on_status (\<lambda>st. st\<lparr>rst_observedGeneration := m_generation (run_meta run)\<rparr>) run, w)"
  using assms by (auto simp: run_reconcile_def Let_def)

theorem terminal_run_untouched_witness:
  "\<exists>run'. run_reconcile ex_R (on_status (\<lambda>st. st\<lparr>rst_phase := RunPhaseFailed\<rparr>) ex_run) (ex_world empty_cluster) =
     Some ((noRequeue, None), run', ex_world empty_cluster)"
  using terminal_run_untouched [of "on_status (\<lambda>st. st\<lparr>rst_phase := RunPhaseFailed\<rparr>) ex_run" ex_R
      "ex_world empty_cluster"] by auto

lemma run_end_count:
  assumes "\<not> isTerminalPhase (run_phase run)" and "run_reconcile R run w = Some (oc, run', w')"
  shows "terminal_count w' = terminal_count w + (if isTerminalPhase (run_phase run') then 1 else 0)"
proof -
  have "counts_end w (oc, run', w')"
  proof (cases "run_phase run")
    case RunPhaseRunning
    have "\<not> isTerminalPhase (run_phase (observed run))" using RunPhaseRunning by simp
    from counts_observeJob [OF this, of w R] show ?thesis
      using assms(2) RunPhaseRunning by (simp add: run_reconcile_eq)
  next
    case (OtherRunPhase s)
    with assms show ?thesis by (auto simp: run_reconcile_eq counts_end_def)
  qed (use assms in \<open>auto simp: run_reconcile_eq intro: counts_discoverAndDispatch\<close>)
  then show ?thesis by (simp add: counts_end_def)
qed

lemma ended_run_reconcile:
  assumes "isTerminalPhase (run_phase run)"
  shows "run_reconcile R run w = Some ((noRequeue, None), observed run, w)" and "run_phase (observed run) = run_phase run"
  using assms by (auto simp: run_reconcile_eq isTerminalPhase_def)

text \<open>
  C19. The terminal counter is incremented exactly once by a reconcile that ends a Run, and by no
  other: not by one that leaves the Run on its way, and not by one of a Run that has ended before, whatever its
  outcome, so \<open>runs_total\<close> counts terminal transitions.
\<close>

theorem run_end_counted_once:
  assumes "run_reconcile R run w = Some (oc, run', w')"
  shows "terminal_count w' = terminal_count w +
    (if \<not> isTerminalPhase (run_phase run) \<and> isTerminalPhase (run_phase run') then 1 else 0)"
proof (cases "isTerminalPhase (run_phase run)")
  case True
  with assms ended_run_reconcile(1) [OF True, of R w] show ?thesis by auto
next
  case False
  with run_end_count [OF False assms] show ?thesis by simp
qed

text \<open>A Running Run that has lost its Job ends and is counted; reconciled once more, it is not counted again.\<close>

definition ex_lost :: RenovateRun where
  "ex_lost = on_status (\<lambda>st. st\<lparr>rst_phase := RunPhaseRunning\<rparr>) ex_run"

theorem run_end_counted_once_witness:
  "\<exists>oc run1 w1 oc' run2 w2. run_reconcile ex_R ex_lost (ex_world empty_cluster) = Some (oc, run1, w1) \<and>
     run_reconcile ex_R run1 w1 = Some (oc', run2, w2) \<and>
     terminal_count (ex_world empty_cluster) = 0 \<and> terminal_count w1 = 1 \<and> terminal_count w2 = 1"
proof -
  have ph: "run_phase ex_lost = RunPhaseRunning" and ref: "rst_workerJobRef (run_status (observed ex_lost)) = None"
    by (simp_all add: ex_lost_def ex_run_def fresh_status_def observed_def Let_def)
  obtain oc run1 w1 where o: "observeJob ex_R (observed ex_lost) (ex_world empty_cluster) = (oc, run1, w1)" by (metis prod_cases3)
  then have first: "run_reconcile ex_R ex_lost (ex_world empty_cluster) = Some (oc, run1, w1)"
    using ph by (simp add: run_reconcile_eq)
  have ended: "isTerminalPhase (run_phase run1)" using o ref by (auto simp: observeJob_def dest: markFailed_run(2))
  note again = ended_run_reconcile(1) [OF ended, of ex_R w1]
  have "terminal_count (ex_world empty_cluster) = 0" by (simp add: ex_world_def terminal_count_def)
  with first again run_end_counted_once [OF first] run_end_counted_once [OF again] ended ph show ?thesis
    by (auto simp: isTerminalPhase_def)
qed

subsection \<open>Watching the Job\<close>

lemma failedCondition_iff:
  "(\<exists>c. failedCondition cs = Some c) \<longleftrightarrow> (\<exists>c\<in>set cs. jc_type c = JobFailed \<and> jc_status c = ConditionTrue)"
  by (induction cs) auto

text \<open>A Job that ended or is gone, as the answer to a read; observing it ends the Run.\<close>

definition job_over :: "Job res \<Rightarrow> bool" where
  "job_over answer =
     (case answer of
        Inl e \<Rightarrow> IsNotFound e
      | Inr job \<Rightarrow>
          (case js_completions (job_spec job) of None \<Rightarrow> 1 | Some n \<Rightarrow> n) \<le>s jst_succeeded (job_status job) \<or>
          (\<exists>c\<in>set (jst_conditions (job_status job)). jc_type c = JobFailed \<and> jc_status c = ConditionTrue))"

lemma observeJob_over:
  assumes "\<And>ref. rst_workerJobRef (run_status run) = Some ref \<Longrightarrow>
      job_over (Get_Job (rn_Client R) (or_namespace ref) (or_name ref) (w_cluster w))"
    and "observeJob R run w = (oc, run', w')"
  shows "isTerminalPhase (run_phase run')" and "w_cluster w' = w_cluster w"
proof -
  show "w_cluster w' = w_cluster w" using assms(2) by (rule step_clusters)
  show "isTerminalPhase (run_phase run')"
  proof (cases "rst_workerJobRef (run_status run)")
    case None
    with assms(2) show ?thesis by (auto simp: observeJob_def dest: markFailed_run(2))
  next
    case (Some ref)
    let ?j = "Get_Job (rn_Client R) (or_namespace ref) (or_name ref) (w_cluster w)"
    show ?thesis
    proof (cases ?j)
      case (Inl e)
      with Some assms show ?thesis by (auto simp: observeJob_def job_over_def dest: markFailed_run(2))
    next
      case (Inr job)
      with assms(1) [OF Some] failedCondition_iff [of "jst_conditions (job_status job)"]
      have "(case js_completions (job_spec job) of None \<Rightarrow> 1 | Some n \<Rightarrow> n) \<le>s jst_succeeded (job_status job) \<or>
          (\<exists>c. failedCondition (jst_conditions (job_status job)) = Some c)"
        by (simp add: job_over_def)
      with assms(2) Some Inr show ?thesis
        by (auto simp: observeJob_def Let_def run_mark_eq read_clock_def split: if_splits option.splits prod.splits)
    qed
  qed
qed

text \<open>
  What the Job's state makes of a Running Run: enough succeeded completions make it Succeeded,
  otherwise a true Failed condition makes it Failed, otherwise it stays Running; the shard counts
  are copied; a Job that is gone makes it Failed, and a Job that cannot be read changes nothing
  and reports the error.
\<close>

theorem observe_job_table:
  assumes "rst_workerJobRef (run_status run) = Some ref" and "run_phase run = RunPhaseRunning"
  shows "case Get_Job (rn_Client R) (or_namespace ref) (or_name ref) (w_cluster w) of
      Inl e \<Rightarrow>
        if IsNotFound e then run_phase (fst (snd (observeJob R run w))) = RunPhaseFailed
        else observeJob R run w = ((noRequeue, Some (wrapf ''get job: '' e)), run, w)
    | Inr job \<Rightarrow>
        run_phase (fst (snd (observeJob R run w))) =
          (if sint (case js_completions (job_spec job) of None \<Rightarrow> 1 | Some n \<Rightarrow> n) \<le> sint (jst_succeeded (job_status job))
           then RunPhaseSucceeded
           else if \<exists>c\<in>set (jst_conditions (job_status job)). jc_type c = JobFailed \<and> jc_status c = ConditionTrue
           then RunPhaseFailed else RunPhaseRunning) \<and>
        rst_succeededShards (run_status (fst (snd (observeJob R run w)))) = jst_succeeded (job_status job) \<and>
        rst_failedShards (run_status (fst (snd (observeJob R run w)))) = jst_failed (job_status job)"
proof (cases "Get_Job (rn_Client R) (or_namespace ref) (or_name ref) (w_cluster w)")
  case (Inl e)
  moreover have "run_phase (fst (snd (markFailed R msg run w))) = RunPhaseFailed" for msg
    using markFailed_run(2) [of R msg run w] by (cases "markFailed R msg run w") simp
  ultimately show ?thesis using assms by (auto simp: observeJob_def)
next
  case (Inr job)
  let ?cs = "jst_conditions (job_status job)"
  show ?thesis
  proof (cases "failedCondition ?cs")
    case None
    then have "\<not> (\<exists>c\<in>set ?cs. jc_type c = JobFailed \<and> jc_status c = ConditionTrue)"
      using failedCondition_iff [of ?cs] by simp
    with None Inr assms show ?thesis
      by (auto simp: observeJob_def Let_def run_mark_eq read_clock_def word_sle_eq)
  next
    case (Some c)
    then have "\<exists>c\<in>set ?cs. jc_type c = JobFailed \<and> jc_status c = ConditionTrue"
      using failedCondition_iff [of ?cs] by blast
    with Some Inr assms show ?thesis
      by (simp add: observeJob_def Let_def run_mark_eq read_clock_def word_sle_eq split: prod.split)
  qed
qed

definition ex_job :: "int32 \<Rightarrow> Job" where
  "ex_job k = (workerJob ex_run (shardConfigMap ex_run []) 2 [])\<lparr>job_status :=
     \<lparr>jst_succeeded = k, jst_failed = 0, jst_conditions = []\<rparr>\<rparr>"

definition ex_running :: RenovateRun where
  "ex_running = on_status (\<lambda>st. st\<lparr>rst_phase := RunPhaseRunning, rst_workerJobRef :=
     Some \<lparr>or_apiVersion = ''batch/v1'', or_kind = ''Job'', or_name = ''nightly-1-worker'',
           or_namespace = ''team'', or_uid = ''u''\<rparr>\<rparr>) ex_run"

lemma ex_job_meta:
  "m_name (job_meta (ex_job k)) = ''nightly-1-worker''" "m_namespace (job_meta (ex_job k)) = ''team''"
  "js_completions (job_spec (ex_job k)) = Some 2" "jst_succeeded (job_status (ex_job k)) = k"
  by (simp_all add: ex_job_def workerJob_def Let_def ex_run_def JobName_def jobNameSuffix_def maxJobNameLen_def
      DNS1123LabelMaxLength_def)

theorem observe_job_table_witness:
  "run_phase (fst (snd (observeJob ex_R ex_running (ex_world (empty_cluster\<lparr>cl_jobs := [ex_job 2]\<rparr>))))) = RunPhaseSucceeded"
proof -
  let ?ref = "\<lparr>or_apiVersion = ''batch/v1'', or_kind = ''Job'', or_name = ''nightly-1-worker'',
      or_namespace = ''team'', or_uid = ''u''\<rparr>"
  let ?w = "ex_world (empty_cluster\<lparr>cl_jobs := [ex_job 2]\<rparr>)"
  have ref: "rst_workerJobRef (run_status ex_running) = Some ?ref" and ph: "run_phase ex_running = RunPhaseRunning"
    by (simp_all add: ex_running_def)
  have "Get_Job (rn_Client ex_R) (or_namespace ?ref) (or_name ?ref) (w_cluster ?w) = Inr (ex_job 2)"
    by (simp add: ex_R_def sim_client_def sim_get_def is_at_def ex_job_meta ex_world_def)
  with observe_job_table [OF ref ph, of ex_R ?w] show ?thesis by (simp add: ex_job_meta)
qed

subsection \<open>Discovery\<close>

text \<open>
  A discovery failure that is transient is retried after thirty seconds with the Run still
  open; every other discovery failure ends the Run as Failed with the cause in the condition.
\<close>

theorem discovery_error_policy:
  assumes "handleDiscoverErr R e run w = ((res, err), run', w')"
  shows "err = None \<and>
    (if errors_Is e ErrTransient
     then run_phase run' = run_phase run \<and> cr_RequeueAfter res = 30 * 1000000000 \<and>
          rst_completionTime (run_status run') = rst_completionTime (run_status run) \<and> terminal_count w' = terminal_count w
     else run_phase run' = RunPhaseFailed \<and> cr_RequeueAfter res = 0 \<and>
          rst_completionTime (run_status run') \<noteq> None \<and> terminal_count w' = Suc (terminal_count w))"
proof (cases "errors_Is e ErrTransient")
  case True
  with assms have mt: "markTransient R e ReasonDiscoveryFailed run w = ((res, err), run', w')"
    by (simp add: handleDiscoverErr_def)
  with True markTransient_run(2,3,4) [OF mt] markTransient_count [OF mt] show ?thesis
    by (simp add: requeue_in_def requeueAfterRunTransient_def nanos_per_second_def)
next
  case False
  with assms have mf: "markFailed R (''discovery: '' @ err_msg e) run w = ((res, err), run', w')"
    by (simp add: handleDiscoverErr_def)
  with False markFailed_run(2,3,4) [OF mf] markFailed_count [OF mf] show ?thesis
    by (simp add: noRequeue_def)
qed

theorem discovery_error_policy_witness:
  "\<exists>res err run' w'. handleDiscoverErr ex_R (platform_error ErrNotFound (errors_New ''404'')) ex_run (ex_world empty_cluster)
     = ((res, err), run', w') \<and> run_phase run' = RunPhaseFailed"
proof -
  obtain res err run' w' where h: "handleDiscoverErr ex_R (platform_error ErrNotFound (errors_New ''404'')) ex_run
      (ex_world empty_cluster) = ((res, err), run', w')"
    by (metis prod.exhaust)
  with discovery_error_policy [OF h] show ?thesis by simp
qed

lemma indexOf_from: "indexOf_from i s b = (case IndexByte s b of None \<Rightarrow> -1 | Some k \<Rightarrow> i + int k)" if "0 \<le> i"
  using that by (induction s arbitrary: i) (auto split: option.splits)

lemma indexOf_IndexByte: "indexOf s b = (case IndexByte s b of None \<Rightarrow> -1 | Some k \<Rightarrow> int k)"
  by (simp add: indexOf_def indexOf_from split: option.split)

text \<open>The owner a filter names: what stands before its first slash, if anything does.\<close>

definition filter_owner :: "string \<Rightarrow> string option" where
  "filter_owner f =
     (let ow = takeWhile (\<lambda>c. c \<noteq> CHR ''/'') f in if ow \<noteq> [] \<and> CHR ''/'' \<in> set f then Some ow else None)"

lemma IndexByte_takeWhile:
  "IndexByte f b = (if b \<in> set f then Some (length (takeWhile (\<lambda>c. c \<noteq> b) f)) else None)"
  by (induction f) auto

lemma take_takeWhile_length: "take (length (takeWhile P f)) f = takeWhile P f"
  by (metis append_eq_conv_conj takeWhile_dropWhile_id)

lemma owner_from_spec:
  "owner_from fs ns = (case List.map_filter filter_owner fs of [] \<Rightarrow> ns | ow # _ \<Rightarrow> ow)"
  by (induction fs)
    (auto simp: List.map_filter_def filter_owner_def Let_def indexOf_IndexByte IndexByte_takeWhile
      take_takeWhile_length)

text \<open>
  The owner that is enumerated is what stands before the slash of the first filter that names
  an owner, and the Run's namespace if no filter does.
\<close>

theorem discovery_owner_spec:
  "discoveryOwner run =
     (case List.map_filter filter_owner (ds_filter (ss_discovery (rs_scanSnapshot (run_spec run)))) of
        [] \<Rightarrow> run_namespace run
      | ow # _ \<Rightarrow> ow)"
  by (simp add: discoveryOwner_def owner_from_spec)

subsection \<open>The way to Running\<close>

text \<open>The builders read the Run's identity and specification only.\<close>

lemma same_object_builders:
  assumes "same_object run run1"
  shows "SourceSecretName (Some run1) = SourceSecretName (Some run)"
    and "BuildMirror (Some run1) tok = BuildMirror (Some run) tok"
    and "discoveryFilter run1 = discoveryFilter run"
    and "runBounds run1 = runBounds run"
    and "shardConfigMap run1 data = shardConfigMap run data"
    and "workerJob run1 cm k envs = workerJob run cm k envs"
    and "runMetricLabels run1 = runMetricLabels run"
  using assms
  by (simp_all add: same_object_def SourceSecretName_def BuildMirror_def discoveryFilter_def discoveryOwner_def
      runBounds_def shardConfigMap_def workerJob_def WorkerLabels_def ownerRefFor_def ownerRefForRun_def runMetricLabels_def Let_def)

text \<open>
  How the controller comes by an object: it takes the one that is there or creates it. A mirrored
  Secret that is there gets the new data and labels.
\<close>

definition ensured :: "('s \<Rightarrow> 'o res) \<Rightarrow> ('s \<Rightarrow> 'o res \<times> 's) \<Rightarrow> 's \<Rightarrow> 'o \<Rightarrow> 's \<Rightarrow> bool" where
  "ensured get create s ob s' =
     (case get s of Inr x \<Rightarrow> ob = x \<and> s' = s | Inl e \<Rightarrow> IsNotFound e \<and> create s = (Inr ob, s'))"

definition mirrored_as :: "'s kclient \<Rightarrow> Secret \<Rightarrow> 's \<Rightarrow> Secret \<Rightarrow> 's \<Rightarrow> bool" where
  "mirrored_as K dst s m s' =
     (case Get_Secret K (m_namespace (sec_meta dst)) (m_name (sec_meta dst)) s of
        Inr existing \<Rightarrow> Update_Secret K (existing\<lparr>sec_data := sec_data dst,
          sec_meta := (sec_meta existing)\<lparr>m_labels := m_labels (sec_meta dst)\<rparr>\<rparr>) s = (Inr m, s')
      | Inl e \<Rightarrow> IsNotFound e \<and> Create_Secret K dst s = (Inr m, s'))"

lemma mirrorCredential_ensures:
  assumes "BuildMirror (Some run) tok = Inr dst" and "mirrored_as (rn_Client R) dst (w_cluster w) m s1"
  shows "mirrorCredential R run tok w = (Inr m, w\<lparr>w_cluster := s1\<rparr>)"
  using assms by (auto simp: mirrorCredential_def mirrored_as_def on_cluster_def split: sum.splits)

lemma shardConfigMap_meta [simp]:
  "m_name (cm_meta (shardConfigMap run data)) = run_name run @ ''-shards''"
  "m_namespace (cm_meta (shardConfigMap run data)) = run_namespace run"
  by (simp_all add: shardConfigMap_def)

lemma ensureShardConfigMap_ensures:
  assumes "Build (rn_gzip R) (map (\<lambda>r. Repository (pr_slug r)) repos) (runBounds run) = Inr res"
    and "ensured (Get_ConfigMap (rn_Client R) (run_namespace run) (run_name run @ ''-shards''))
           (Create_ConfigMap (rn_Client R) (shardConfigMap run (Data res))) (w_cluster w) cm s1"
  shows "ensureShardConfigMap R run repos w = (Inr (cm, ActualWorkers res), w\<lparr>w_cluster := s1\<rparr>)"
  using assms by (auto simp: ensureShardConfigMap_def ensured_def on_cluster_def Let_def split: sum.splits)

lemma workerJob_meta [simp]:
  "m_name (job_meta (workerJob run cm k envs)) = JobName (run_name run)"
  "m_namespace (job_meta (workerJob run cm k envs)) = run_namespace run"
  by (simp_all add: workerJob_def Let_def)

lemma ensureWorkerJob_ensures:
  assumes "1 \<le> sint k" and "m_name (sec_meta m) \<noteq> []"
    and "buildEnv (rn_unmarshal R) (rs_platformSnapshot (run_spec run)) (rs_scanSnapshot (run_spec run))
           \<lparr>SecretName = m_name (sec_meta m), TokenKey = MirrorAccessTokenKey\<rparr> = Inr envs"
    and "ensured (Get_Job (rn_Client R) (run_namespace run) (JobName (run_name run)))
           (Create_Job (rn_Client R) (workerJob run cm k envs)) (w_cluster w) job s1"
  shows "ensureWorkerJob R run m cm k w = (Inr job, w\<lparr>w_cluster := s1\<rparr>)"
  using assms
  by (auto simp: ensureWorkerJob_def BuildWorkerJob_def ensured_def on_cluster_def Let_def word_sless_alt split: sum.splits)

definition probed :: "'n PlatformClient \<Rightarrow> RenovateRun \<Rightarrow> PlatformRepository list \<Rightarrow> 'n \<Rightarrow> PlatformRepository list res \<times> 'n" where
  "probed plat run all n = (if RequireConfigEnabled (ss_discovery (rs_scanSnapshot (run_spec run)))
     then probeRepos plat [] all n else (Inr all, n))"

lemma discoverRepos_probed:
  assumes "pc_Discover plat (discoveryFilter run) (w_net w) = Some (Inr all, n1)"
    and "probed plat run all n1 = (r, n2)"
  shows "discoverRepos plat run w = Some (r, w\<lparr>w_net := n2\<rparr>)"
  using assms by (auto simp: discoverRepos_def probed_def split: if_splits)

lemma startRun_result:
  assumes "startRun R n k job run w = (oc, run', w')"
  shows "w_cluster w' = w_cluster w" and "map_option or_uid (rst_workerJobRef (run_status run')) = Some (m_uid (job_meta job))"
    and "map_option or_name (rst_workerJobRef (run_status run')) = Some (m_name (job_meta job))"
  using assms by (auto simp: startRun_def run_mark_eq read_clock_def Let_def split: if_splits)

lemma dispatchRun_running:
  assumes "repos \<noteq> []"
    and "Build (rn_gzip R) (map (\<lambda>r. Repository (pr_slug r)) repos) (runBounds run) = Inr res"
    and "ensured (Get_ConfigMap (rn_Client R) (run_namespace run) (run_name run @ ''-shards''))
           (Create_ConfigMap (rn_Client R) (shardConfigMap run (Data res))) (w_cluster w) cm s2"
    and "m_name (sec_meta m) \<noteq> []"
    and "buildEnv (rn_unmarshal R) (rs_platformSnapshot (run_spec run)) (rs_scanSnapshot (run_spec run))
           \<lparr>SecretName = m_name (sec_meta m), TokenKey = MirrorAccessTokenKey\<rparr> = Inr envs"
    and "ensured (Get_Job (rn_Client R) (run_namespace run) (JobName (run_name run)))
           (Create_Job (rn_Client R) (workerJob run cm (ActualWorkers res) envs)) s2 job s3"
  shows "\<exists>run' w'. dispatchRun R m repos run w = ((noRequeue, None), run', w') \<and> run_phase run' = RunPhaseRunning \<and>
    rst_actualWorkers (run_status run') = ActualWorkers res \<and>
    map_option or_name (rst_workerJobRef (run_status run')) = Some (m_name (job_meta job)) \<and>
    map_option or_uid (rst_workerJobRef (run_status run')) = Some (m_uid (job_meta job)) \<and> w_cluster w' = s3"
proof -
  let ?k = "ActualWorkers res" and ?w1 = "w\<lparr>w_cluster := s2\<rparr>"
  let ?run1 = "shards_noted (length repos) cm ?k run"
  have sh: "ensureShardConfigMap R run repos w = (Inr (cm, ?k), ?w1)" by (rule ensureShardConfigMap_ensures [OF assms(2,3)])
  have k: "1 \<le> sint ?k" by (rule ensureShardConfigMap_workers [OF sh])
  have job: "ensureWorkerJob R ?run1 m cm ?k (sharded run ?k ?w1) = (Inr job, (sharded run ?k ?w1)\<lparr>w_cluster := s3\<rparr>)"
    by (rule ensureWorkerJob_ensures [OF k, where envs = envs])
      (use assms in \<open>simp_all add: same_object_builders [OF shards_noted_same(1)]\<close>)
  obtain oc run' w' where
    st: "startRun R (length repos) ?k job ?run1 ((sharded run ?k ?w1)\<lparr>w_cluster := s3\<rparr>) = (oc, run', w')"
    by (metis prod.exhaust)
  have "dispatchRun R m repos run w = (oc, run', w')" using assms(1) sh job st by (simp add: dispatchRun_eq)
  with startRun_run(1,3,8) [OF st] startRun_result [OF st] show ?thesis by simp
qed

text \<open>
  What one step needs from the Run's specification, the cluster and the forge to get to Running; the Job and
  the cluster state it ends with.
\<close>

inductive way_clear ::
  "('s, 'n) RenovateRunReconciler \<Rightarrow> RenovateRun \<Rightarrow> ('s, 'n) world \<Rightarrow> Result \<Rightarrow> Job \<Rightarrow> 's \<Rightarrow> bool"
  for R run w where
  clear: "SourceSecretName (Some run) = Inr srcName \<Longrightarrow>
    Get_Secret (rn_Client R) (rn_OperatorNamespace R) srcName (w_cluster w) = Inr source \<Longrightarrow>
    rn_PlatformClientFactory R (rs_platformSnapshot (run_spec run)) source = Inr plat \<Longrightarrow>
    pc_MintAccessToken plat (w_net w) = (Inr (tok, expiry), n1) \<Longrightarrow> BuildMirror (Some run) tok = Inr dst \<Longrightarrow>
    mirrored_as (rn_Client R) dst (w_cluster w) m s1 \<Longrightarrow> m_name (sec_meta m) \<noteq> [] \<Longrightarrow>
    pc_Discover plat (discoveryFilter run) n1 = Some (Inr all, n2) \<Longrightarrow>
    probed plat run all n2 = (Inr repos, n3) \<Longrightarrow> repos \<noteq> [] \<Longrightarrow>
    Build (rn_gzip R) (map (\<lambda>r. Repository (pr_slug r)) repos) (runBounds run) = Inr res \<Longrightarrow>
    ensured (Get_ConfigMap (rn_Client R) (run_namespace run) (run_name run @ ''-shards''))
      (Create_ConfigMap (rn_Client R) (shardConfigMap run (Data res))) s1 cm s2 \<Longrightarrow>
    buildEnv (rn_unmarshal R) (rs_platformSnapshot (run_spec run)) (rs_scanSnapshot (run_spec run))
      \<lparr>SecretName = m_name (sec_meta m), TokenKey = MirrorAccessTokenKey\<rparr> = Inr envs \<Longrightarrow>
    ensured (Get_Job (rn_Client R) (run_namespace run) (JobName (run_name run)))
      (Create_Job (rn_Client R) (workerJob run cm (ActualWorkers res) envs)) s2 job s3 \<Longrightarrow>
    way_clear R run w res job s3"

text \<open>
  How the Run comes by its Job: it takes over the one stored under its name, whatever that one's size, or
  creates one for the given shards, with the number of workers as completions and as parallelism.
\<close>

definition job_obtained :: "'s kclient \<Rightarrow> RenovateRun \<Rightarrow> int32 \<Rightarrow> 's \<Rightarrow> Job \<Rightarrow> 's \<Rightarrow> bool" where
  "job_obtained K run k s job s' =
     (case Get_Job K (run_namespace run) (JobName (run_name run)) s of
        Inr existing \<Rightarrow> job = existing \<and> s' = s
      | Inl e \<Rightarrow> IsNotFound e \<and> (\<exists>cm envs sent. sent = workerJob run cm k envs \<and> Create_Job K sent s = (Inr job, s') \<and>
          js_completions (job_spec sent) = Some k \<and> js_parallelism (job_spec sent) = Some k))"

lemma way_clear_job:
  assumes "way_clear R run w res job s3"
  shows "\<exists>s2. job_obtained (rn_Client R) run (ActualWorkers res) s2 job s3"
  using assms
proof cases
  case (clear srcName source plat tok expiry n1 dst m s1 all n2 repos n3 cm s2 envs)
  have "js_completions (job_spec (workerJob run cm (ActualWorkers res) envs)) = Some (ActualWorkers res)"
    "js_parallelism (job_spec (workerJob run cm (ActualWorkers res) envs)) = Some (ActualWorkers res)"
    by (simp_all add: workerJob_def Let_def)
  with clear(14) have "job_obtained (rn_Client R) run (ActualWorkers res) s2 job s3"
    unfolding job_obtained_def ensured_def by (auto split: sum.splits)
  then show ?thesis ..
qed

lemma run_reaches:
  assumes "run_phase run \<in> {RunPhaseUnset, RunPhasePending, RunPhaseDiscovering}" and "way_clear R run w res job s3"
  shows "\<exists>run' w'. run_reconcile R run w = Some ((noRequeue, None), run', w') \<and> run_phase run' = RunPhaseRunning \<and>
    rst_actualWorkers (run_status run') = ActualWorkers res \<and>
    map_option or_name (rst_workerJobRef (run_status run')) = Some (m_name (job_meta job)) \<and>
    map_option or_uid (rst_workerJobRef (run_status run')) = Some (m_uid (job_meta job)) \<and> w_cluster w' = s3"
  using assms(2)
proof cases
  case (clear srcName source plat tok expiry n1 dst m s1 all n2 repos n3 cm s2 envs)
  obtain run1 w1 where adm: "admitRun R (observed run) w = (run1, w1)" by fastforce
  have so: "same_object run run1" using admitRun_run(1) [OF adm] by (simp add: same_object_def)
  have w1: "w_cluster w1 = w_cluster w" "w_net w1 = w_net w"
    using adm by (auto simp: admitRun_def run_mark_eq read_clock_def Let_def)
  have src: "fetchSourceSecret R run1 w1 = Inr source"
    using clear(1,2) by (simp add: fetchSourceSecret_def same_object_builders [OF so] w1)
  have id: "run_name run1 = run_name run" "run_namespace run1 = run_namespace run" "run_spec run1 = run_spec run"
    using so by (simp_all add: same_object_def)
  let ?w2 = "(w1\<lparr>w_net := n1\<rparr>)\<lparr>w_cluster := s1\<rparr>"
  have mir: "mirrorCredential R run1 tok (w1\<lparr>w_net := n1\<rparr>) = (Inr m, ?w2)"
    by (rule mirrorCredential_ensures) (use clear in \<open>simp_all add: same_object_builders [OF so] w1\<close>)
  obtain sl pl where lab: "runMetricLabels run1 = (sl, pl)" by fastforce
  let ?w3 = "?w2\<lparr>w_ticks := Suc (w_ticks ?w2)\<rparr>"
  have disc: "discoverRepos plat run1 ?w3 = Some (Inr repos, ?w3\<lparr>w_net := n3\<rparr>)"
    by (rule discoverRepos_probed [where all = all and ?n1.0 = n2])
      (use clear in \<open>simp_all add: same_object_builders [OF so] probed_def id\<close>)
  obtain w6 where dd: "discoverAndDispatch R (observed run) w = Some (dispatchRun R m repos run1 w6)"
    and w6: "w_cluster w6 = s1"
    using adm src clear(3,4) mir disc lab by (simp add: discoverAndDispatch_def id read_clock_def w1 Let_def)
  have "\<exists>run' w'. dispatchRun R m repos run1 w6 = ((noRequeue, None), run', w') \<and> run_phase run' = RunPhaseRunning \<and>
    rst_actualWorkers (run_status run') = ActualWorkers res \<and>
    map_option or_name (rst_workerJobRef (run_status run')) = Some (m_name (job_meta job)) \<and>
    map_option or_uid (rst_workerJobRef (run_status run')) = Some (m_uid (job_meta job)) \<and> w_cluster w' = s3"
    by (rule dispatchRun_running [where envs = envs and cm = cm and ?s2.0 = s2])
      (use clear w6 in \<open>simp_all add: same_object_builders [OF so] id\<close>)
  with dd assms(1) show ?thesis by (auto simp: run_reconcile_eq)
qed

text \<open>
  C10. The way through: when the credential resolves, the forge answers with repositories, the
  bounds and configuration are valid and the API server accepts the objects that are missing, one
  reconcile takes a Run from the start to Running, wherever an earlier attempt may have stopped. The
  Run then refers to one worker Job: the one that was stored under its Job name, taken over whatever its size, or, when there was none, the
  one it created for the computed number of workers, as completions and parallelism; the status shows the computed number in both cases.
\<close>

theorem run_reaches_running:
  assumes "run_phase run \<in> {RunPhaseUnset, RunPhasePending, RunPhaseDiscovering}" and "way_clear R run w res job s3"
  shows "\<exists>run' w' s2. run_reconcile R run w = Some ((noRequeue, None), run', w') \<and> run_phase run' = RunPhaseRunning \<and>
    rst_actualWorkers (run_status run') = ActualWorkers res \<and>
    map_option or_name (rst_workerJobRef (run_status run')) = Some (m_name (job_meta job)) \<and>
    map_option or_uid (rst_workerJobRef (run_status run')) = Some (m_uid (job_meta job)) \<and>
    job_obtained (rn_Client R) run (ActualWorkers res) s2 job s3 \<and> w_cluster w' = s3"
  using run_reaches [OF assms] way_clear_job [OF assms(2)] by blast

definition ex_secret :: Secret where
  "ex_secret = \<lparr>sec_meta = empty_meta\<lparr>m_name := ''creds'', m_namespace := ''ops''\<rparr>, sec_type = ''Opaque'',
     sec_data = [(''token'', ''tok'')]\<rparr>"

definition ex_start :: cluster where
  "ex_start = empty_cluster\<lparr>cl_secrets := [ex_secret], cl_runs := [ex_run]\<rparr>"

lemma ex_buildEnv:
  "\<exists>envs. buildEnv ex_unmarshal ex_platform ex_scan \<lparr>SecretName = n, TokenKey = MirrorAccessTokenKey\<rparr> = Inr envs"
  by (simp add: buildEnv_def buildAuthEnv_def mergeRenovateConfig_def copyRaw_def ex_platform_def
      ex_scan_def ex_unmarshal_def MirrorAccessTokenKey_def Let_def)

lemma ex_run_build:
  "\<exists>res. Build (rn_gzip ex_R) [Repository ''org/a''] (runBounds ex_run) = Inr res"
proof -
  have "valid_bounds (runBounds ex_run)"
    by (simp add: runBounds_def ex_run_def ex_scan_def valid_bounds_def Let_def)
  then show ?thesis by (intro Build_total) (auto simp: ex_R_def)
qed

lemma ex_way_clear:
  obtains res job s3 where "way_clear ex_R ex_run (ex_world ex_start) res job s3" and "m_name (job_meta job) = ''nightly-1-worker''"
    and "cl_runs s3 = [ex_run]" and "cl_jobs s3 = [job]"
proof -
  let ?w = "ex_world ex_start"
  obtain dst where dst: "BuildMirror (Some ex_run) ''tok'' = Inr dst"
    and dm: "m_name (sec_meta dst) = ''renovate-creds-nightly-1''" "m_namespace (sec_meta dst) = ''team''"
    by (auto simp: BuildMirror_def ex_run_def MirrorName_def mirrorPrefix_def Let_def DNS1123LabelMaxLength_def)
  define m where "m = sec_meta_update (stamp 0) dst"
  define s1 where "s1 = ex_start\<lparr>cl_secrets := [ex_secret, m], cl_next := 1\<rparr>"
  from ex_run_build obtain res where res: "Build (rn_gzip ex_R) [Repository ''org/a''] (runBounds ex_run) = Inr res" ..
  define cm where "cm = cm_meta_update (stamp 1) (shardConfigMap ex_run (Data res))"
  define s2 where "s2 = s1\<lparr>cl_cms := [cm], cl_next := 2\<rparr>"
  from ex_buildEnv obtain envs where envs: "buildEnv ex_unmarshal ex_platform ex_scan
      \<lparr>SecretName = m_name (sec_meta m), TokenKey = MirrorAccessTokenKey\<rparr> = Inr envs" by blast
  define job where "job = job_meta_update (stamp 2) (workerJob ex_run cm (ActualWorkers res) envs)"
  define s3 where "s3 = s2\<lparr>cl_jobs := [job], cl_next := 3\<rparr>"
  let ?a = "\<lparr>pr_slug = ''org/a'', pr_defaultBranch = ''main'', pr_archived = False, pr_fork = False, pr_topics = []\<rparr>"
  have names: "run_name ex_run = ''nightly-1''" "run_namespace ex_run = ''team''"
    "rs_platformSnapshot (run_spec ex_run) = ex_platform" "rs_scanSnapshot (run_spec ex_run) = ex_scan"
    "run_phase ex_run = RunPhaseUnset"
    by (simp_all add: ex_run_def fresh_status_def)
  have mn: "m_name (sec_meta m) = ''renovate-creds-nightly-1''" by (simp add: m_def stamp_def dm)
  have jn: "m_name (job_meta job) = ''nightly-1-worker''"
    by (simp add: job_def stamp_def names JobName_def jobNameSuffix_def maxJobNameLen_def DNS1123LabelMaxLength_def)
  have c1: "Create_Secret sim_client dst ex_start = (Inr m, s1)"
    by (simp add: sim_client_def sim_create_def ex_start_def empty_cluster_def is_at_def ex_secret_def stamp_def dm
        m_def s1_def Let_def)
  have c2: "Create_ConfigMap sim_client (shardConfigMap ex_run (Data res)) s1 = (Inr cm, s2)"
    by (simp add: sim_client_def sim_create_def ex_start_def empty_cluster_def cm_def s1_def s2_def Let_def)
  have c3: "Create_Job sim_client (workerJob ex_run cm (ActualWorkers res) envs) s2 = (Inr job, s3)"
    by (simp add: sim_client_def sim_create_def ex_start_def empty_cluster_def s1_def s2_def s3_def job_def Let_def)
  have "way_clear ex_R ex_run ?w res job s3"
    by (rule clear [of ex_run "''creds''" ex_R ?w ex_secret ex_forge "''tok''" zero_time 0 dst
          m s1 "[?a]" 1 "[?a]" 2 res cm s2 envs job s3])
      (use dst res envs c1 c2 c3 mn in \<open>simp_all add: names SourceSecretName_def ex_R_def ex_world_def ex_forge_def ensured_def mirrored_as_def
        probed_def RequireConfigEnabled_def sim_client_def sim_get_def is_at_def dm ex_start_def ex_secret_def
        empty_cluster_def s1_def s2_def numeral_2_eq_2, auto simp: ex_platform_def ex_scan_def\<close>)
  moreover have "cl_runs s3 = [ex_run]" "cl_jobs s3 = [job]" by (simp_all add: s3_def s2_def s1_def ex_start_def)
  ultimately show ?thesis using jn by (intro that)
qed

lemma ex_run_unset: "run_phase ex_run = RunPhaseUnset"
  by (simp add: ex_run_def fresh_status_def)

theorem run_reaches_running_witness:
  "\<exists>run' w' k s2 job. run_reconcile ex_R ex_run (ex_world ex_start) = Some ((noRequeue, None), run', w') \<and>
     run_phase run' = RunPhaseRunning \<and> job_obtained (rn_Client ex_R) ex_run k s2 job (w_cluster w') \<and>
     map_option or_name (rst_workerJobRef (run_status run')) = Some ''nightly-1-worker''"
proof -
  obtain res job s3 where "way_clear ex_R ex_run (ex_world ex_start) res job s3" "m_name (job_meta job) = ''nightly-1-worker''"
    by (rule ex_way_clear)
  with run_reaches_running [of ex_run ex_R "ex_world ex_start" res job s3] show ?thesis by (auto simp: ex_run_unset) blast
qed

end
