(* ===== verification/ScanReconciler.thy ===== *)
theory ScanReconciler
  imports Kube
begin

text \<open>
  The Scan controller (\<open>internal/controller/renovatescan_controller.go\<close>). The cron parser and the
  schedules it makes, the time-zone database, RFC 3339 formatting and \<open>sort.Slice\<close> are fields of the
  reconciler record; a schedule is its \<open>Next\<close> function.
\<close>

section \<open>The reconciler\<close>

type_synonym schedule = "gotime \<Rightarrow> gotime"

record 's RenovateScanReconciler =
  sc_Client :: "'s kclient"
  sc_Clock :: "nat \<Rightarrow> gotime"
  sc_meta :: meta_api
  sc_metaNow :: "nat \<Rightarrow> gotime"
  sc_LoadLocation :: "string \<Rightarrow> string res"
  sc_cronParse :: "string \<Rightarrow> schedule res"
  sc_RFC3339 :: "gotime \<Rightarrow> string"
  sc_sortSlice :: "(RenovateRun \<Rightarrow> RenovateRun \<Rightarrow> bool) \<Rightarrow> RenovateRun list \<Rightarrow> RenovateRun list"

definition requeueAfterMax :: int where "requeueAfterMax = 5 * 60 * nanos_per_second"
definition requeueAfterPlatformPending :: int where "requeueAfterPlatformPending = 60 * nanos_per_second"
definition firstFireGrace :: int where "firstFireGrace = 60 * nanos_per_second"

abbreviation on_sstatus :: "(RenovateScanStatus \<Rightarrow> RenovateScanStatus) \<Rightarrow> RenovateScan \<Rightarrow> RenovateScan" where
  "on_sstatus f scan \<equiv> scan\<lparr>scan_status := f (scan_status scan)\<rparr>"

definition scan_mark ::
  "(meta_api \<Rightarrow> gotime \<Rightarrow> Condition list \<Rightarrow> string \<Rightarrow> string \<Rightarrow> string \<Rightarrow> int \<Rightarrow> Condition list)
   \<Rightarrow> 's RenovateScanReconciler \<Rightarrow> string \<Rightarrow> string \<Rightarrow> string \<Rightarrow> RenovateScan \<Rightarrow> ('s, 'n) world
   \<Rightarrow> RenovateScan \<times> ('s, 'n) world" where
  "scan_mark mark S ty reason msg scan w =
     (let (t, w1) = read_clock (sc_metaNow S) w in
      (on_sstatus (\<lambda>st. st\<lparr>sst_conditions :=
         mark (sc_meta S) t (sst_conditions st) ty reason msg (m_generation (scan_meta scan))\<rparr>) scan, w1))"

section \<open>Schedules\<close>

definition parseSchedule :: "'s RenovateScanReconciler \<Rightarrow> string \<Rightarrow> string \<Rightarrow> (string \<times> schedule) res" where
  "parseSchedule S expr tz0 =
     (let tz = (if tz0 = '''' then ''UTC'' else tz0) in
      case sc_LoadLocation S tz of
        Inl e \<Rightarrow> Inl (wrapf (''invalid time zone '' @ go_quote tz @ '': '') e)
      | Inr loc \<Rightarrow>
        (case sc_cronParse S expr of
           Inl e \<Rightarrow> Inl (wrapf (''invalid cron '' @ go_quote expr @ '': '') e)
         | Inr sched \<Rightarrow> Inr (loc, sched)))"

text \<open>The loop over fire times; a schedule that never gets past \<open>now\<close> keeps it going for ever: \<open>None\<close>.\<close>

partial_function (option) fire_loop :: "schedule \<Rightarrow> gotime \<Rightarrow> gotime \<Rightarrow> gotime \<Rightarrow> (gotime \<times> gotime) option" where
  [code]: "fire_loop next nowLoc missed t =
     (if \<not> After t nowLoc then fire_loop next nowLoc t (next t) else Some (missed, t))"

definition computeFireTimes :: "schedule \<Rightarrow> gotime option \<Rightarrow> gotime \<Rightarrow> string \<Rightarrow> (gotime \<times> gotime) option" where
  "computeFireTimes next lastRun now loc =
     (let nowLoc = In_loc now loc;
          startFrom = (case lastRun of
                         Some l \<Rightarrow> In_loc l loc
                       | None \<Rightarrow> Add_dur nowLoc (- firstFireGrace))
      in fire_loop next nowLoc zero_time (next startFrom))"

definition capRequeueAfter :: "int \<Rightarrow> int" where
  "capRequeueAfter d =
     (if d \<le> 0 then nanos_per_second else if d > requeueAfterMax then requeueAfterMax else d)"

section \<open>Runs of a Scan\<close>

definition shouldSkipForConcurrency :: "RenovateScan \<Rightarrow> bool" where
  "shouldSkipForConcurrency scan =
     (if sst_activeRuns (scan_status scan) = [] then False
      else (case ss_concurrencyPolicy (scan_spec scan) of AllowConcurrent \<Rightarrow> False | _ \<Rightarrow> True))"

definition ownedByScan :: "RenovateRun \<Rightarrow> RenovateScan \<Rightarrow> bool" where
  "ownedByScan run scan = list_ex (\<lambda>ow. ow_uid ow = m_uid (scan_meta scan)) (m_ownerReferences (run_meta run))"

definition isTerminal :: "RunPhase \<Rightarrow> bool" where
  "isTerminal p = (p = RunPhaseSucceeded \<or> p = RunPhaseFailed)"

definition runRef :: "RenovateRun \<Rightarrow> ObjectReference" where
  "runRef run = \<lparr>or_apiVersion = run_apiVersion run, or_kind = run_kind run, or_name = run_name run,
     or_namespace = run_namespace run, or_uid = m_uid (run_meta run)\<rparr>"

text \<open>\<open>if acc == nil || t.After(acc)\<close>.\<close>

definition later :: "gotime option \<Rightarrow> gotime \<Rightarrow> gotime option" where
  "later acc t = (case acc of None \<Rightarrow> Some t | Some a \<Rightarrow> if After t a then Some t else Some a)"

fun refresh_loop ::
  "RenovateScan \<Rightarrow> RenovateRun list \<Rightarrow> ObjectReference list \<Rightarrow> gotime option \<Rightarrow> gotime option
   \<Rightarrow> ObjectReference list \<times> gotime option \<times> gotime option" where
  "refresh_loop scan [] active lastRun lastSuccessfulRun = (active, lastRun, lastSuccessfulRun)"
| "refresh_loop scan (run # runs) active lastRun lastSuccessfulRun =
     (if \<not> ownedByScan run scan then refresh_loop scan runs active lastRun lastSuccessfulRun
      else if isTerminal (run_phase run) then
        (case rst_completionTime (run_status run) of
           None \<Rightarrow> refresh_loop scan runs active lastRun lastSuccessfulRun
         | Some ct \<Rightarrow>
             refresh_loop scan runs active (later lastRun ct)
               (if run_phase run = RunPhaseSucceeded then later lastSuccessfulRun ct else lastSuccessfulRun))
      else refresh_loop scan runs (active @ [runRef run]) lastRun lastSuccessfulRun)"

definition refreshActiveRuns :: "'s RenovateScanReconciler \<Rightarrow> RenovateScan \<Rightarrow> 's \<Rightarrow> RenovateScan res" where
  "refreshActiveRuns S scan s =
     (case List_Runs (sc_Client S) (m_namespace (scan_meta scan)) s of
        Inl e \<Rightarrow> Inl e
      | Inr runs \<Rightarrow>
        (case refresh_loop scan runs [] None None of
           (active, lastRun, lastSuccessfulRun) \<Rightarrow>
             Inr (on_sstatus (\<lambda>st. st\<lparr>sst_activeRuns := active,
               sst_lastRunTime := (if lastRun \<noteq> None then lastRun else sst_lastRunTime st),
               sst_lastSuccessfulRunTime :=
                 (if lastSuccessfulRun \<noteq> None then lastSuccessfulRun else sst_lastSuccessfulRunTime st)\<rparr>) scan)))"

definition newRun ::
  "'s RenovateScanReconciler \<Rightarrow> RenovateScan \<Rightarrow> RenovatePlatform \<Rightarrow> gotime \<Rightarrow> RenovateRun" where
  "newRun S scan platform fireTime =
     \<lparr>run_apiVersion = '''', run_kind = '''',
      run_meta = empty_meta\<lparr>m_namespace := m_namespace (scan_meta scan), m_generateName := scan_name scan @ ''-'',
        m_labels := [(''renovate.fartlab.dev/scan'', scan_name scan),
                     (''renovate.fartlab.dev/platform'', platform_string (ps_platformType (plat_spec platform)))],
        m_ownerReferences := [\<lparr>ow_apiVersion = GroupVersion, ow_kind = ''RenovateScan'', ow_name = scan_name scan,
          ow_uid = m_uid (scan_meta scan), ow_controller = Some True, ow_blockOwnerDeletion = Some True\<rparr>],
        m_annotations := [(''renovate.fartlab.dev/scheduled-for'', sc_RFC3339 S fireTime)]\<rparr>,
      run_spec = \<lparr>rs_scanRef = \<lparr>lor_name = scan_name scan\<rparr>, rs_platformSnapshot = plat_spec platform,
                  rs_scanSnapshot = scan_spec scan\<rparr>,
      run_status = \<lparr>rst_conditions = [], rst_phase = RunPhaseUnset, rst_startTime = None,
        rst_discoveryCompletionTime = None, rst_workersStartTime = None, rst_completionTime = None,
        rst_discoveredRepos = 0, rst_actualWorkers = 0, rst_shardConfigMapRef = None,
        rst_workerJobRef = None, rst_succeededShards = 0, rst_failedShards = 0, rst_observedGeneration = 0\<rparr>\<rparr>"

definition createRun ::
  "'s RenovateScanReconciler \<Rightarrow> RenovateScan \<Rightarrow> RenovatePlatform \<Rightarrow> gotime \<Rightarrow> ('s, 'n) world
   \<Rightarrow> RenovateScan res \<times> ('s, 'n) world" where
  "createRun S scan platform fireTime w =
     (case on_cluster (Create_Run (sc_Client S) (newRun S scan platform fireTime)) w of
        (Inl e, w1) \<Rightarrow> (Inl (wrapf ''create run: '' e), w1)
      | (Inr run, w1) \<Rightarrow>
          (Inr (on_sstatus (\<lambda>st. st\<lparr>sst_lastRunRef := Some (runRef run), sst_lastRunTime := Some fireTime\<rparr>) scan), w1))"

section \<open>History\<close>

definition completionOrCreation :: "RenovateRun \<Rightarrow> gotime" where
  "completionOrCreation run =
     (case rst_completionTime (run_status run) of Some t \<Rightarrow> t | None \<Rightarrow> m_creationTimestamp (run_meta run))"

definition moreRecent :: "RenovateRun \<Rightarrow> RenovateRun \<Rightarrow> bool" where
  "moreRecent a b = After (completionOrCreation a) (completionOrCreation b)"

fun deleteRuns :: "'s kclient \<Rightarrow> RenovateRun list \<Rightarrow> 's \<Rightarrow> goerror option \<times> 's" where
  "deleteRuns K [] s = (None, s)"
| "deleteRuns K (run # runs) s =
     (case Delete_Run K run s of
        (Some e, s1) \<Rightarrow>
          if IsNotFound e then deleteRuns K runs s1
          else (Some (wrapf (''delete old run '' @ run_name run @ '': '') e), s1)
      | (None, s1) \<Rightarrow> deleteRuns K runs s1)"

text \<open>
  The runs beyond the first \<open>keep\<close> are the oldest ones. \<open>runs[keep:]\<close> of a negative \<open>keep\<close> panics, which the
  model reports as the error that controller-runtime makes of it; the panic also leaves out the status write that follows an error. The
  validation of the limits (at least 0) keeps the API server from storing a Scan for which that could happen.
\<close>

definition deleteOldest ::
  "'s RenovateScanReconciler \<Rightarrow> RenovateRun list \<Rightarrow> int \<Rightarrow> 's \<Rightarrow> goerror option \<times> 's" where
  "deleteOldest S runs keep s =
     (if int (length runs) \<le> keep then (None, s)
      else if keep < 0 then (Some (sentinel_error ErrPanic ''slice bounds out of range''), s)
      else deleteRuns (sc_Client S) (drop (nat keep) (sc_sortSlice S moreRecent runs)) s)"

definition gcOldRuns :: "'s RenovateScanReconciler \<Rightarrow> RenovateScan \<Rightarrow> 's \<Rightarrow> goerror option \<times> 's" where
  "gcOldRuns S scan s =
     (case List_Runs (sc_Client S) (m_namespace (scan_meta scan)) s of
        Inl e \<Rightarrow> (Some e, s)
      | Inr items \<Rightarrow>
        (let owned = filter (\<lambda>run. ownedByScan run scan) items;
             succeeded = filter (\<lambda>run. run_phase run = RunPhaseSucceeded) owned;
             failed = filter (\<lambda>run. run_phase run = RunPhaseFailed) owned;
             successLimit = (case ss_successfulRunsHistoryLimit (scan_spec scan) of None \<Rightarrow> 3 | Some n \<Rightarrow> n);
             failLimit = (case ss_failedRunsHistoryLimit (scan_spec scan) of None \<Rightarrow> 1 | Some n \<Rightarrow> n)
         in case deleteOldest S succeeded (sint successLimit) s of
              (Some e, s1) \<Rightarrow> (Some e, s1)
            | (None, s1) \<Rightarrow> deleteOldest S failed (sint failLimit) s1))"

section \<open>The reconcile\<close>

text \<open>The part after the schedule has been parsed and the Run list refreshed.\<close>

definition fireScan ::
  "'s RenovateScanReconciler \<Rightarrow> RenovatePlatform \<Rightarrow> gotime \<Rightarrow> gotime \<Rightarrow> gotime \<Rightarrow> RenovateScan \<Rightarrow> ('s, 'n) world
   \<Rightarrow> outcome \<times> RenovateScan \<times> ('s, 'n) world" where
  "fireScan S platform now missed nextFire scan w =
     (let again = requeue_in (capRequeueAfter (Sub_time nextFire now)) in
      if IsZero missed then
        ((again, None), scan_mark mark_true S TypeScheduled ReasonNextRunComputed
           (''next run at '' @ sc_RFC3339 S nextFire) scan w)
      else if shouldSkipForConcurrency scan then
        ((again, None), scan_mark mark_true S TypeScheduled ReasonNextRunComputed
           ''skipping due to concurrencyPolicy=Forbid; active run in flight'' scan w)
      else (case createRun S scan platform missed w of
              (Inl e, w1) \<Rightarrow> ((noRequeue, Some e), scan, w1)
            | (Inr scan1, w1) \<Rightarrow>
              (case on_cluster (gcOldRuns S scan1) w1 of
                 (Some e, w2) \<Rightarrow> ((noRequeue, Some (wrapf ''gc runs: '' e)), scan1, w2)
               | (None, w2) \<Rightarrow>
                   ((again, None), scan_mark mark_true S TypeScheduled ReasonNextRunComputed
                      (''created Run for fire '' @ sc_RFC3339 S missed @ ''; next at '' @ sc_RFC3339 S nextFire)
                      scan1 w2))))"

definition scan_reconcile ::
  "'s RenovateScanReconciler \<Rightarrow> RenovateScan \<Rightarrow> ('s, 'n) world
   \<Rightarrow> (outcome \<times> RenovateScan \<times> ('s, 'n) world) option" where
  "scan_reconcile S scan00 w0 =
     (let scan0 = on_sstatus (\<lambda>st. st\<lparr>sst_observedGeneration := m_generation (scan_meta scan00)\<rparr>) scan00;
          (now, w) = read_clock (sc_Clock S) w0
      in if ss_suspend (scan_spec scan0) then
           Some ((noRequeue, None), scan_mark mark_false S TypeReady ReasonSuspended ''scan is suspended'' scan0 w)
         else (case Get_Platform (sc_Client S) (lor_name (ss_platformRef (scan_spec scan0))) (w_cluster w) of
           Inl e \<Rightarrow>
             if IsNotFound e then
               Some ((requeue_in requeueAfterPlatformPending, None),
                 scan_mark mark_false S TypeReady ReasonPlatformNotReady
                   (''RenovatePlatform '' @ go_quote (lor_name (ss_platformRef (scan_spec scan0))) @ '' not found'') scan0 w)
             else Some ((noRequeue, Some (wrapf ''get platform: '' e)), scan0, w)
         | Inr platform \<Rightarrow>
             if \<not> IsTrue (sc_meta S) (pst_conditions (plat_status platform)) TypeReady then
               Some ((requeue_in requeueAfterPlatformPending, None),
                 scan_mark mark_false S TypeReady ReasonPlatformNotReady
                   (''RenovatePlatform '' @ go_quote (plat_name platform) @ '' is not Ready'') scan0 w)
             else (case parseSchedule S (ss_schedule (scan_spec scan0)) (ss_timeZone (scan_spec scan0)) of
               Inl e \<Rightarrow>
                 Some ((noRequeue, None),
                   scan_mark mark_false S TypeReady ReasonInvalidSchedule (err_msg e) scan0 w)
             | Inr (loc, sched) \<Rightarrow>
               (case refreshActiveRuns S scan0 (w_cluster w) of
                  Inl e \<Rightarrow> Some ((noRequeue, Some (wrapf ''refresh active runs: '' e)), scan0, w)
                | Inr scan1 \<Rightarrow>
                  (let w1 = emit (ActiveRuns (scan_name scan1) (platform_string (ps_platformType (plat_spec platform)))
                              (length (sst_activeRuns (scan_status scan1)))) w;
                       (scan2, w2) = scan_mark mark_true S TypeReady ReasonNextRunComputed
                         ''scan is ready to fire'' scan1 w1
                   in case computeFireTimes sched (sst_lastRunTime (scan_status scan2)) now loc of
                        None \<Rightarrow> None
                      | Some (missed, nextFire) \<Rightarrow>
                          Some (fireScan S platform now missed nextFire
                            (on_sstatus (\<lambda>st. st\<lparr>sst_nextRunTime := Some nextFire\<rparr>) scan2) w2))))))"

definition scan_Reconcile ::
  "'s RenovateScanReconciler \<Rightarrow> string \<Rightarrow> string \<Rightarrow> ('s, 'n) world \<Rightarrow> (outcome \<times> ('s, 'n) world) option" where
  "scan_Reconcile S ns name w =
     (case Get_Scan (sc_Client S) ns name (w_cluster w) of
        Inl e \<Rightarrow> Some ((noRequeue, IgnoreNotFound e), w)
      | Inr scan \<Rightarrow>
        (case scan_reconcile S scan w of
           None \<Rightarrow> None
         | Some ((result, err), scan', w1) \<Rightarrow>
           (case on_cluster (StatusUpdate_Scan (sc_Client S) scan') w1 of
              (None, w2) \<Rightarrow> Some ((result, err), w2)
            | (Some ue, w2) \<Rightarrow>
                if IsConflict ue then Some ((requeue_in requeueAfterStatusConflict, None), w2)
                else Some ((result, if err = None then Some ue else err), w2))))"

interpretation scan_shell: reconcile_shell
  "\<lambda>w. Get_Scan (sc_Client S) ns name (w_cluster w)" "scan_reconcile S"
  "\<lambda>scan. on_cluster (StatusUpdate_Scan (sc_Client S) scan)" "scan_Reconcile S ns name"
  for S :: "'s RenovateScanReconciler" and ns name
  by unfold_locales (simp add: scan_Reconcile_def split: sum.split option.split prod.split)

text \<open>The Scans to reconcile when a Platform changes, as namespace and name.\<close>

definition scansForPlatform ::
  "'s RenovateScanReconciler \<Rightarrow> RenovatePlatform option \<Rightarrow> 's \<Rightarrow> (string \<times> string) list" where
  "scansForPlatform S obj s =
     (case obj of
        None \<Rightarrow> []
      | Some platform \<Rightarrow>
          (case List_Scans (sc_Client S) s of
             Inl e \<Rightarrow> []
           | Inr items \<Rightarrow>
               map (\<lambda>sc. (m_namespace (scan_meta sc), scan_name sc))
                 (filter (\<lambda>sc. lor_name (ss_platformRef (scan_spec sc)) = plat_name platform) items)))"

end
