(* ===== verification/ScanSchedule.thy ===== *)
theory ScanSchedule
  imports ScanReconciler
begin

text \<open>
  The fire times of a Scan: what \<^const>\<open>computeFireTimes\<close> finds on a schedule that keeps the
  documented law of the cron package, and when its walk over the fire times ends.
\<close>

section \<open>Fire times\<close>

text \<open>
  What the cron package documents of the \<open>Next\<close> of a schedule of five fields. The fields are read in the
  location of the argument, so the fire instants are a set \<open>F loc\<close> for each location; a schedule that names its own zone
  has the same set in all of them. The result is the first fire instant after the argument, in the argument's location;
  when none lies within five years the package may give up, and the result is the zero time.
\<close>

definition five_years :: int where
  "five_years = 5 * 365 * 86400 * nanos_per_second"

definition first_fire :: "int set \<Rightarrow> gotime \<Rightarrow> gotime \<Rightarrow> bool" where
  "first_fire F t n = (zone n = zone t \<and> wall n \<in> F \<and> wall t < wall n \<and> F \<inter> {wall t<..<wall n} = {})"

definition cron_law :: "(string \<Rightarrow> int set) \<Rightarrow> schedule \<Rightarrow> bool" where
  "cron_law F nxt = (\<forall>t. first_fire (F (zone t)) t (nxt t) \<or>
     (nxt t = zero_time \<and> F (zone t) \<inter> {wall t<..wall t + five_years} = {}))"

text \<open>From every instant of \<open>[a, b]\<close> there is another fire within five years.\<close>

definition keeps_firing :: "int set \<Rightarrow> int \<Rightarrow> int \<Rightarrow> bool" where
  "keeps_firing F a b = (\<forall>x\<in>{a..b}. F \<inter> {x<..x + five_years} \<noteq> {})"

lemma cron_next:
  assumes "cron_law F nxt" and "keeps_firing (F (zone t)) a b" and "a \<le> wall t" and "wall t \<le> b"
  shows "first_fire (F (zone t)) t (nxt t)"
proof -
  have "F (zone t) \<inter> {wall t<..wall t + five_years} \<noteq> {}" using assms(2-4) by (simp add: keeps_firing_def)
  with assms(1) show ?thesis unfolding cron_law_def by blast
qed

lemma cron_result: "cron_law F nxt \<Longrightarrow> wall (nxt t) \<in> F (zone t) \<or> nxt t = zero_time"
  unfolding cron_law_def first_fire_def by blast

text \<open>The instant after which fire times count as missed.\<close>

definition window_start :: "gotime option \<Rightarrow> gotime \<Rightarrow> int" where
  "window_start lastRun now = (case lastRun of Some l \<Rightarrow> wall l | None \<Rightarrow> wall now - firstFireGrace)"

definition missed_fires :: "int set \<Rightarrow> gotime option \<Rightarrow> gotime \<Rightarrow> int set" where
  "missed_fires F lastRun now = F \<inter> {window_start lastRun now<..wall now}"

text \<open>\<open>m\<close> is the last fire time of \<open>(a, b]\<close>, or the zero time when there is none.\<close>

definition last_fire :: "int set \<Rightarrow> int \<Rightarrow> int \<Rightarrow> gotime \<Rightarrow> bool" where
  "last_fire F a b m =
     (if F \<inter> {a<..b} = {} then m = zero_time else wall m \<in> F \<inter> {a<..b} \<and> F \<inter> {wall m<..b} = {})"

lemma last_fire_Max: "last_fire F a b m \<Longrightarrow> F \<inter> {a<..b} \<noteq> {} \<Longrightarrow> wall m = Max (F \<inter> {a<..b})"
proof -
  assume "last_fire F a b m" and "F \<inter> {a<..b} \<noteq> {}"
  then have m: "wall m \<in> F \<inter> {a<..b}" and later: "F \<inter> {wall m<..b} = {}"
    by (auto simp: last_fire_def split: if_splits)
  have "y \<le> wall m" if "y \<in> F \<inter> {a<..b}" for y
    using that later by (meson IntD1 IntD2 IntI disjoint_iff greaterThanAtMost_iff not_le)
  with m show ?thesis by (intro Max_eqI [symmetric]) auto
qed

lemma fire_loop_returns:
  assumes law: "cron_law F nxt" and f: "keeps_firing (F loc) a (wall now)"
    and "last_fire (F loc) a (wall t - 1) m" and "zone t = loc" and "wall t \<in> F loc"
    and "F loc \<inter> {wall now<..<wall t} = {}" and "a < wall t"
  shows "\<exists>missed t'. fire_loop nxt now m t = Some (missed, t') \<and> zone t' = loc \<and> wall t' \<in> F loc \<and> wall now < wall t' \<and>
    F loc \<inter> {wall now<..<wall t'} = {} \<and> last_fire (F loc) a (wall now) missed"
  using assms(3-)
proof (induction "nat (wall now - wall t + 1)" arbitrary: m t rule: less_induct)
  case less
  show ?case
  proof (cases "After t now")
    case True
    then have eq: "F loc \<inter> {x<..wall now} = F loc \<inter> {x<..wall t - 1}" for x
      using less.prems(4) by (auto simp: After_def)
    have "last_fire (F loc) a (wall now) m" using less.prems(1) by (simp only: last_fire_def eq)
    with True less.prems show ?thesis by (simp add: fire_loop.simps After_def)
  next
    case False
    then have "first_fire (F loc) t (nxt t)"
      using cron_next [OF law, of t a "wall now"] f less.prems(2,5) by (simp add: After_def)
    then have n: "zone (nxt t) = loc" "wall (nxt t) \<in> F loc" "wall t < wall (nxt t)" "F loc \<inter> {wall t<..<wall (nxt t)} = {}"
      using less.prems(2) by (simp_all add: first_fire_def)
    have "F loc \<inter> {a<..wall (nxt t) - 1} \<noteq> {}" using less.prems n by auto
    moreover have "F loc \<inter> {wall t<..wall (nxt t) - 1} = {}" using n by auto
    ultimately have "last_fire (F loc) a (wall (nxt t) - 1) t"
      using less.prems n by (auto simp: last_fire_def)
    moreover have "F loc \<inter> {wall now<..<wall (nxt t)} = {}" using n(4) False by (auto simp: After_def)
    ultimately have "\<exists>missed t'. fire_loop nxt now t (nxt t) = Some (missed, t') \<and> zone t' = loc \<and> wall t' \<in> F loc \<and>
        wall now < wall t' \<and> F loc \<inter> {wall now<..<wall t'} = {} \<and> last_fire (F loc) a (wall now) missed"
      using n less.prems(5) False by (intro less.hyps) (auto simp: After_def)
    with False show ?thesis by (simp add: fire_loop.simps [of nxt now m t])
  qed
qed

lemma fire_loop_stuck:
  assumes "\<And>t. \<not> After t now \<Longrightarrow> \<not> After (nxt t) now" and "\<not> After t now"
  shows "fire_loop nxt now m t = None"
proof -
  have "nx = nxt \<Longrightarrow> nw = now \<Longrightarrow> After t now" if "fire_loop nx nw m t = Some y" for y m t nx nw
    using that
  proof (induction rule: fire_loop.raw_induct [rotated, consumes 1, case_names step])
    case (step fl nx nw m t y)
    show ?case
    proof (rule ccontr)
      assume "\<not> After t now"
      with step.hyps step.prems have "fl nxt now t (nxt t) = Some y" by simp
      with step.IH step.prems have "After (nxt t) now" by blast
      with assms(1) \<open>\<not> After t now\<close> show False by blast
    qed
  qed
  with assms(2) show ?thesis by (cases "fire_loop nxt now m t") auto
qed

lemma computeFireTimes_loop:
  "\<exists>st. wall st = window_start lastRun now \<and> zone st = loc \<and>
     computeFireTimes nxt lastRun now loc = fire_loop nxt (In_loc now loc) zero_time (nxt st)"
  by (cases lastRun) (auto simp: computeFireTimes_def Let_def window_start_def Add_dur_def In_loc_def
      intro: exI [of _ "Add_dur (In_loc now loc) (- firstFireGrace)"] exI [of _ "In_loc _ loc"])

lemma computeFireTimes_returns:
  assumes "cron_law F nxt" and "window_start lastRun now \<le> wall now"
    and "keeps_firing (F loc) (window_start lastRun now) (wall now)"
  shows "\<exists>missed nextFire. computeFireTimes nxt lastRun now loc = Some (missed, nextFire) \<and>
    zone nextFire = loc \<and> wall nextFire \<in> F loc \<and> wall now < wall nextFire \<and> F loc \<inter> {wall now<..<wall nextFire} = {} \<and>
    last_fire (F loc) (window_start lastRun now) (wall now) missed"
proof -
  obtain st where st: "wall st = window_start lastRun now" "zone st = loc"
    and eq: "computeFireTimes nxt lastRun now loc = fire_loop nxt (In_loc now loc) zero_time (nxt st)"
    using computeFireTimes_loop by blast
  have "first_fire (F loc) st (nxt st)"
    using cron_next [OF assms(1), of st "window_start lastRun now" "wall now"] assms(2,3) st by simp
  then have n: "zone (nxt st) = loc" "wall (nxt st) \<in> F loc" "wall st < wall (nxt st)" "F loc \<inter> {wall st<..<wall (nxt st)} = {}"
    using st(2) by (simp_all add: first_fire_def)
  have "last_fire (F loc) (wall st) (wall (nxt st) - 1) zero_time" using n by (auto simp: last_fire_def)
  moreover have "F loc \<inter> {wall now<..<wall (nxt st)} = {}" using n st assms(2) by auto
  ultimately show ?thesis
    using fire_loop_returns [OF assms(1), of loc "wall st" "In_loc now loc" "nxt st" zero_time] n assms(3)
    by (simp add: st eq)
qed

lemma computeFireTimes_stuck:
  assumes "cron_law F nxt" and "zero_wall \<le> wall now" and "\<forall>z. F z \<inter> {wall now<..} = {}"
  shows "computeFireTimes nxt lastRun now loc = None"
proof -
  have stay: "\<not> After (nxt t) now" for t
    using cron_result [OF assms(1), of t] assms(2,3) by (auto simp: After_def zero_time_def)
  obtain st where "computeFireTimes nxt lastRun now loc = fire_loop nxt (In_loc now loc) zero_time (nxt st)"
    using computeFireTimes_loop by blast
  with stay show ?thesis by (simp add: fire_loop_stuck)
qed

text \<open>
  C13. Reading the schedule, in the time zone of the Scan. When the schedule keeps firing there, from the start of the window to
  \<open>now\<close>, the walk over fire times ends: the next fire time is the first one after \<open>now\<close>, given in that zone,
  the missed one is the latest that lies after the last run (or, for a first run, within one minute) and not after \<open>now\<close>, and the zero time
  when there is none. A schedule without fires after \<open>now\<close>, for which \<open>Next\<close> ends up giving the zero time,
  keeps the walk going for ever. The zones in which the clock and the last run are given play no part.
\<close>

theorem compute_fire_times_spec:
  assumes "cron_law F nxt" and "window_start lastRun now \<le> wall now" and "zero_wall \<le> wall now"
  shows "(keeps_firing (F loc) (window_start lastRun now) (wall now) \<longrightarrow>
      (\<exists>missed nextFire. computeFireTimes nxt lastRun now loc = Some (missed, nextFire) \<and>
        zone nextFire = loc \<and> wall nextFire \<in> F loc \<and> wall now < wall nextFire \<and> F loc \<inter> {wall now<..<wall nextFire} = {} \<and>
        (if missed_fires (F loc) lastRun now = {} then missed = zero_time
         else wall missed = Max (missed_fires (F loc) lastRun now)))) \<and>
    ((\<forall>z. F z \<inter> {wall now<..} = {}) \<longrightarrow> computeFireTimes nxt lastRun now loc = None)"
proof (intro conjI impI)
  assume "keeps_firing (F loc) (window_start lastRun now) (wall now)"
  from computeFireTimes_returns [OF assms(1,2) this] obtain m n where
    mn: "computeFireTimes nxt lastRun now loc = Some (m, n)" "zone n = loc" "wall n \<in> F loc" "wall now < wall n"
      "F loc \<inter> {wall now<..<wall n} = {}" and m: "last_fire (F loc) (window_start lastRun now) (wall now) m" by blast
  have "if missed_fires (F loc) lastRun now = {} then m = zero_time else wall m = Max (missed_fires (F loc) lastRun now)"
    using m last_fire_Max [OF m] by (simp add: missed_fires_def last_fire_def)
  with mn show "\<exists>missed nextFire. computeFireTimes nxt lastRun now loc = Some (missed, nextFire) \<and>
        zone nextFire = loc \<and> wall nextFire \<in> F loc \<and> wall now < wall nextFire \<and> F loc \<inter> {wall now<..<wall nextFire} = {} \<and>
        (if missed_fires (F loc) lastRun now = {} then missed = zero_time
         else wall missed = Max (missed_fires (F loc) lastRun now))" by blast
qed (rule computeFireTimes_stuck [OF assms(1,3)])

text \<open>Schedules that fire once every period, at an offset that depends on the zone.\<close>

definition nanos_per_hour :: int where
  "nanos_per_hour = 3600 * nanos_per_second"

lemma nanos_per_hour_pos [simp]: "0 < nanos_per_hour"
  by (simp add: nanos_per_hour_def nanos_per_second_def)

definition every :: "int \<Rightarrow> (string \<Rightarrow> int) \<Rightarrow> schedule" where
  "every p c t = t\<lparr>wall := c (zone t) + ((wall t - c (zone t)) div p + 1) * p\<rparr>"

definition ticks :: "int \<Rightarrow> int \<Rightarrow> int set" where
  "ticks p c = {f. p dvd f - c}"

lemma next_tick:
  assumes "0 < (p :: int)"
  shows "t < (t div p + 1) * p" and "p dvd x \<Longrightarrow> t < x \<Longrightarrow> (t div p + 1) * p \<le> x"
proof -
  have eq: "p * (t div p) + t mod p = t" by simp
  have "t mod p < p" using assms by simp
  moreover have "(t div p + 1) * p = p * (t div p) + p" by (simp add: algebra_simps)
  ultimately show "t < (t div p + 1) * p" using eq by linarith
  assume "p dvd x" and "t < x"
  then obtain k where k: "x = p * k" by blast
  have "t div p < k"
  proof (rule ccontr)
    assume "\<not> ?thesis"
    then have "p * k \<le> p * (t div p)" using assms by simp
    moreover have "0 \<le> t mod p" using assms by simp
    ultimately show False using eq k \<open>t < x\<close> by linarith
  qed
  then have "(t div p + 1) * p \<le> k * p" using assms by (intro mult_right_mono) (simp_all add: less_imp_le)
  with k show "(t div p + 1) * p \<le> x" by (simp add: mult.commute)
qed

lemma every_first:
  assumes "0 < p"
  shows "first_fire (ticks p (c (zone t))) t (every p c t)"
proof -
  let ?c = "c (zone t)"
  have later: "?c + ((wall t - ?c) div p + 1) * p \<le> f" if "p dvd f - ?c" "wall t < f" for f
    using next_tick(2) [OF assms that(1), of "wall t - ?c"] that(2) by linarith
  have "ticks p ?c \<inter> {wall t<..<?c + ((wall t - ?c) div p + 1) * p} = {}"
    by (rule Int_emptyI) (use later in \<open>fastforce simp: ticks_def\<close>)
  with next_tick(1) [OF assms, of "wall t - ?c"] show ?thesis by (simp add: first_fire_def every_def ticks_def)
qed

lemma every_law: "0 < p \<Longrightarrow> cron_law (\<lambda>z. ticks p (c z)) (every p c)"
  unfolding cron_law_def using every_first by blast

lemma every_keeps_firing:
  assumes "0 < p" and "p \<le> five_years"
  shows "keeps_firing (ticks p c) a b"
proof -
  have "\<exists>f \<in> ticks p c. x < f \<and> f \<le> x + five_years" for x
  proof (intro bexI conjI)
    let ?f = "c + ((x - c) div p + 1) * p"
    show "x < ?f" using next_tick(1) [OF assms(1), of "x - c"] by simp
    have "p * ((x - c) div p) \<le> x - c" using assms(1) mult_div_mod_eq [of p "x - c"] pos_mod_sign [OF assms(1), of "x - c"]
      by linarith
    then show "?f \<le> x + five_years" using assms(2) by (simp add: algebra_simps)
    show "?f \<in> ticks p c" by (simp add: ticks_def)
  qed
  then show ?thesis unfolding keeps_firing_def by fastforce
qed

text \<open>
  A schedule that fires at every full hour, the schedule \<open>0 4 * * *\<close> of every day at four in a world with two zones, and
  a schedule that never fires.
\<close>

definition hourly :: schedule where
  "hourly = every nanos_per_hour (\<lambda>z. 0)"

abbreviation hours :: "int set" where
  "hours \<equiv> ticks nanos_per_hour 0"

definition four_oclock :: "string \<Rightarrow> int" where
  "four_oclock z = (if z = ''Asia/Tokyo'' then - 5 * nanos_per_hour else 4 * nanos_per_hour)"

definition daily :: schedule where
  "daily = every (24 * nanos_per_hour) four_oclock"

definition never :: schedule where
  "never t = zero_time"

lemma next_hour:
  "t < (t div nanos_per_hour + 1) * nanos_per_hour"
  "nanos_per_hour dvd x \<Longrightarrow> t < x \<Longrightarrow> (t div nanos_per_hour + 1) * nanos_per_hour \<le> x"
  using next_tick [OF nanos_per_hour_pos] by blast+

lemma hourly_law: "cron_law (\<lambda>z. hours) hourly"
  unfolding hourly_def by (rule every_law [of nanos_per_hour "\<lambda>z. 0", simplified])

lemma hourly_keeps_firing: "keeps_firing hours a b"
  by (rule every_keeps_firing) (simp_all add: five_years_def nanos_per_hour_def nanos_per_second_def)

lemma daily_law: "cron_law (\<lambda>z. ticks (24 * nanos_per_hour) (four_oclock z)) daily"
  unfolding daily_def by (rule every_law) simp

lemma daily_keeps_firing: "keeps_firing (ticks (24 * nanos_per_hour) c) a b"
  by (rule every_keeps_firing) (simp_all add: five_years_def nanos_per_hour_def nanos_per_second_def)

lemma never_law: "cron_law (\<lambda>z. {}) never"
  by (simp add: cron_law_def never_def)

text \<open>One nanosecond after 1970 began in Greenwich, a Scan that has never run, and one that ran the second before.\<close>

definition ex_now :: gotime where
  "ex_now = \<lparr>wall = 1, zone = ''UTC''\<rparr>"

lemma ex_window: "window_start None ex_now \<le> wall ex_now" "zero_wall \<le> wall ex_now"
  by (simp_all add: window_start_def ex_now_def firstFireGrace_def zero_wall_def nanos_per_second_def)

lemma first_tick:
  assumes "t \<in> ticks p c" and "x < t" and "ticks p c \<inter> {x<..<t} = {}" and "u \<in> ticks p c" and "x < u" and "u - p \<le> x"
  shows "t = u"
proof (rule ccontr)
  assume "t \<noteq> u"
  moreover have "\<not> u < t" using assms(3-5) by (auto simp: disjoint_iff)
  ultimately have "t < u" by simp
  have "p dvd u - t" using dvd_diff [of p "u - c" "t - c"] assms(1,4) by (simp add: ticks_def)
  with \<open>t < u\<close> have "p \<le> u - t" by (simp add: zdvd_imp_le)
  with assms(2,6) show False by linarith
qed

theorem compute_fire_times_spec_witness:
  "(\<exists>missed nextFire. computeFireTimes hourly None ex_now ''UTC'' = Some (missed, nextFire) \<and>
      wall missed = 0 \<and> wall nextFire = nanos_per_hour) \<and>
   (\<exists>missed nextFire. computeFireTimes daily None ex_now ''Asia/Tokyo'' = Some (missed, nextFire) \<and>
      zone nextFire = ''Asia/Tokyo'' \<and> wall nextFire = 19 * nanos_per_hour) \<and>
   (\<exists>missed nextFire. computeFireTimes daily None ex_now ''UTC'' = Some (missed, nextFire) \<and>
      zone nextFire = ''UTC'' \<and> wall nextFire = 4 * nanos_per_hour) \<and>
   computeFireTimes never None ex_now ''UTC'' = None"
proof (intro conjI)
  note big = nanos_per_hour_def nanos_per_second_def ex_now_def
  have "missed_fires hours None ex_now = {0}"
    by (auto simp: missed_fires_def window_start_def firstFireGrace_def ticks_def big elim!: dvdE)
  then obtain m n where "computeFireTimes hourly None ex_now ''UTC'' = Some (m, n)" "wall m = 0"
    and n: "wall n \<in> hours" "wall ex_now < wall n" "hours \<inter> {wall ex_now<..<wall n} = {}"
    using compute_fire_times_spec [OF hourly_law ex_window, THEN conjunct1, THEN mp, OF hourly_keeps_firing, of "''UTC''"]
    by auto
  moreover have "wall n = nanos_per_hour" by (rule first_tick [OF n]) (simp_all add: ticks_def big)
  ultimately show "\<exists>missed nextFire. computeFireTimes hourly None ex_now ''UTC'' = Some (missed, nextFire) \<and>
      wall missed = 0 \<and> wall nextFire = nanos_per_hour" by blast
  have day: "\<exists>missed nextFire. computeFireTimes daily None ex_now z = Some (missed, nextFire) \<and> zone nextFire = z \<and> wall nextFire = u"
    if "u \<in> ticks (24 * nanos_per_hour) (four_oclock z)" "wall ex_now < u" "u - 24 * nanos_per_hour \<le> wall ex_now" for z u
  proof -
    obtain m n where "computeFireTimes daily None ex_now z = Some (m, n)" "zone n = z"
      and n: "wall n \<in> ticks (24 * nanos_per_hour) (four_oclock z)" "wall ex_now < wall n"
        "ticks (24 * nanos_per_hour) (four_oclock z) \<inter> {wall ex_now<..<wall n} = {}"
      using compute_fire_times_spec [OF daily_law ex_window, THEN conjunct1, THEN mp, OF daily_keeps_firing, of z] by auto
    with first_tick [OF n that] show ?thesis by blast
  qed
  show "\<exists>missed nextFire. computeFireTimes daily None ex_now ''Asia/Tokyo'' = Some (missed, nextFire) \<and>
      zone nextFire = ''Asia/Tokyo'' \<and> wall nextFire = 19 * nanos_per_hour"
    by (rule day) (simp_all add: ticks_def four_oclock_def big)
  show "\<exists>missed nextFire. computeFireTimes daily None ex_now ''UTC'' = Some (missed, nextFire) \<and>
      zone nextFire = ''UTC'' \<and> wall nextFire = 4 * nanos_per_hour"
    by (rule day) (simp_all add: ticks_def four_oclock_def big)
  show "computeFireTimes never None ex_now ''UTC'' = None"
    using compute_fire_times_spec [OF never_law ex_window, of "''UTC''"] by simp
qed

end
