(* ===== verification/ScanProperties.thy ===== *)
theory ScanProperties
  imports ScanSchedule
begin

text \<open>
  What the Scan controller guarantees: what it learns from its Runs, when it creates one and when it
  must, when it wakes up again, what its Ready condition says, and what pruning deletes.
\<close>

section \<open>The Runs of a Scan\<close>

text \<open>Completion times of the Scan's ended Runs whose phase satisfies \<open>P\<close>.\<close>

definition completions :: "RenovateScan \<Rightarrow> (RunPhase \<Rightarrow> bool) \<Rightarrow> RenovateRun list \<Rightarrow> gotime list" where
  "completions scan P runs = concat (map (\<lambda>run.
     if ownedByScan run scan \<and> isTerminal (run_phase run) \<and> P (run_phase run)
     then (case rst_completionTime (run_status run) of None \<Rightarrow> [] | Some t \<Rightarrow> [t]) else []) runs)"

text \<open>\<open>new\<close> is a latest instant of \<open>ts\<close>, or the old value when there is none.\<close>

definition is_latest :: "gotime list \<Rightarrow> gotime option \<Rightarrow> gotime option \<Rightarrow> bool" where
  "is_latest ts old new =
     (if ts = [] then new = old else \<exists>t\<in>set ts. new = Some t \<and> list_all (\<lambda>u. \<not> After u t) ts)"


lemma foldl_later_Some:
  "\<exists>t\<in>insert a (set ts). foldl later (Some a) ts = Some t \<and> (\<forall>u\<in>insert a (set ts). wall u \<le> wall t)"
proof (induction ts arbitrary: a)
  case Nil
  then show ?case by simp
next
  case (Cons x ts)
  show ?case
  proof (cases "After x a")
    case True
    with Cons.IH [of x] show ?thesis by (fastforce simp: later_def After_def)
  next
    case False
    with Cons.IH [of a] show ?thesis by (fastforce simp: later_def After_def)
  qed
qed

lemma foldl_later_latest: "is_latest ts old (if foldl later None ts \<noteq> None then foldl later None ts else old)"
proof (cases ts)
  case Nil
  then show ?thesis by (simp add: is_latest_def)
next
  case (Cons a as)
  obtain t where "t \<in> insert a (set as)" "foldl later (Some a) as = Some t"
      "\<forall>u\<in>insert a (set as). wall u \<le> wall t"
    using foldl_later_Some [of a as] by blast
  moreover have "foldl later None ts = foldl later (Some a) as" by (simp add: Cons later_def)
  ultimately show ?thesis using Cons by (auto simp: is_latest_def list_all_iff After_def not_less)
qed

lemma refresh_loop_eq:
  "refresh_loop scan runs active lr ls =
     (active @ map runRef (filter (\<lambda>run. ownedByScan run scan \<and> \<not> isTerminal (run_phase run)) runs),
      foldl later lr (completions scan (\<lambda>p. True) runs),
      foldl later ls (completions scan (\<lambda>p. p = RunPhaseSucceeded) runs))"
  by (induction runs arbitrary: active lr ls)
    (auto simp: completions_def isTerminal_def split: option.split)

abbreviation refreshed :: "RenovateScan \<Rightarrow> RenovateRun list \<Rightarrow> RenovateScanStatus \<Rightarrow> RenovateScanStatus" where
  "refreshed scan runs st \<equiv>
     (let lr = foldl later None (completions scan (\<lambda>p. True) runs);
          ls = foldl later None (completions scan (\<lambda>p. p = RunPhaseSucceeded) runs)
      in st\<lparr>sst_activeRuns := map runRef (filter (\<lambda>run. ownedByScan run scan \<and> \<not> isTerminal (run_phase run)) runs),
            sst_lastRunTime := (if lr \<noteq> None then lr else sst_lastRunTime st),
            sst_lastSuccessfulRunTime := (if ls \<noteq> None then ls else sst_lastSuccessfulRunTime st)\<rparr>)"

lemma refreshActiveRuns_eq:
  "refreshActiveRuns S scan s =
     map_sum id (\<lambda>runs. on_sstatus (refreshed scan runs) scan) (List_Runs (sc_Client S) (m_namespace (scan_meta scan)) s)"
  by (simp add: refreshActiveRuns_def refresh_loop_eq Let_def split: sum.split)

lemma refreshActiveRuns_status:
  assumes "List_Runs (sc_Client S) (m_namespace (scan_meta scan)) s = Inr runs"
    and "refreshActiveRuns S scan s = Inr scan1"
  shows "sst_activeRuns (scan_status scan1) =
      map runRef (filter (\<lambda>run. ownedByScan run scan \<and> \<not> isTerminal (run_phase run)) runs)"
    and "is_latest (completions scan (\<lambda>p. True) runs) (sst_lastRunTime (scan_status scan)) (sst_lastRunTime (scan_status scan1))"
    and "is_latest (completions scan (\<lambda>p. p = RunPhaseSucceeded) runs)
      (sst_lastSuccessfulRunTime (scan_status scan)) (sst_lastSuccessfulRunTime (scan_status scan1))"
proof -
  have eq: "scan1 = on_sstatus (refreshed scan runs) scan" using assms by (simp add: refreshActiveRuns_eq)
  show "sst_activeRuns (scan_status scan1) =
      map runRef (filter (\<lambda>run. ownedByScan run scan \<and> \<not> isTerminal (run_phase run)) runs)"
    by (simp add: eq Let_def)
  show "is_latest (completions scan (\<lambda>p. True) runs) (sst_lastRunTime (scan_status scan)) (sst_lastRunTime (scan_status scan1))"
    using foldl_later_latest [of _ "sst_lastRunTime (scan_status scan)"] by (simp add: eq Let_def)
  show "is_latest (completions scan (\<lambda>p. p = RunPhaseSucceeded) runs)
      (sst_lastSuccessfulRunTime (scan_status scan)) (sst_lastSuccessfulRunTime (scan_status scan1))"
    using foldl_later_latest [of _ "sst_lastSuccessfulRunTime (scan_status scan)"] by (simp add: eq Let_def)
qed

lemma refreshActiveRuns_frame:
  assumes "refreshActiveRuns S scan s = Inr scan1"
  shows "scan_meta scan1 = scan_meta scan" and "scan_spec scan1 = scan_spec scan"
    and "sst_conditions (scan_status scan1) = sst_conditions (scan_status scan)"
    and "\<exists>runs. List_Runs (sc_Client S) (m_namespace (scan_meta scan)) s = Inr runs"
  using assms by (cases "List_Runs (sc_Client S) (m_namespace (scan_meta scan)) s",
      auto simp: refreshActiveRuns_eq Let_def)+

text \<open>
  C21. What the Scan learns from the Runs it owns: the active Runs are exactly the owned ones that have
  not ended, in list order; the last run time is the latest completion of an ended one, and the
  last successful run time that of a Succeeded one. Either time is kept only when no owned Run
  has completed; otherwise it is replaced whatever it was, even by an earlier instant.
\<close>

theorem refresh_active_runs_spec:
  assumes "List_Runs (sc_Client S) (m_namespace (scan_meta scan)) s = Inr runs"
  shows "\<exists>st. refreshActiveRuns S scan s = Inr (scan\<lparr>scan_status := st\<rparr>) \<and>
    sst_activeRuns st = map runRef (filter (\<lambda>run. ownedByScan run scan \<and> \<not> isTerminal (run_phase run)) runs) \<and>
    is_latest (completions scan (\<lambda>p. True) runs) (sst_lastRunTime (scan_status scan)) (sst_lastRunTime st) \<and>
    is_latest (completions scan (\<lambda>p. p = RunPhaseSucceeded) runs)
      (sst_lastSuccessfulRunTime (scan_status scan)) (sst_lastSuccessfulRunTime st)"
proof -
  have r: "refreshActiveRuns S scan s = Inr (on_sstatus (refreshed scan runs) scan)"
    using assms by (simp add: refreshActiveRuns_eq)
  show ?thesis
    by (rule exI [of _ "refreshed scan runs (scan_status scan)"], intro conjI)
      (use r refreshActiveRuns_status [OF assms r] in simp_all)
qed

section \<open>Gates\<close>

text \<open>
  A Scan that gets as far as its schedule: not suspended, its Platform there and Ready, the schedule
  and time zone valid, and its Runs listed; \<open>scan1\<close> is the Scan after the refresh.
\<close>

abbreviation scan_observed :: "RenovateScan \<Rightarrow> RenovateScan" where
  "scan_observed scan \<equiv> on_sstatus (\<lambda>st. st\<lparr>sst_observedGeneration := m_generation (scan_meta scan)\<rparr>) scan"

definition scan_passes ::
  "'s RenovateScanReconciler \<Rightarrow> RenovateScan \<Rightarrow> 's \<Rightarrow> RenovatePlatform \<Rightarrow> string \<Rightarrow> schedule \<Rightarrow> RenovateScan \<Rightarrow> bool" where
  "scan_passes S scan s platform loc sched scan1 =
     (\<not> ss_suspend (scan_spec scan) \<and>
      Get_Platform (sc_Client S) (lor_name (ss_platformRef (scan_spec scan))) s = Inr platform \<and>
      IsTrue (sc_meta S) (pst_conditions (plat_status platform)) TypeReady \<and>
      parseSchedule S (ss_schedule (scan_spec scan)) (ss_timeZone (scan_spec scan)) = Inr (loc, sched) \<and>
      refreshActiveRuns S (scan_observed scan) s = Inr scan1)"

text \<open>The instant the reconcile works with.\<close>

abbreviation scan_now :: "'s RenovateScanReconciler \<Rightarrow> ('s, 'n) world \<Rightarrow> gotime" where
  "scan_now S w \<equiv> sc_Clock S (w_ticks w)"

text \<open>The Scan that \<open>fireScan\<close> works on: refreshed, marked Ready, with the next run time.\<close>

definition scan_readied :: "'s RenovateScanReconciler \<Rightarrow> nat \<Rightarrow> gotime \<Rightarrow> RenovateScan \<Rightarrow> RenovateScan" where
  "scan_readied S k nextFire scan1 = on_sstatus (\<lambda>st. st\<lparr>
     sst_conditions := mark_true (sc_meta S) (sc_metaNow S k) (sst_conditions st) TypeReady ReasonNextRunComputed
       ''scan is ready to fire'' (m_generation (scan_meta scan1)),
     sst_nextRunTime := Some nextFire\<rparr>) scan1"

lemma scan_readied_frame [simp]:
  "scan_meta (scan_readied S k n scan1) = scan_meta scan1"
  "scan_spec (scan_readied S k n scan1) = scan_spec scan1"
  "sst_activeRuns (scan_status (scan_readied S k n scan1)) = sst_activeRuns (scan_status scan1)"
  "sst_nextRunTime (scan_status (scan_readied S k n scan1)) = Some n"
  by (simp_all add: scan_readied_def)

lemma scan_reconcile_passes:
  assumes "scan_passes S scan (w_cluster w) platform loc sched scan1"
  obtains w2 where "w_cluster w2 = w_cluster w" and
    "scan_reconcile S scan w = map_option (\<lambda>(missed, nextFire).
       fireScan S platform (scan_now S w) missed nextFire (scan_readied S (Suc (w_ticks w)) nextFire scan1) w2)
       (computeFireTimes sched (sst_lastRunTime (scan_status scan1)) (scan_now S w) loc)"
proof -
  define w2 where "w2 = (emit (ActiveRuns (scan_name scan1) (platform_string (ps_platformType (plat_spec platform)))
      (length (sst_activeRuns (scan_status scan1)))) (w\<lparr>w_ticks := Suc (w_ticks w)\<rparr>))\<lparr>w_ticks := Suc (Suc (w_ticks w))\<rparr>"
  have "scan_reconcile S scan w = map_option (\<lambda>(missed, nextFire).
       fireScan S platform (scan_now S w) missed nextFire (scan_readied S (Suc (w_ticks w)) nextFire scan1) w2)
       (computeFireTimes sched (sst_lastRunTime (scan_status scan1)) (scan_now S w) loc)"
    using assms by (simp add: scan_passes_def scan_reconcile_def scan_mark_def read_clock_def w2_def scan_readied_def
        Let_def split: option.split prod.split)
  moreover have "w_cluster w2 = w_cluster w" by (simp add: w2_def)
  ultimately show ?thesis by (rule that [rotated])
qed

lemma scan_reconcile_fired:
  assumes "scan_passes S scan (w_cluster w) platform loc sched scan1" and "scan_reconcile S scan w = Some x"
  obtains missed nextFire w2 where
    "computeFireTimes sched (sst_lastRunTime (scan_status scan1)) (scan_now S w) loc = Some (missed, nextFire)"
    and "fireScan S platform (scan_now S w) missed nextFire (scan_readied S (Suc (w_ticks w)) nextFire scan1) w2 = x"
    and "w_cluster w2 = w_cluster w"
proof -
  obtain w2 where w2: "w_cluster w2 = w_cluster w" and eq:
    "scan_reconcile S scan w = map_option (\<lambda>(missed, nextFire).
       fireScan S platform (scan_now S w) missed nextFire (scan_readied S (Suc (w_ticks w)) nextFire scan1) w2)
       (computeFireTimes sched (sst_lastRunTime (scan_status scan1)) (scan_now S w) loc)"
    by (rule scan_reconcile_passes [OF assms(1)])
  with assms(2) show ?thesis by (auto intro: that)
qed

lemma scan_reconcile_stops:
  assumes "\<not> (\<exists>platform loc sched scan1. scan_passes S scan (w_cluster w) platform loc sched scan1)"
  shows "\<exists>oc scan' w'. scan_reconcile S scan w = Some (oc, scan', w') \<and> w_cluster w' = w_cluster w"
  using assms unfolding scan_passes_def scan_reconcile_def scan_mark_def read_clock_def Let_def
  by (cases "ss_suspend (scan_spec scan)";
      cases "Get_Platform (sc_Client S) (lor_name (ss_platformRef (scan_spec scan))) (w_cluster w)";
      cases "parseSchedule S (ss_schedule (scan_spec scan)) (ss_timeZone (scan_spec scan))";
      cases "refreshActiveRuns S (scan_observed scan) (w_cluster w)")
    (auto split: prod.split)

section \<open>Firing\<close>

lemma newRun_scan_cong:
  "scan_meta a = scan_meta b \<Longrightarrow> scan_spec a = scan_spec b \<Longrightarrow> newRun S a p t = newRun S b p t"
  by (simp add: newRun_def)

lemma gcOldRuns_scan_cong:
  assumes "scan_meta a = scan_meta b" and "scan_spec a = scan_spec b"
  shows "gcOldRuns S a s = gcOldRuns S b s"
  unfolding gcOldRuns_def ownedByScan_def assms ..

lemma shouldSkip_active:
  "shouldSkipForConcurrency scan \<longleftrightarrow>
     sst_activeRuns (scan_status scan) \<noteq> [] \<and> ss_concurrencyPolicy (scan_spec scan) \<noteq> AllowConcurrent"
  by (simp add: shouldSkipForConcurrency_def split: ConcurrencyPolicy.split)

lemma fireScan_idle:
  assumes "IsZero missed \<or> shouldSkipForConcurrency scan"
  shows "\<exists>scan' w'. fireScan S platform now missed nextFire scan w =
      ((requeue_in (capRequeueAfter (Sub_time nextFire now)), None), scan', w') \<and> w_cluster w' = w_cluster w \<and>
      sst_nextRunTime (scan_status scan') = sst_nextRunTime (scan_status scan) \<and>
      sst_lastRunTime (scan_status scan') = sst_lastRunTime (scan_status scan)"
  using assms by (auto simp: fireScan_def scan_mark_def read_clock_def Let_def)

lemma fireScan_creates:
  assumes "\<not> IsZero missed" and "\<not> shouldSkipForConcurrency scan"
    and "Create_Run (sc_Client S) (newRun S scan platform missed) (w_cluster w) = (Inr run, s1)"
    and "gcOldRuns S scan s1 = (None, s2)"
  shows "\<exists>scan' w'. fireScan S platform now missed nextFire scan w =
      ((requeue_in (capRequeueAfter (Sub_time nextFire now)), None), scan', w') \<and> w_cluster w' = s2 \<and>
      sst_nextRunTime (scan_status scan') = sst_nextRunTime (scan_status scan) \<and>
      sst_lastRunTime (scan_status scan') = Some missed \<and> sst_lastRunRef (scan_status scan') = Some (runRef run)"
proof -
  have gc: "gcOldRuns S (scan\<lparr>scan_status := st\<rparr>) s1 = (None, s2)" for st
    using assms(4) by (simp add: gcOldRuns_scan_cong [of "scan\<lparr>scan_status := st\<rparr>" scan])
  show ?thesis
    using assms(1-3) by (auto simp: fireScan_def createRun_def on_cluster_def scan_mark_def read_clock_def gc Let_def)
qed

text \<open>
  C7. A Scan touches the cluster only when it is due: if a reconcile changed anything, the Scan was not
  suspended, its Platform was Ready, its schedule valid, a fire time had been missed, and its
  concurrency policy is Allow or none of the Runs it owns was still active.
\<close>

theorem scan_fires_only_when_due:
  assumes "scan_reconcile S scan w = Some (oc, scan', w')" and "w_cluster w' \<noteq> w_cluster w"
  shows "\<exists>platform loc sched scan1 missed nextFire runs.
    scan_passes S scan (w_cluster w) platform loc sched scan1 \<and>
    computeFireTimes sched (sst_lastRunTime (scan_status scan1)) (scan_now S w) loc = Some (missed, nextFire) \<and>
    \<not> IsZero missed \<and>
    List_Runs (sc_Client S) (m_namespace (scan_meta scan)) (w_cluster w) = Inr runs \<and>
    (ss_concurrencyPolicy (scan_spec scan) = AllowConcurrent \<or>
     (\<nexists>run. run \<in> set runs \<and> ownedByScan run scan \<and> \<not> isTerminal (run_phase run)))"
proof -
  obtain platform loc sched scan1 where ps: "scan_passes S scan (w_cluster w) platform loc sched scan1"
    using scan_reconcile_stops [of S scan w] assms by fastforce
  then obtain missed nextFire w2 where
    cf: "computeFireTimes sched (sst_lastRunTime (scan_status scan1)) (scan_now S w) loc = Some (missed, nextFire)"
    and fs: "fireScan S platform (scan_now S w) missed nextFire (scan_readied S (Suc (w_ticks w)) nextFire scan1) w2
      = (oc, scan', w')" and w2: "w_cluster w2 = w_cluster w"
    using assms(1) by (rule scan_reconcile_fired)
  have due: "\<not> IsZero missed" "\<not> shouldSkipForConcurrency (scan_readied S (Suc (w_ticks w)) nextFire scan1)"
    using fireScan_idle [of missed "scan_readied S (Suc (w_ticks w)) nextFire scan1" S platform "scan_now S w" nextFire w2]
      fs w2 assms(2) by auto
  have rf: "refreshActiveRuns S (scan_observed scan) (w_cluster w) = Inr scan1" using ps by (simp add: scan_passes_def)
  note fr = refreshActiveRuns_frame [OF rf]
  from fr(4) obtain runs where l: "List_Runs (sc_Client S) (m_namespace (scan_meta scan)) (w_cluster w) = Inr runs" by auto
  have "sst_activeRuns (scan_status scan1) =
      map runRef (filter (\<lambda>run. ownedByScan run (scan_observed scan) \<and> \<not> isTerminal (run_phase run)) runs)"
    using refreshActiveRuns_status(1) [OF _ rf] l by simp
  then have "ss_concurrencyPolicy (scan_spec scan) = AllowConcurrent \<or>
      (\<nexists>run. run \<in> set runs \<and> ownedByScan run scan \<and> \<not> isTerminal (run_phase run))"
    using due(2) fr(2) by (auto simp: shouldSkip_active ownedByScan_def filter_empty_conv)
  with ps cf due(1) l show ?thesis by blast
qed

lemma scan_reconcile_creates:
  assumes "scan_passes S scan (w_cluster w) platform loc sched scan1"
    and "computeFireTimes sched (sst_lastRunTime (scan_status scan1)) (scan_now S w) loc = Some (missed, nextFire)"
    and "\<not> IsZero missed" and "\<not> shouldSkipForConcurrency scan1"
    and "Create_Run (sc_Client S) (newRun S scan platform missed) (w_cluster w) = (Inr run, s1)"
    and "gcOldRuns S scan s1 = (None, s2)"
  shows "\<exists>scan' w'. scan_reconcile S scan w =
      Some ((requeue_in (capRequeueAfter (Sub_time nextFire (scan_now S w))), None), scan', w') \<and>
      w_cluster w' = s2 \<and> sst_lastRunTime (scan_status scan') = Some missed \<and>
      sst_lastRunRef (scan_status scan') = Some (runRef run) \<and> sst_nextRunTime (scan_status scan') = Some nextFire"
proof -
  let ?scan2 = "scan_readied S (Suc (w_ticks w)) nextFire scan1"
  obtain w2 where w2: "w_cluster w2 = w_cluster w" and eq: "scan_reconcile S scan w =
      Some (fireScan S platform (scan_now S w) missed nextFire ?scan2 w2)"
    using scan_reconcile_passes [OF assms(1)] assms(2) by auto
  have rf: "refreshActiveRuns S (scan_observed scan) (w_cluster w) = Inr scan1"
    using assms(1) by (simp add: scan_passes_def)
  have same: "scan_meta ?scan2 = scan_meta scan" "scan_spec ?scan2 = scan_spec scan"
    using refreshActiveRuns_frame(1,2) [OF rf] by simp_all
  have "\<not> shouldSkipForConcurrency ?scan2" using assms(4) by (simp add: shouldSkip_active)
  moreover have "Create_Run (sc_Client S) (newRun S ?scan2 platform missed) (w_cluster w2) = (Inr run, s1)"
    using assms(5) w2 newRun_scan_cong [OF same, of S platform missed] by simp
  moreover have "gcOldRuns S ?scan2 s1 = (None, s2)" using assms(6) by (simp only: gcOldRuns_scan_cong [OF same])
  ultimately have "\<exists>scan' w'. fireScan S platform (scan_now S w) missed nextFire ?scan2 w2 =
      ((requeue_in (capRequeueAfter (Sub_time nextFire (scan_now S w))), None), scan', w') \<and> w_cluster w' = s2 \<and>
      sst_nextRunTime (scan_status scan') = sst_nextRunTime (scan_status ?scan2) \<and>
      sst_lastRunTime (scan_status scan') = Some missed \<and> sst_lastRunRef (scan_status scan') = Some (runRef run)"
    by (rule fireScan_creates [OF assms(3)])
  then show ?thesis by (auto simp: eq)
qed

text \<open>
  C8. A due Scan fires: when it passes its gates, has missed a fire time and is not held back by its
  concurrency policy, and the API server accepts the Run and the deletions, one reconcile leaves
  the cluster with the Run \<^const>\<open>newRun\<close> created and the history pruned. That Run is owned by the
  Scan and carries both specifications as they are now; the Scan remembers the missed fire time as
  its last run.
\<close>

theorem scan_fires_when_due:
  assumes "scan_passes S scan (w_cluster w) platform loc sched scan1"
    and "computeFireTimes sched (sst_lastRunTime (scan_status scan1)) (scan_now S w) loc = Some (missed, nextFire)"
    and "\<not> IsZero missed" and "\<not> shouldSkipForConcurrency scan1"
    and "Create_Run (sc_Client S) (newRun S scan platform missed) (w_cluster w) = (Inr run, s1)"
    and "gcOldRuns S scan s1 = (None, s2)"
  shows "\<exists>scan' w'. scan_reconcile S scan w =
      Some ((requeue_in (capRequeueAfter (Sub_time nextFire (scan_now S w))), None), scan', w') \<and>
      w_cluster w' = s2 \<and> sst_lastRunTime (scan_status scan') = Some missed \<and>
      sst_lastRunRef (scan_status scan') = Some (runRef run) \<and> sst_nextRunTime (scan_status scan') = Some nextFire \<and>
      ownedByScan (newRun S scan platform missed) scan \<and>
      rs_platformSnapshot (run_spec (newRun S scan platform missed)) = plat_spec platform \<and>
      rs_scanSnapshot (run_spec (newRun S scan platform missed)) = scan_spec scan"
  using scan_reconcile_creates [OF assms] by (simp add: newRun_def ownedByScan_def)

section \<open>Waking up\<close>

lemma capRequeueAfter_bounds:
  "0 < capRequeueAfter d" "capRequeueAfter d \<le> requeueAfterMax" "0 < d \<Longrightarrow> capRequeueAfter d \<le> d"
  by (auto simp: capRequeueAfter_def requeueAfterMax_def nanos_per_second_def)

lemma fireScan_requeue:
  assumes "fireScan S platform now missed nextFire scan w = ((res, None), scan', w')"
  shows "res = requeue_in (capRequeueAfter (Sub_time nextFire now))"
    and "sst_nextRunTime (scan_status scan') = sst_nextRunTime (scan_status scan)"
  using assms by (auto simp: fireScan_def createRun_def scan_mark_def read_clock_def Let_def
      split: if_splits prod.splits sum.splits option.splits)

text \<open>
  C22. The controller does not oversleep: after a reconcile without error of a Scan that passed its
  gates and whose schedule keeps firing in the Scan's time zone, the next one is asked for in more than zero and at most five
  minutes, and not later than the next fire time the status shows, which is the first after now in that zone.
\<close>

theorem scan_wakes_for_next_fire:
  assumes "scan_passes S scan (w_cluster w) platform loc sched scan1" and "cron_law F sched"
    and "window_start (sst_lastRunTime (scan_status scan1)) (scan_now S w) \<le> wall (scan_now S w)"
    and "keeps_firing (F loc) (window_start (sst_lastRunTime (scan_status scan1)) (scan_now S w)) (wall (scan_now S w))"
    and "scan_reconcile S scan w = Some ((res, None), scan', w')"
  shows "\<exists>nextFire. sst_nextRunTime (scan_status scan') = Some nextFire \<and> zone nextFire = loc \<and>
    wall nextFire \<in> F loc \<and> F loc \<inter> {wall (scan_now S w)<..<wall nextFire} = {} \<and>
    0 < cr_RequeueAfter res \<and> cr_RequeueAfter res \<le> requeueAfterMax \<and>
    wall (scan_now S w) + cr_RequeueAfter res \<le> wall nextFire"
proof -
  from computeFireTimes_returns [OF assms(2-4)] obtain missed nextFire where
    cf: "computeFireTimes sched (sst_lastRunTime (scan_status scan1)) (scan_now S w) loc = Some (missed, nextFire)"
    and n: "zone nextFire = loc" "wall nextFire \<in> F loc" "F loc \<inter> {wall (scan_now S w)<..<wall nextFire} = {}"
    and later: "wall (scan_now S w) < wall nextFire" by blast
  obtain w2 where "scan_reconcile S scan w = Some (fireScan S platform (scan_now S w) missed nextFire
      (scan_readied S (Suc (w_ticks w)) nextFire scan1) w2)"
    using scan_reconcile_passes [OF assms(1)] cf by auto
  with assms(5) have fs: "fireScan S platform (scan_now S w) missed nextFire
      (scan_readied S (Suc (w_ticks w)) nextFire scan1) w2 = ((res, None), scan', w')" by simp
  let ?d = "Sub_time nextFire (scan_now S w)"
  have d: "0 < ?d" "?d \<le> wall nextFire - wall (scan_now S w)"
    using later by (simp_all add: Sub_time_def min_duration_def max_duration_def)
  from fireScan_requeue [OF fs] capRequeueAfter_bounds [of ?d] d n show ?thesis
    by (auto simp: requeue_in_def)
qed

section \<open>The Ready condition\<close>

lemma scan_marked:
  assumes "scan_mark mark S ty rs msg a w = (b, w')"
    and "sst_conditions (scan_status a) = cs" and "scan_meta a = m"
  shows "\<exists>k msg. sst_conditions (scan_status b) = mark (sc_meta S) (sc_metaNow S k) cs ty rs msg (m_generation m)"
proof -
  from assms have "sst_conditions (scan_status b) = mark (sc_meta S) (sc_metaNow S (w_ticks w)) cs ty rs msg (m_generation m)"
    by (auto simp: scan_mark_def read_clock_def)
  then show ?thesis by blast
qed

lemma fireScan_conditions:
  assumes "fireScan S platform now missed nextFire scan w = ((res, None), scan', w')"
  shows "\<exists>k msg. sst_conditions (scan_status scan') = mark_true (sc_meta S) (sc_metaNow S k)
    (sst_conditions (scan_status scan)) TypeScheduled ReasonNextRunComputed msg (m_generation (scan_meta scan))"
  using assms by (auto simp: fireScan_def createRun_def Let_def
      split: if_splits prod.splits sum.splits option.splits intro: scan_marked)

definition sound_scan_libs :: "'s RenovateScanReconciler \<Rightarrow> bool" where
  "sound_scan_libs S = (meta_conditions (sc_meta S) \<and> (\<forall>k. \<not> IsZero (sc_metaNow S k)))"

lemma scan_marks:
  assumes "sound_scan_libs S"
  shows "IsTrue (sc_meta S) (mark_true (sc_meta S) (sc_metaNow S k) cs ty rs ms g) ty' \<longleftrightarrow> ty' = ty \<or> IsTrue (sc_meta S) cs ty'"
    and "IsTrue (sc_meta S) (mark_false (sc_meta S) (sc_metaNow S k) cs ty rs ms g) ty' \<longleftrightarrow> ty' \<noteq> ty \<and> IsTrue (sc_meta S) cs ty'"
    and "condition_reason (sc_meta S) (mark_true (sc_meta S) (sc_metaNow S k) cs ty rs ms g) ty' =
      (if ty' = ty then Some rs else condition_reason (sc_meta S) cs ty')"
    and "condition_reason (sc_meta S) (mark_false (sc_meta S) (sc_metaNow S k) cs ty rs ms g) ty' =
      (if ty' = ty then Some rs else condition_reason (sc_meta S) cs ty')"
proof -
  have M: "meta_conditions (sc_meta S)" and nz: "\<not> IsZero (sc_metaNow S k)"
    using assms by (simp_all add: sound_scan_libs_def)
  note marks = meta_conditions.cond_marks(1,2) [OF M nz] and reasons = meta_conditions.reason_marks [OF M nz]
  show "IsTrue (sc_meta S) (mark_true (sc_meta S) (sc_metaNow S k) cs ty rs ms g) ty' \<longleftrightarrow> ty' = ty \<or> IsTrue (sc_meta S) cs ty'"
    by (rule marks(1))
  show "IsTrue (sc_meta S) (mark_false (sc_meta S) (sc_metaNow S k) cs ty rs ms g) ty' \<longleftrightarrow> ty' \<noteq> ty \<and> IsTrue (sc_meta S) cs ty'"
    by (rule marks(2))
  show "condition_reason (sc_meta S) (mark_true (sc_meta S) (sc_metaNow S k) cs ty rs ms g) ty' =
      (if ty' = ty then Some rs else condition_reason (sc_meta S) cs ty')" by (rule reasons(1))
  show "condition_reason (sc_meta S) (mark_false (sc_meta S) (sc_metaNow S k) cs ty rs ms g) ty' =
      (if ty' = ty then Some rs else condition_reason (sc_meta S) cs ty')" by (rule reasons(2))
qed

text \<open>The verdict on a Scan's gates: the reason shown, and the delay when a gate is closed.\<close>

definition scan_verdict :: "'s RenovateScanReconciler \<Rightarrow> RenovateScan \<Rightarrow> 's \<Rightarrow> string \<times> int option" where
  "scan_verdict S scan s =
     (if ss_suspend (scan_spec scan) then (ReasonSuspended, Some 0)
      else case Get_Platform (sc_Client S) (lor_name (ss_platformRef (scan_spec scan))) s of
        Inl e \<Rightarrow> (ReasonPlatformNotReady, Some requeueAfterPlatformPending)
      | Inr p \<Rightarrow>
          if \<not> IsTrue (sc_meta S) (pst_conditions (plat_status p)) TypeReady
          then (ReasonPlatformNotReady, Some requeueAfterPlatformPending)
          else (case parseSchedule S (ss_schedule (scan_spec scan)) (ss_timeZone (scan_spec scan)) of
                  Inl e \<Rightarrow> (ReasonInvalidSchedule, Some 0)
                | Inr x \<Rightarrow> (ReasonNextRunComputed, None)))"

lemma scan_verdict_open:
  assumes "scan_verdict S scan s = (reason, None)" and "refreshActiveRuns S (scan_observed scan) s = Inr scan1"
  shows "\<exists>platform loc sched. scan_passes S scan s platform loc sched scan1" and "reason = ReasonNextRunComputed"
  using assms by (auto simp: scan_verdict_def scan_passes_def split: if_splits sum.splits)

lemma scan_reconcile_closed:
  assumes "scan_verdict S scan (w_cluster w) = (reason, Some d)"
    and "scan_reconcile S scan w = Some ((res, None), scan', w')"
  shows "cr_RequeueAfter res = d \<and> (\<exists>k msg. sst_conditions (scan_status scan') = mark_false (sc_meta S) (sc_metaNow S k)
    (sst_conditions (scan_status scan)) TypeReady reason msg (m_generation (scan_meta scan)))"
  using assms by (auto simp: scan_verdict_def scan_reconcile_def read_clock_def Let_def requeue_in_def
      noRequeue_def split: if_splits sum.splits intro: scan_marked)

lemma scan_reconcile_refreshed:
  assumes "scan_verdict S scan (w_cluster w) = (reason, None)"
    and "scan_reconcile S scan w = Some ((res, None), scan', w')"
  shows "\<exists>scan1. refreshActiveRuns S (scan_observed scan) (w_cluster w) = Inr scan1"
  using assms by (cases "refreshActiveRuns S (scan_observed scan) (w_cluster w)")
    (auto simp: scan_verdict_def scan_reconcile_def read_clock_def Let_def split: if_splits sum.splits)

text \<open>
  C24. What a Scan's Ready condition says: after a reconcile without error it is True exactly when
  every gate is open, and its reason names the first closed one: Suspended, PlatformNotReady or
  InvalidSchedule. A missing or unready Platform is asked about again every minute; a suspended
  Scan and an invalid schedule wait for an edit; a Ready Scan is always looked at again.
\<close>

theorem scan_ready_table:
  assumes "sound_scan_libs S" and "scan_reconcile S scan w = Some ((res, None), scan', w')"
    and "scan_verdict S scan (w_cluster w) = (reason, delay)"
  shows "condition_reason (sc_meta S) (sst_conditions (scan_status scan')) TypeReady = Some reason \<and>
    (IsTrue (sc_meta S) (sst_conditions (scan_status scan')) TypeReady \<longleftrightarrow> delay = None) \<and>
    (case delay of Some d \<Rightarrow> cr_RequeueAfter res = d | None \<Rightarrow> 0 < cr_RequeueAfter res)"
proof (cases delay)
  case (Some d)
  with scan_reconcile_closed [OF assms(3) [unfolded Some] assms(2)] show ?thesis
    by (auto simp: scan_marks [OF assms(1)])
next
  case None
  note v = assms(3) [unfolded None]
  from scan_reconcile_refreshed [OF v assms(2)] obtain scan1 where
    "refreshActiveRuns S (scan_observed scan) (w_cluster w) = Inr scan1" by blast
  note o = scan_verdict_open [OF v this]
  from o(1) obtain platform loc sched where ps: "scan_passes S scan (w_cluster w) platform loc sched scan1" by blast
  then obtain missed nextFire w2 where
    fs: "fireScan S platform (scan_now S w) missed nextFire (scan_readied S (Suc (w_ticks w)) nextFire scan1) w2
      = ((res, None), scan', w')" using assms(2) by (rule scan_reconcile_fired)
  from fireScan_conditions [OF fs] fireScan_requeue(1) [OF fs] capRequeueAfter_bounds(1) o(2) None show ?thesis
    by (auto simp: scan_marks [OF assms(1)] scan_readied_def requeue_in_def)
qed

section \<open>Repeated fires\<close>

lemma last_fire_eq:
  assumes "last_fire F a b m" and "f \<in> F" and "a < f" and "f \<le> b" and "F \<inter> {f<..b} = {}"
  shows "wall m = f"
proof -
  have "f \<in> F \<inter> {a<..b}" using assms by simp
  with assms(1) have "wall m \<in> F \<inter> {a<..b}" "F \<inter> {wall m<..b} = {}"
    by (auto simp: last_fire_def split: if_splits)
  with assms(2,4,5) show ?thesis by (metis IntD1 IntD2 IntI empty_iff greaterThanAtMost_iff linorder_neqE)
qed

text \<open>
  C26. A fire can be served twice. Let a Scan with policy Allow have fired at \<open>f\<close>, an instant of its schedule in its time zone, its
  last run time therefore being \<open>f\<close>, and let the latest completed Run have ended before \<open>f\<close>. The next reconcile
  takes that earlier completion as the last run time, finds \<open>f\<close> missed once more and creates
  another Run for it.
\<close>

theorem fire_repeated_under_allow:
  assumes "scan_passes S scan (w_cluster w) platform loc sched scan1" and "cron_law F sched"
    and "ss_concurrencyPolicy (scan_spec scan) = AllowConcurrent"
    and "sst_lastRunTime (scan_status scan) = Some t" and "wall t = f" and "f \<in> F loc" and "f \<noteq> zero_wall"
    and "sst_lastRunTime (scan_status scan1) = Some c" and "wall c < f" and "f \<le> wall (scan_now S w)"
    and "F loc \<inter> {f<..wall (scan_now S w)} = {}" and "keeps_firing (F loc) (wall c) (wall (scan_now S w))"
  shows "\<exists>missed. wall missed = f \<and>
    (\<forall>run s1 s2. Create_Run (sc_Client S) (newRun S scan platform missed) (w_cluster w) = (Inr run, s1) \<longrightarrow>
      gcOldRuns S scan s1 = (None, s2) \<longrightarrow>
      (\<exists>oc scan' w'. scan_reconcile S scan w = Some (oc, scan', w') \<and> w_cluster w' = s2 \<and>
        sst_lastRunRef (scan_status scan') = Some (runRef run)))"
proof -
  have win: "window_start (sst_lastRunTime (scan_status scan1)) (scan_now S w) \<le> wall (scan_now S w)"
    using assms(8,9,10) by (simp add: window_start_def)
  from computeFireTimes_returns [OF assms(2) win, of loc] assms(12) obtain missed nextFire where
    cf: "computeFireTimes sched (sst_lastRunTime (scan_status scan1)) (scan_now S w) loc = Some (missed, nextFire)"
    and lf: "last_fire (F loc) (wall c) (wall (scan_now S w)) missed" by (auto simp: assms(8) window_start_def)
  have eq: "wall missed = f" by (rule last_fire_eq [OF lf assms(6,9,10,11)])
  have rf: "refreshActiveRuns S (scan_observed scan) (w_cluster w) = Inr scan1"
    using assms(1) by (simp add: scan_passes_def)
  have "\<not> IsZero missed" "\<not> shouldSkipForConcurrency scan1"
    using eq assms(3,7) refreshActiveRuns_frame(2) [OF rf] by (simp_all add: IsZero_def shouldSkip_active)
  note creates = scan_reconcile_creates [OF assms(1) cf this]
  show ?thesis by (rule exI [of _ missed]) (use eq creates in blast)
qed

section \<open>History\<close>

lemma deleteRuns_append:
  "deleteRuns K (xs @ ys) s = (case deleteRuns K xs s of (Some e, s1) \<Rightarrow> (Some e, s1) | (None, s1) \<Rightarrow> deleteRuns K ys s1)"
  by (induction K xs s rule: deleteRuns.induct) (auto split: prod.split option.split)

text \<open>What \<open>sort.Slice\<close> documents: a permutation in which no later element comes before an earlier one.\<close>

definition sort_law :: "'s RenovateScanReconciler \<Rightarrow> bool" where
  "sort_law S = (\<forall>runs. mset (sc_sortSlice S moreRecent runs) = mset runs \<and>
     sorted_wrt (\<lambda>a b. \<not> moreRecent b a) (sc_sortSlice S moreRecent runs))"

text \<open>A split of the ended Runs into the most recent ones, \<open>limit\<close> at most, and the rest.\<close>

definition history_split :: "RenovateRun list \<Rightarrow> int \<Rightarrow> RenovateRun list \<Rightarrow> RenovateRun list \<Rightarrow> bool" where
  "history_split runs limit kept old =
     (mset kept + mset old = mset runs \<and> length kept = min (length runs) (nat limit) \<and>
      list_all (\<lambda>k. list_all (\<lambda>d. \<not> moreRecent d k) old) kept)"

lemma deleteOldest_split:
  assumes "sort_law S" and "0 \<le> keep"
  shows "\<exists>kept old. deleteOldest S runs keep s = deleteRuns (sc_Client S) old s \<and> history_split runs keep kept old"
proof (cases "int (length runs) \<le> keep")
  case True
  then show ?thesis
    by (intro exI [of _ runs] exI [of _ "[]"]) (auto simp: deleteOldest_def history_split_def list_all_iff)
next
  case False
  let ?rs = "sc_sortSlice S moreRecent runs"
  have p: "mset ?rs = mset runs" and o: "sorted_wrt (\<lambda>a b. \<not> moreRecent b a) ?rs"
    using assms(1) by (simp_all add: sort_law_def)
  have "sorted_wrt (\<lambda>a b. \<not> moreRecent b a) (take (nat keep) ?rs @ drop (nat keep) ?rs)" using o by simp
  then have "list_all (\<lambda>k. list_all (\<lambda>d. \<not> moreRecent d k) (drop (nat keep) ?rs)) (take (nat keep) ?rs)"
    unfolding sorted_wrt_append list_all_iff by blast
  moreover have "mset (take (nat keep) ?rs) + mset (drop (nat keep) ?rs) = mset runs"
    by (metis append_take_drop_id mset_append p)
  moreover have "length ?rs = length runs" by (metis p size_mset)
  ultimately have "history_split runs keep (take (nat keep) ?rs) (drop (nat keep) ?rs)"
    by (simp add: history_split_def)
  moreover have "deleteOldest S runs keep s = deleteRuns (sc_Client S) (drop (nat keep) ?rs) s"
    using False assms(2) by (simp add: deleteOldest_def)
  ultimately show ?thesis by blast
qed

definition limit_or :: "int \<Rightarrow> int32 option \<Rightarrow> int" where
  "limit_or d limit = (case limit of None \<Rightarrow> d | Some n \<Rightarrow> sint n)"

definition ended_with :: "RenovateScan \<Rightarrow> RunPhase \<Rightarrow> RenovateRun list \<Rightarrow> RenovateRun list" where
  "ended_with scan p runs = filter (\<lambda>run. run_phase run = p) (filter (\<lambda>run. ownedByScan run scan) runs)"

text \<open>
  C20. Pruning keeps the history limits: with limits that are not negative (3 Succeeded and 1 Failed
  Runs by default), the controller deletes exactly the Scan's own Succeeded Runs beyond the limit
  and then its own Failed Runs beyond theirs. Of each class it keeps as many as the limit allows, and no deleted Run of a
  class ended after a kept one of the same class; across the two classes nothing is compared. Runs that have not ended and
  Runs of other Scans are never deleted.
\<close>

theorem gc_keeps_newest:
  assumes "sort_law S" and "List_Runs (sc_Client S) (m_namespace (scan_meta scan)) s = Inr runs"
    and "0 \<le> limit_or 3 (ss_successfulRunsHistoryLimit (scan_spec scan))"
    and "0 \<le> limit_or 1 (ss_failedRunsHistoryLimit (scan_spec scan))"
  shows "\<exists>keptS oldS keptF oldF. gcOldRuns S scan s = deleteRuns (sc_Client S) (oldS @ oldF) s \<and>
    history_split (ended_with scan RunPhaseSucceeded runs)
      (limit_or 3 (ss_successfulRunsHistoryLimit (scan_spec scan))) keptS oldS \<and>
    history_split (ended_with scan RunPhaseFailed runs)
      (limit_or 1 (ss_failedRunsHistoryLimit (scan_spec scan))) keptF oldF"
proof -
  let ?sl = "limit_or 3 (ss_successfulRunsHistoryLimit (scan_spec scan))"
  let ?fl = "limit_or 1 (ss_failedRunsHistoryLimit (scan_spec scan))"
  have limits: "sint (case ss_successfulRunsHistoryLimit (scan_spec scan) of None \<Rightarrow> 3 | Some n \<Rightarrow> n) = ?sl"
    "sint (case ss_failedRunsHistoryLimit (scan_spec scan) of None \<Rightarrow> 1 | Some n \<Rightarrow> n) = ?fl"
    by (simp_all add: limit_or_def split: option.split)
  obtain keptS oldS where dS: "deleteOldest S (ended_with scan RunPhaseSucceeded runs) ?sl s = deleteRuns (sc_Client S) oldS s"
    and hS: "history_split (ended_with scan RunPhaseSucceeded runs) ?sl keptS oldS"
    using deleteOldest_split [OF assms(1,3)] by blast
  let ?s1 = "snd (deleteRuns (sc_Client S) oldS s)"
  obtain keptF oldF where dF: "deleteOldest S (ended_with scan RunPhaseFailed runs) ?fl ?s1 = deleteRuns (sc_Client S) oldF ?s1"
    and hF: "history_split (ended_with scan RunPhaseFailed runs) ?fl keptF oldF"
    using deleteOldest_split [OF assms(1,4)] by blast
  have "gcOldRuns S scan s = (case deleteOldest S (ended_with scan RunPhaseSucceeded runs) ?sl s of
      (Some e, s1) \<Rightarrow> (Some e, s1) | (None, s1) \<Rightarrow> deleteOldest S (ended_with scan RunPhaseFailed runs) ?fl s1)"
    by (simp only: gcOldRuns_def assms(2) sum.case Let_def ended_with_def limits)
  also have "\<dots> = deleteRuns (sc_Client S) (oldS @ oldF) s"
    using dF by (cases "deleteRuns (sc_Client S) oldS s") (auto simp: dS deleteRuns_append split: option.split)
  finally show ?thesis using hS hF by blast
qed

section \<open>An example Scan\<close>

text \<open>
  An hourly Scan one nanosecond past the first hour: it has fired at the hour, that Run is active,
  and an earlier Run completed one nanosecond after the epoch.
\<close>

definition ex_scan_clock :: "nat \<Rightarrow> gotime" where
  "ex_scan_clock i = \<lparr>wall = nanos_per_hour + 1 + int i, zone = ''UTC''\<rparr>"

definition ex_S :: "cluster RenovateScanReconciler" where
  "ex_S = \<lparr>sc_Client = sim_client, sc_Clock = ex_scan_clock, sc_meta = ref_meta, sc_metaNow = ex_scan_clock,
     sc_LoadLocation = Inr, sc_cronParse = (\<lambda>expr. Inr hourly), sc_RFC3339 = (\<lambda>t. itoa (wall t)),
     sc_sortSlice = (\<lambda>less. sort_key (\<lambda>run. - wall (completionOrCreation run)))\<rparr>"

definition ex_ready_platform :: RenovatePlatform where
  "ex_ready_platform = \<lparr>plat_meta = empty_meta\<lparr>m_name := ''forge''\<rparr>,
     plat_spec = \<lparr>ps_platformType = PlatformTypeForgejo, ps_baseURL = ''https://code.example'',
       ps_auth = \<lparr>pa_githubApp = None, pa_token = Some \<lparr>ta_secretRef = \<lparr>skr_name = ''creds'', skr_key = ''''\<rparr>\<rparr>\<rparr>,
       ps_runnerConfig = None, ps_presetRepoRef = '''', ps_renovateImage = ''renovate:43'', ps_logLevel = None\<rparr>,
     plat_status = \<lparr>pst_conditions = [\<lparr>c_type = TypeReady, c_status = ConditionTrue, c_observedGeneration = 1,
       c_lastTransitionTime = zero_time, c_reason = ReasonCredentialsResolved, c_message = ''''\<rparr>],
       pst_observedGeneration = 1\<rparr>\<rparr>"

definition ex_hourly_scan :: RenovateScan where
  "ex_hourly_scan = \<lparr>scan_meta = empty_meta\<lparr>m_name := ''nightly'', m_namespace := ''team'', m_uid := ''scan-uid''\<rparr>,
     scan_spec = \<lparr>ss_platformRef = \<lparr>lor_name = ''forge''\<rparr>, ss_schedule = ''0 * * * *'', ss_timeZone = '''',
       ss_suspend = False, ss_concurrencyPolicy = AllowConcurrent,
       ss_workers = \<lparr>ws_minWorkers = 1, ws_maxWorkers = 10, ws_reposPerWorker = 50, ws_backoffLimitPerIndex = None\<rparr>,
       ss_discovery = \<lparr>ds_autodiscover = None, ds_requireConfig = None, ds_filter = [''org/*''], ds_topics = [],
         ds_skipForks = None, ds_skipArchived = None\<rparr>,
       ss_renovateConfigOverrides = None, ss_extraEnv = [], ss_logLevel = None, ss_resources = None,
       ss_successfulRunsHistoryLimit = None, ss_failedRunsHistoryLimit = None\<rparr>,
     scan_status = \<lparr>sst_conditions = [], sst_lastRunTime = Some \<lparr>wall = nanos_per_hour, zone = ''UTC''\<rparr>,
       sst_lastSuccessfulRunTime = None, sst_nextRunTime = None, sst_lastRunRef = None, sst_activeRuns = [],
       sst_observedGeneration = 0\<rparr>\<rparr>"

definition ex_owned_run :: "string \<Rightarrow> RunPhase \<Rightarrow> gotime option \<Rightarrow> RenovateRun" where
  "ex_owned_run name phase ct = (newRun ex_S ex_hourly_scan ex_ready_platform zero_time)
     \<lparr>run_meta := empty_meta\<lparr>m_name := name, m_namespace := ''team'',
        m_ownerReferences := [\<lparr>ow_apiVersion = GroupVersion, ow_kind = ''RenovateScan'', ow_name = ''nightly'',
          ow_uid = ''scan-uid'', ow_controller = Some True, ow_blockOwnerDeletion = Some True\<rparr>]\<rparr>,
      run_status := (run_status (newRun ex_S ex_hourly_scan ex_ready_platform zero_time))
        \<lparr>rst_phase := phase, rst_completionTime := ct\<rparr>\<rparr>"

definition ex_done :: RenovateRun where
  "ex_done = ex_owned_run ''done'' RunPhaseSucceeded (Some \<lparr>wall = 1, zone = ''UTC''\<rparr>)"

definition ex_active :: RenovateRun where
  "ex_active = ex_owned_run ''active'' RunPhaseRunning None"

definition ex_scan_cluster :: cluster where
  "ex_scan_cluster = empty_cluster\<lparr>cl_platforms := [ex_ready_platform], cl_scans := [ex_hourly_scan],
     cl_runs := [ex_done, ex_active], cl_next := 7\<rparr>"

definition ex_scan_world :: "(cluster, nat) world" where
  "ex_scan_world = \<lparr>w_cluster = ex_scan_cluster, w_net = 0, w_ticks = 0, w_metrics = []\<rparr>"

lemma ex_runs_listed:
  "List_Runs (sc_Client ex_S) (m_namespace (scan_meta ex_hourly_scan)) ex_scan_cluster = Inr [ex_done, ex_active]"
  by (simp add: ex_S_def sim_client_def ex_hourly_scan_def ex_scan_cluster_def ex_done_def ex_active_def ex_owned_run_def)

lemma ex_owned [simp]:
  "ownedByScan (ex_owned_run name ph ct) (scan_observed ex_hourly_scan)"
  "ownedByScan (ex_owned_run name ph ct) ex_hourly_scan"
  "run_phase (ex_owned_run name ph ct) = ph" "rst_completionTime (run_status (ex_owned_run name ph ct)) = ct"
  by (simp_all add: ownedByScan_def ex_owned_run_def ex_hourly_scan_def)

theorem refresh_active_runs_spec_witness:
  "\<exists>st. refreshActiveRuns ex_S ex_hourly_scan ex_scan_cluster = Inr (ex_hourly_scan\<lparr>scan_status := st\<rparr>) \<and>
     sst_activeRuns st = [runRef ex_active] \<and> sst_lastRunTime st = Some \<lparr>wall = 1, zone = ''UTC''\<rparr>"
  using refresh_active_runs_spec [OF ex_runs_listed]
  by (auto simp: ex_done_def ex_active_def isTerminal_def completions_def is_latest_def)

definition ex_scan1 :: RenovateScan where
  "ex_scan1 = on_sstatus (refreshed (scan_observed ex_hourly_scan) [ex_done, ex_active]) (scan_observed ex_hourly_scan)"

lemma ex_passes: "scan_passes ex_S ex_hourly_scan (w_cluster ex_scan_world) ex_ready_platform ''UTC'' hourly ex_scan1"
proof -
  have "refreshActiveRuns ex_S (scan_observed ex_hourly_scan) ex_scan_cluster = Inr ex_scan1"
    using ex_runs_listed by (simp add: refreshActiveRuns_eq ex_scan1_def)
  moreover have "Get_Platform (sc_Client ex_S) (lor_name (ss_platformRef (scan_spec ex_hourly_scan))) ex_scan_cluster
      = Inr ex_ready_platform"
    by (simp add: ex_S_def sim_client_def sim_get_def ex_scan_cluster_def is_at_def ex_ready_platform_def
        ex_hourly_scan_def empty_meta_def)
  moreover have "IsTrue (sc_meta ex_S) (pst_conditions (plat_status ex_ready_platform)) TypeReady"
    by (simp add: ex_S_def ex_ready_platform_def IsTrue_def ref_meta_def)
  ultimately show ?thesis
    by (simp add: scan_passes_def ex_scan_world_def parseSchedule_def ex_S_def ex_hourly_scan_def)
qed

lemma ex_scan1_simps [simp]:
  "sst_lastRunTime (scan_status ex_scan1) = Some \<lparr>wall = 1, zone = ''UTC''\<rparr>"
  "ss_concurrencyPolicy (scan_spec ex_scan1) = AllowConcurrent"
  by (simp_all add: ex_scan1_def ex_done_def ex_active_def completions_def isTerminal_def later_def Let_def)
    (simp add: ex_hourly_scan_def)

lemma ex_scan_now: "wall (scan_now ex_S ex_scan_world) = nanos_per_hour + 1"
  by (simp add: ex_S_def ex_scan_world_def ex_scan_clock_def)

lemma no_fire_in_hour: "hours \<inter> {nanos_per_hour<..nanos_per_hour + 1} = {}"
  using next_hour(2) [of _ nanos_per_hour] by (fastforce simp: ticks_def nanos_per_hour_def nanos_per_second_def)

lemma ex_creates:
  obtains run s2 where
    "Create_Run (sc_Client ex_S) (newRun ex_S ex_hourly_scan ex_ready_platform missed) ex_scan_cluster = (Inr run, s2)"
    and "gcOldRuns ex_S ex_hourly_scan s2 = (None, s2)" and "cl_runs s2 = [ex_done, ex_active, run]"
proof -
  define run where "run = run_meta_update (stamp 7) (newRun ex_S ex_hourly_scan ex_ready_platform missed)"
  define s2 where "s2 = ex_scan_cluster\<lparr>cl_runs := [ex_done, ex_active, run], cl_next := 8\<rparr>"
  have "run_phase run = RunPhaseUnset" by (simp add: run_def newRun_def)
  moreover have "List_Runs (sc_Client ex_S) (m_namespace (scan_meta ex_hourly_scan)) s2 = Inr [ex_done, ex_active, run]"
    by (simp add: ex_S_def sim_client_def ex_hourly_scan_def s2_def run_def newRun_def stamp_def ex_done_def
        ex_active_def ex_owned_run_def)
  ultimately have gc: "gcOldRuns ex_S ex_hourly_scan s2 = (None, s2)"
    by (simp add: gcOldRuns_def ex_done_def ex_active_def deleteOldest_def ex_hourly_scan_def)
  have cr: "Create_Run (sc_Client ex_S) (newRun ex_S ex_hourly_scan ex_ready_platform missed) ex_scan_cluster = (Inr run, s2)"
    by (simp add: ex_S_def sim_client_def sim_create_def run_def s2_def ex_scan_cluster_def empty_cluster_def is_at_def
        stamp_def newRun_def ex_hourly_scan_def ex_done_def ex_active_def ex_owned_run_def empty_meta_def itoa_nat.simps
        digit_char_def Let_def)
  show ?thesis by (rule that [OF cr gc]) (simp add: s2_def)
qed

lemma ex_window_hour:
  "window_start (sst_lastRunTime (scan_status ex_scan1)) (scan_now ex_S ex_scan_world) \<le> wall (scan_now ex_S ex_scan_world)"
  by (simp add: window_start_def ex_scan_now) (simp add: nanos_per_hour_def nanos_per_second_def)

lemma ex_fire:
  obtains missed nextFire where
    "computeFireTimes hourly (sst_lastRunTime (scan_status ex_scan1)) (scan_now ex_S ex_scan_world) ''UTC'' = Some (missed, nextFire)"
    and "wall missed = nanos_per_hour" and "\<not> IsZero missed"
proof -
  obtain m n where c: "computeFireTimes hourly (sst_lastRunTime (scan_status ex_scan1)) (scan_now ex_S ex_scan_world) ''UTC'' = Some (m, n)"
    and lf: "last_fire hours 1 (nanos_per_hour + 1) m"
    using computeFireTimes_returns [OF hourly_law ex_window_hour hourly_keeps_firing, of "''UTC''"]
    by (auto simp: window_start_def ex_scan_now)
  have "wall m = nanos_per_hour"
    by (rule last_fire_eq [OF lf _ _ _ no_fire_in_hour]) (simp_all add: ticks_def nanos_per_hour_def nanos_per_second_def)
  moreover from this have "\<not> IsZero m" by (simp add: IsZero_def zero_wall_def nanos_per_hour_def nanos_per_second_def)
  ultimately show ?thesis using c by (rule that [rotated])
qed

lemma ex_not_skipped: "\<not> shouldSkipForConcurrency ex_scan1"
  by (simp add: shouldSkip_active)

lemma ex_scan_step:
  obtains missed nextFire run s2 scan' w' where
    "computeFireTimes hourly (sst_lastRunTime (scan_status ex_scan1)) (scan_now ex_S ex_scan_world) ''UTC'' = Some (missed, nextFire)"
    and "\<not> IsZero missed" and "wall missed = nanos_per_hour"
    and "Create_Run (sc_Client ex_S) (newRun ex_S ex_hourly_scan ex_ready_platform missed) (w_cluster ex_scan_world) = (Inr run, s2)"
    and "gcOldRuns ex_S ex_hourly_scan s2 = (None, s2)" and "cl_runs s2 = [ex_done, ex_active, run]"
    and "scan_reconcile ex_S ex_hourly_scan ex_scan_world =
      Some ((requeue_in (capRequeueAfter (Sub_time nextFire (scan_now ex_S ex_scan_world))), None), scan', w')"
    and "w_cluster w' = s2"
proof -
  obtain missed nextFire where cf: "computeFireTimes hourly (sst_lastRunTime (scan_status ex_scan1))
      (scan_now ex_S ex_scan_world) ''UTC'' = Some (missed, nextFire)"
    and m: "wall missed = nanos_per_hour" "\<not> IsZero missed" by (rule ex_fire)
  obtain run s2 where cr: "Create_Run (sc_Client ex_S) (newRun ex_S ex_hourly_scan ex_ready_platform missed) ex_scan_cluster = (Inr run, s2)"
    and gc: "gcOldRuns ex_S ex_hourly_scan s2 = (None, s2)" and rs: "cl_runs s2 = [ex_done, ex_active, run]"
    by (rule ex_creates)
  have cr': "Create_Run (sc_Client ex_S) (newRun ex_S ex_hourly_scan ex_ready_platform missed) (w_cluster ex_scan_world) = (Inr run, s2)"
    using cr by (simp add: ex_scan_world_def)
  from scan_reconcile_creates [OF ex_passes cf m(2) ex_not_skipped cr' gc] obtain scan' w' where
    "scan_reconcile ex_S ex_hourly_scan ex_scan_world =
      Some ((requeue_in (capRequeueAfter (Sub_time nextFire (scan_now ex_S ex_scan_world))), None), scan', w')"
    "w_cluster w' = s2" by blast
  with cf m(2,1) cr' gc rs show ?thesis by (rule that)
qed

lemma ex_scan_libs: "sound_scan_libs ex_S"
  by (simp add: sound_scan_libs_def ex_S_def ref.meta_conditions_axioms ex_scan_clock_def IsZero_def zero_wall_def
      nanos_per_hour_def nanos_per_second_def)

theorem scan_fires_only_when_due_witness:
  "\<exists>platform loc sched scan1. scan_passes ex_S ex_hourly_scan (w_cluster ex_scan_world) platform loc sched scan1"
proof -
  obtain missed nextFire run s2 scan' and w' :: "(cluster, nat) world" where
    "cl_runs s2 = [ex_done, ex_active, run]" and w': "w_cluster w' = s2"
    and st: "scan_reconcile ex_S ex_hourly_scan ex_scan_world =
      Some ((requeue_in (capRequeueAfter (Sub_time nextFire (scan_now ex_S ex_scan_world))), None), scan', w')"
    by (rule ex_scan_step)
  then have "w_cluster w' \<noteq> w_cluster ex_scan_world" by (auto simp: ex_scan_world_def ex_scan_cluster_def)
  with st show ?thesis using scan_fires_only_when_due by blast
qed

theorem scan_fires_when_due_witness:
  "\<exists>scan' w' t run. scan_reconcile ex_S ex_hourly_scan ex_scan_world = Some ((requeue_in t, None), scan', w') \<and>
     cl_runs (w_cluster w') = [ex_done, ex_active, run] \<and> sst_lastRunRef (scan_status scan') = Some (runRef run)"
proof -
  obtain missed nextFire run s2 where
    "computeFireTimes hourly (sst_lastRunTime (scan_status ex_scan1)) (scan_now ex_S ex_scan_world) ''UTC'' = Some (missed, nextFire)"
    "\<not> IsZero missed"
    "Create_Run (sc_Client ex_S) (newRun ex_S ex_hourly_scan ex_ready_platform missed) (w_cluster ex_scan_world) = (Inr run, s2)"
    "gcOldRuns ex_S ex_hourly_scan s2 = (None, s2)" and rs: "cl_runs s2 = [ex_done, ex_active, run]"
    by (rule ex_scan_step)
  from scan_fires_when_due [OF ex_passes this(1,2) ex_not_skipped this(3,4)] rs show ?thesis by blast
qed

theorem scan_wakes_for_next_fire_witness:
  "\<exists>res scan' w'. scan_reconcile ex_S ex_hourly_scan ex_scan_world = Some ((res, None), scan', w') \<and>
     0 < cr_RequeueAfter res \<and> cr_RequeueAfter res \<le> requeueAfterMax"
proof -
  obtain res scan' w' where st: "scan_reconcile ex_S ex_hourly_scan ex_scan_world = Some ((res, None), scan', w')"
    using ex_scan_step by metis
  from scan_wakes_for_next_fire [OF ex_passes hourly_law ex_window_hour hourly_keeps_firing st] st show ?thesis by blast
qed

theorem scan_ready_table_witness:
  "\<exists>res scan' w'. scan_reconcile ex_S ex_hourly_scan ex_scan_world = Some ((res, None), scan', w') \<and>
     IsTrue ref_meta (sst_conditions (scan_status scan')) TypeReady"
proof -
  obtain res scan' w' where st: "scan_reconcile ex_S ex_hourly_scan ex_scan_world = Some ((res, None), scan', w')"
    using ex_scan_step by metis
  have "scan_verdict ex_S ex_hourly_scan (w_cluster ex_scan_world) = (ReasonNextRunComputed, None)"
    using ex_passes by (simp add: scan_passes_def scan_verdict_def)
  from scan_ready_table [OF ex_scan_libs st this] st show ?thesis by (auto simp: ex_S_def)
qed

theorem fire_repeated_under_allow_witness:
  "\<exists>oc scan' w' run. scan_reconcile ex_S ex_hourly_scan ex_scan_world = Some (oc, scan', w') \<and>
     cl_runs (w_cluster w') = [ex_done, ex_active, run]"
proof -
  let ?hour = "\<lparr>wall = nanos_per_hour, zone = ''UTC''\<rparr>" and ?one = "\<lparr>wall = 1, zone = ''UTC''\<rparr>"
  have h: "ss_concurrencyPolicy (scan_spec ex_hourly_scan) = AllowConcurrent"
    "sst_lastRunTime (scan_status ex_hourly_scan) = Some ?hour" "wall ?hour = nanos_per_hour"
    "nanos_per_hour \<in> hours" "nanos_per_hour \<noteq> zero_wall"
    "sst_lastRunTime (scan_status ex_scan1) = Some ?one" "wall ?one < nanos_per_hour"
    "nanos_per_hour \<le> wall (scan_now ex_S ex_scan_world)"
    "hours \<inter> {nanos_per_hour<..wall (scan_now ex_S ex_scan_world)} = {}"
    by (simp_all add: ex_scan_now no_fire_in_hour)
      (simp_all add: ex_hourly_scan_def ticks_def nanos_per_hour_def nanos_per_second_def zero_wall_def)
  obtain missed where m: "\<forall>run s1 s2. Create_Run (sc_Client ex_S) (newRun ex_S ex_hourly_scan ex_ready_platform missed)
        (w_cluster ex_scan_world) = (Inr run, s1) \<longrightarrow>
      gcOldRuns ex_S ex_hourly_scan s1 = (None, s2) \<longrightarrow>
      (\<exists>oc scan' w'. scan_reconcile ex_S ex_hourly_scan ex_scan_world = Some (oc, scan', w') \<and> w_cluster w' = s2 \<and>
        sst_lastRunRef (scan_status scan') = Some (runRef run))"
    using fire_repeated_under_allow [OF ex_passes hourly_law h hourly_keeps_firing] by blast
  obtain run s2 where "Create_Run (sc_Client ex_S) (newRun ex_S ex_hourly_scan ex_ready_platform missed) ex_scan_cluster = (Inr run, s2)"
    "gcOldRuns ex_S ex_hourly_scan s2 = (None, s2)" "cl_runs s2 = [ex_done, ex_active, run]" by (rule ex_creates)
  with m show ?thesis by (fastforce simp: ex_scan_world_def)
qed

lemma ex_sort_law: "sort_law ex_S"
proof -
  have "sorted_wrt (\<lambda>a b. \<not> moreRecent b a) (sort_key (\<lambda>run. - wall (completionOrCreation run)) runs)" for runs
    using sorted_sort_key [of "\<lambda>run. - wall (completionOrCreation run)" runs]
    unfolding sorted_map by (rule sorted_wrt_mono_rel [rotated]) (simp add: moreRecent_def After_def)
  then show ?thesis by (simp add: sort_law_def ex_S_def)
qed

definition ex_no_history :: RenovateScan where
  "ex_no_history = ex_hourly_scan\<lparr>scan_spec := (scan_spec ex_hourly_scan)\<lparr>ss_successfulRunsHistoryLimit := Some 0\<rparr>\<rparr>"

theorem gc_keeps_newest_witness:
  "gcOldRuns ex_S ex_no_history ex_scan_cluster = deleteRuns sim_client [ex_done] ex_scan_cluster"
proof -
  have list: "List_Runs (sc_Client ex_S) (m_namespace (scan_meta ex_no_history)) ex_scan_cluster = Inr [ex_done, ex_active]"
    using ex_runs_listed by (simp add: ex_no_history_def)
  have limits: "limit_or 3 (ss_successfulRunsHistoryLimit (scan_spec ex_no_history)) = 0"
    "limit_or 1 (ss_failedRunsHistoryLimit (scan_spec ex_no_history)) = 1"
    by (simp_all add: limit_or_def ex_no_history_def ex_hourly_scan_def)
  have ended: "ended_with ex_no_history RunPhaseSucceeded [ex_done, ex_active] = [ex_done]"
    "ended_with ex_no_history RunPhaseFailed [ex_done, ex_active] = []"
    by (simp_all add: ended_with_def ex_done_def ex_active_def) (simp_all add: ownedByScan_def ex_no_history_def
        ex_owned_run_def ex_hourly_scan_def)
  from gc_keeps_newest [OF ex_sort_law list] obtain keptS oldS keptF oldF where
    "gcOldRuns ex_S ex_no_history ex_scan_cluster = deleteRuns (sc_Client ex_S) (oldS @ oldF) ex_scan_cluster"
    and split: "history_split [ex_done] 0 keptS oldS" "history_split [] 1 keptF oldF"
    unfolding limits ended by auto
  moreover have "oldS = [ex_done]" "oldF = []" using split by (auto simp: history_split_def)
  ultimately show ?thesis by (simp add: ex_S_def del: deleteRuns.simps)
qed

end
