(* ===== verification/HttpClient.thy ===== *)
theory HttpClient
  imports PlatformClient Complex_Main
begin

text \<open>
  What the platform clients use of \<open>net/http\<close> and \<open>golang.org/x/time/rate\<close>, and the transport that
  adds a token to every request (\<open>tokenTransport\<close> of \<open>internal/platform/github/client.go\<close>). The network is
  a parameter: a transport of another package is a function over the network state \<open>'n\<close>.
\<close>

section \<open>Requests and transports\<close>

record http_request =
  rq_url :: string
  rq_header :: "string \<rightharpoonup> string list"

text \<open>The answer to a request: its status, or an error.\<close>

type_synonym 'n round_trip = "http_request \<Rightarrow> 'n \<Rightarrow> int res \<times> 'n"

record 'n app_transport =
  tr_Token :: "'n \<Rightarrow> string res \<times> 'n"
  tr_Expiry :: "'n \<Rightarrow> gotime res"
  tr_BaseURL :: string
  tr_RoundTrip :: "'n round_trip"

text \<open>A transport inside another may be missing: a nil interface.\<close>

datatype 'n http_transport =
    DefaultTransport
  | OtherTransport "'n round_trip"
  | AppTransport "'n app_transport"
  | TokenTransport string "'n http_transport option"

text \<open>An \<open>http.Client\<close> whose transport is missing uses \<open>http.DefaultTransport\<close>.\<close>

record 'n http_client =
  hc_Transport :: "'n http_transport option"

definition Header_Set :: "string \<Rightarrow> string \<Rightarrow> (string \<rightharpoonup> string list) \<Rightarrow> string \<rightharpoonup> string list" where
  "Header_Set k v h = h(k \<mapsto> [v])"

definition with_bearer :: "string \<Rightarrow> http_request \<Rightarrow> http_request" where
  "with_bearer token req = req\<lparr>rq_header := Header_Set ''Authorization'' (''Bearer '' @ token) (rq_header req)\<rparr>"

text \<open>Calling the method of a nil interface panics: \<open>None\<close>. The request is cloned, so the caller's is unchanged.\<close>

fun RoundTrip :: "'n round_trip \<Rightarrow> 'n http_transport \<Rightarrow> http_request \<Rightarrow> 'n \<Rightarrow> (int res \<times> 'n) option" where
  "RoundTrip dflt DefaultTransport req n = Some (dflt req n)"
| "RoundTrip dflt (OtherTransport f) req n = Some (f req n)"
| "RoundTrip dflt (AppTransport tr) req n = Some (tr_RoundTrip tr req n)"
| "RoundTrip dflt (TokenTransport token base) req n =
     (case base of None \<Rightarrow> None | Some b \<Rightarrow> RoundTrip dflt b (with_bearer token req) n)"

definition http_Do :: "'n round_trip \<Rightarrow> 'n http_client \<Rightarrow> http_request \<Rightarrow> 'n \<Rightarrow> (int res \<times> 'n) option" where
  "http_Do dflt hc = RoundTrip dflt (case hc_Transport hc of None \<Rightarrow> DefaultTransport | Some tr \<Rightarrow> tr)"

lemma with_bearer_twice [simp]: "with_bearer t (with_bearer u req) = with_bearer t req"
  by (simp add: with_bearer_def Header_Set_def)

text \<open>A token put around another token changes nothing: the inner transport has the last word.\<close>

lemma RoundTrip_token_token:
  "RoundTrip dflt (TokenTransport t (Some (TokenTransport u base))) = RoundTrip dflt (TokenTransport u base)"
  by (intro ext) (simp split: option.split)

section \<open>Rate limiters\<close>

text \<open>A limiter's \<open>Wait\<close>: an error if the context ends first.\<close>

type_synonym 'n limiter = "'n \<Rightarrow> goerror option \<times> 'n"

text \<open>\<open>rate.NewLimiter\<close>: events per second, and the burst.\<close>

type_synonym 'n new_limiter = "rat \<Rightarrow> int \<Rightarrow> 'n limiter"

end
