(* ===== verification/GithubClient.thy ===== *)
theory GithubClient
  imports HttpClient
begin

text \<open>
  Package \<open>internal/platform/github\<close>. The go-github SDK, the installation transport of
  \<open>ghinstallation\<close> and the rate limiter are third-party code: they are the fields of the records
  \<open>gh_sdk\<close>, \<open>app_transport\<close> and \<open>gh_lib\<close>, functions over the network state \<open>'n\<close>.
\<close>

section \<open>SDK types\<close>

record ghRepository =
  gr_fullName :: "string option"
  gr_defaultBranch :: "string option"
  gr_archived :: "bool option"
  gr_fork :: "bool option"
  gr_topics :: "string list"
  gr_ownerLogin :: "string option"

text \<open>The \<open>Get...\<close> accessors read a nil pointer as the zero value.\<close>

definition get_str :: "string option \<Rightarrow> string" where
  "get_str p = (case p of None \<Rightarrow> '''' | Some s \<Rightarrow> s)"

definition get_bool :: "bool option \<Rightarrow> bool" where
  "get_bool p = (case p of None \<Rightarrow> False | Some b \<Rightarrow> b)"

text \<open>What \<open>errors.As\<close> finds in an SDK error, with the error itself.\<close>

datatype gh_error =
    RateLimitError (rate_reset: gotime) (gh_cause: goerror)
  | AbuseRateLimitError (abuse_retryAfter: "int option") (gh_cause: goerror)
  | is_OtherGhError: OtherGhError (gh_cause: goerror)

text \<open>A failed call: the status of the response, if there was one, and the error.\<close>

type_synonym gh_failure = "int option \<times> gh_error"

text \<open>A page of a listing: its repositories and \<open>resp.NextPage\<close>.\<close>

type_synonym gh_page = "gh_failure + ghRepository list \<times> int"

record 'n gh_sdk =
  Apps_ListRepos :: "int \<Rightarrow> int \<Rightarrow> 'n \<Rightarrow> gh_page \<times> 'n"
  Repositories_ListByOrg :: "string \<Rightarrow> int \<Rightarrow> int \<Rightarrow> 'n \<Rightarrow> gh_page \<times> 'n"
  Repositories_ListByUser :: "string \<Rightarrow> int \<Rightarrow> int \<Rightarrow> 'n \<Rightarrow> gh_page \<times> 'n"
  Repositories_GetContents ::
    "string \<Rightarrow> string \<Rightarrow> string \<Rightarrow> string \<Rightarrow> 'n \<Rightarrow> gh_failure option \<times> 'n"

record 'n gh_lib =
  rate_NewLimiter :: "'n new_limiter"
  ghinstallation_New :: "'n http_transport \<Rightarrow> int \<Rightarrow> int \<Rightarrow> string \<Rightarrow> 'n app_transport res"
  gogithub_NewClient :: "'n http_client \<Rightarrow> 'n gh_sdk"
  WithEnterpriseURLs :: "'n gh_sdk \<Rightarrow> string \<Rightarrow> 'n gh_sdk res"

section \<open>The client\<close>

record AppAuth =
  aa_appID :: int
  aa_installationID :: int
  aa_pem :: string
  aa_baseURL :: string

record GhTokenAuth =
  gta_token :: string
  gta_baseURL :: string

definition gh_defaultRateLimit :: rat where "gh_defaultRateLimit = 4500 / 3600"
definition gh_defaultRateBurst :: int where "gh_defaultRateBurst = 100"

text \<open>
  The part of a client that options set; \<open>httpClient\<close> is not read once the client is built.
\<close>

record 'n gh_config =
  gco_httpClient :: "'n http_client option"
  gco_baseURL :: string
  gco_limiter :: "'n limiter"

type_synonym 'n gh_option = "'n gh_config \<Rightarrow> 'n gh_config"

definition gh_WithRateLimit :: "'n gh_lib \<Rightarrow> rat \<Rightarrow> int \<Rightarrow> 'n gh_option" where
  "gh_WithRateLimit lib r burst c = c\<lparr>gco_limiter := rate_NewLimiter lib r burst\<rparr>"

definition gh_WithHTTPClient :: "'n http_client \<Rightarrow> 'n gh_option" where
  "gh_WithHTTPClient httpClient c = c\<lparr>gco_httpClient := Some httpClient\<rparr>"

definition gh_WithBaseURL :: "string \<Rightarrow> 'n gh_option" where
  "gh_WithBaseURL base c = c\<lparr>gco_baseURL := base\<rparr>"

text \<open>Options are applied in order, over the defaults and the URL of the credential.\<close>

definition gh_configure :: "'n gh_lib \<Rightarrow> string \<Rightarrow> 'n gh_option list \<Rightarrow> 'n gh_config" where
  "gh_configure lib baseURL opts =
     foldl (\<lambda>c opt. opt c) \<lparr>gco_httpClient = None, gco_baseURL = baseURL,
       gco_limiter = rate_NewLimiter lib gh_defaultRateLimit gh_defaultRateBurst\<rparr> opts"

record 'n gh_client =
  ghc_gh :: "'n gh_sdk"
  ghc_baseURL :: string
  ghc_limiter :: "'n limiter"
  ghc_appTransport :: "'n app_transport option"
  ghc_staticToken :: string

definition isPublicGitHub :: "string \<Rightarrow> bool" where
  "isPublicGitHub baseURL =
     (TrimRight baseURL CHR ''/'' \<in> {''https://api.github.com'', ''http://api.github.com''})"

definition buildGoGitHubClient :: "'n gh_lib \<Rightarrow> 'n http_client \<Rightarrow> string \<Rightarrow> 'n gh_sdk res" where
  "buildGoGitHubClient lib httpClient baseURL =
     (let gh = gogithub_NewClient lib httpClient in
      if baseURL = '''' \<or> isPublicGitHub baseURL then Inr gh
      else (case WithEnterpriseURLs lib gh baseURL of
              Inl e \<Rightarrow> Inl (wrapf ''github: GHES base URL: '' e)
            | Inr out \<Rightarrow> Inr out))"

definition NewWithApp :: "'n gh_lib \<Rightarrow> AppAuth \<Rightarrow> 'n gh_option list \<Rightarrow> 'n gh_client res" where
  "NewWithApp lib auth opts =
     (if aa_appID auth = 0 \<or> aa_installationID auth = 0
      then Inl (errors_New ''github: AppID and InstallationID required'')
      else if aa_pem auth = '''' then Inl (errors_New ''github: PEM required'')
      else
        (let c = gh_configure lib (aa_baseURL auth) opts;
             base = gco_baseURL c;
             transport = (case gco_httpClient c of
                            None \<Rightarrow> DefaultTransport
                          | Some hc \<Rightarrow> (case hc_Transport hc of None \<Rightarrow> DefaultTransport | Some tr \<Rightarrow> tr))
         in case ghinstallation_New lib transport (aa_appID auth) (aa_installationID auth) (aa_pem auth) of
              Inl e \<Rightarrow> Inl (wrapf ''github: install transport: '' e)
            | Inr itr0 \<Rightarrow>
              (let itr = (if base \<noteq> '''' \<and> \<not> isPublicGitHub base then itr0\<lparr>tr_BaseURL := base\<rparr> else itr0)
               in case buildGoGitHubClient lib \<lparr>hc_Transport = Some (AppTransport itr)\<rparr> base of
                    Inl e \<Rightarrow> Inl e
                  | Inr gh \<Rightarrow> Inr \<lparr>ghc_gh = gh, ghc_baseURL = base, ghc_limiter = gco_limiter c,
                                   ghc_appTransport = Some itr, ghc_staticToken = ''''\<rparr>)))"

text \<open>
  The HTTP client of a token client: a new one, or the injected one, whose transport the constructor
  wraps in place. \<open>NewWithToken\<close> returns, beside its result, the injected client as it leaves it.
\<close>

definition token_http_client :: "string \<Rightarrow> 'n http_client option \<Rightarrow> 'n http_client" where
  "token_http_client token injected =
     (case injected of
        None \<Rightarrow> \<lparr>hc_Transport = Some (TokenTransport token (Some DefaultTransport))\<rparr>
      | Some hc \<Rightarrow> hc\<lparr>hc_Transport := Some (TokenTransport token (hc_Transport hc))\<rparr>)"

definition NewWithToken ::
  "'n gh_lib \<Rightarrow> GhTokenAuth \<Rightarrow> 'n gh_option list \<Rightarrow> 'n gh_client res \<times> 'n http_client option" where
  "NewWithToken lib auth opts =
     (if gta_token auth = '''' then (Inl (errors_New ''github: token required''), None)
      else
        (let c = gh_configure lib (gta_baseURL auth) opts;
             httpClient = token_http_client (gta_token auth) (gco_httpClient c);
             left = map_option (\<lambda>_. httpClient) (gco_httpClient c)
         in case buildGoGitHubClient lib httpClient (gco_baseURL c) of
              Inl e \<Rightarrow> (Inl e, left)
            | Inr gh \<Rightarrow> (Inr \<lparr>ghc_gh = gh, ghc_baseURL = gco_baseURL c, ghc_limiter = gco_limiter c,
                              ghc_appTransport = None, ghc_staticToken = gta_token auth\<rparr>, left)))"

definition gh_wait :: "'n gh_client \<Rightarrow> 'n limiter" where
  [simp]: "gh_wait c = ghc_limiter c"

definition gh_MintAccessToken :: "'n gh_client \<Rightarrow> 'n \<Rightarrow> (string \<times> gotime) res \<times> 'n" where
  "gh_MintAccessToken c n =
     (case ghc_appTransport c of
        Some tr \<Rightarrow>
          (case tr_Token tr n of
             (Inl e, n') \<Rightarrow> (Inl (wrapf ''github: mint installation token: '' e), n')
           | (Inr tok, n') \<Rightarrow>
               (case tr_Expiry tr n' of
                  Inl e \<Rightarrow> (Inl (wrapf ''github: install-token expiry: '' e), n')
                | Inr expiresAt \<Rightarrow> (Inr (tok, expiresAt), n')))
      | None \<Rightarrow>
          if ghc_staticToken c = '''' then (Inl (errors_New ''github: client has no auth credential''), n)
          else (Inr (ghc_staticToken c, zero_time), n))"

section \<open>Error classification\<close>

text \<open>\<open>time.Duration(seconds) * time.Second\<close> wraps at 64 bits.\<close>

definition durationFrom :: "int \<Rightarrow> int" where
  "durationFrom seconds =
     (if seconds \<le> 0 then 0 else sint (word_of_int (seconds * nanos_per_second) :: 64 word))"

definition Unix :: "gotime \<Rightarrow> int" where
  "Unix t = wall t div nanos_per_second"

text \<open>
  The whole seconds of an abuse wait: \<open>int(d.Seconds())\<close> goes through a \<open>float64\<close>, whose rounding cannot reach the
  next second for waits below \<open>2 ^ 24\<close> seconds, half a year; there it is the quotient.
\<close>

definition gh_classifyErr :: "int option \<Rightarrow> gh_error option \<Rightarrow> goerror option" where
  "gh_classifyErr resp err =
     (case err of
        None \<Rightarrow> None
      | Some (RateLimitError reset e) \<Rightarrow>
          (let retry = (if \<not> IsZero reset then max 0 (Unix reset) else 0)
           in Some (rate_limited \<lparr>RetryAfter = durationFrom retry, Cause = e\<rparr>))
      | Some (AbuseRateLimitError ra e) \<Rightarrow>
          (let retry = (case ra of None \<Rightarrow> 0 | Some d \<Rightarrow> d sdiv nanos_per_second)
           in Some (rate_limited \<lparr>RetryAfter = durationFrom retry, Cause = e\<rparr>))
      | Some (OtherGhError e) \<Rightarrow>
          (case resp of
             Some status \<Rightarrow>
               if status = 401 \<or> status = 403 then Some (platform_error ErrUnauthorized e)
               else if status = 404 then Some (platform_error ErrNotFound e)
               else if status = 429 then Some (rate_limited \<lparr>RetryAfter = 0, Cause = e\<rparr>)
               else if status \<ge> 500 then Some (platform_error ErrTransient e)
               else Some (platform_error ErrPermanent e)
           | None \<Rightarrow> Some (platform_error ErrPermanent e)))"

definition gh_classify :: "gh_failure \<Rightarrow> goerror" where
  "gh_classify fl = the (gh_classifyErr (fst fl) (Some (snd fl)))"

definition gh_isNotFound :: "goerror \<Rightarrow> bool" where
  "gh_isNotFound e = errors_Is e ErrNotFound"

section \<open>Listing\<close>

definition gh_discoverPageSize :: int where
  "gh_discoverPageSize = 100"

text \<open>
  The loop the three listings share: wait for the limiter, fetch a page, keep what \<open>keep\<close> accepts,
  follow \<open>NextPage\<close> until it is 0. A server that never says 0 keeps it going for ever: \<open>None\<close>.
\<close>

partial_function (option) gh_pages ::
  "('n \<Rightarrow> goerror option \<times> 'n) \<Rightarrow> (int \<Rightarrow> 'n \<Rightarrow> gh_page \<times> 'n) \<Rightarrow> (ghRepository \<Rightarrow> bool) \<Rightarrow> int
   \<Rightarrow> ghRepository list \<Rightarrow> 'n \<Rightarrow> (ghRepository list res \<times> 'n) option" where
  [code]: "gh_pages wait fetch keep page all n =
     (case wait n of
        (Some e, n1) \<Rightarrow> Some (Inl e, n1)
      | (None, n1) \<Rightarrow>
          (case fetch page n1 of
             (Inl fl, n2) \<Rightarrow> Some (Inl (gh_classify fl), n2)
           | (Inr (rs, nextPage), n2) \<Rightarrow>
               (if nextPage = 0 then Some (Inr (all @ filter keep rs), n2)
                else gh_pages wait fetch keep nextPage (all @ filter keep rs) n2)))"

definition listInstallationRepos ::
  "'n gh_client \<Rightarrow> string \<Rightarrow> 'n \<Rightarrow> (ghRepository list res \<times> 'n) option" where
  "listInstallationRepos c owner n =
     gh_pages (gh_wait c) (Apps_ListRepos (ghc_gh c) gh_discoverPageSize)
       (\<lambda>r. get_str (gr_ownerLogin r) = owner) 0 [] n"

definition gh_listOrgRepos ::
  "'n gh_client \<Rightarrow> string \<Rightarrow> 'n \<Rightarrow> (ghRepository list res \<times> 'n) option" where
  "gh_listOrgRepos c owner n =
     gh_pages (gh_wait c) (Repositories_ListByOrg (ghc_gh c) owner gh_discoverPageSize)
       (\<lambda>r. True) 0 [] n"

definition gh_listUserRepos ::
  "'n gh_client \<Rightarrow> string \<Rightarrow> 'n \<Rightarrow> (ghRepository list res \<times> 'n) option" where
  "gh_listUserRepos c owner n =
     gh_pages (gh_wait c) (Repositories_ListByUser (ghc_gh c) owner gh_discoverPageSize)
       (\<lambda>r. True) 0 [] n"

definition listOrgOrUserRepos ::
  "'n gh_client \<Rightarrow> string \<Rightarrow> 'n \<Rightarrow> (ghRepository list res \<times> 'n) option" where
  "listOrgOrUserRepos c owner n =
     (case gh_listOrgRepos c owner n of
        None \<Rightarrow> None
      | Some (Inl e, n1) \<Rightarrow> if \<not> gh_isNotFound e then Some (Inl e, n1) else gh_listUserRepos c owner n1
      | Some (Inr repos, n1) \<Rightarrow> Some (Inr repos, n1))"

section \<open>Filtering\<close>

fun anyTopicMatches :: "string list \<Rightarrow> string list \<Rightarrow> bool" where
  "anyTopicMatches have [] = False"
| "anyTopicMatches have (t # want) = (if t \<in> set have then True else anyTopicMatches have want)"

fun gh_anyPatternMatches :: "string \<Rightarrow> string list \<Rightarrow> bool" where
  "gh_anyPatternMatches fullName [] = False"
| "gh_anyPatternMatches fullName (p # patterns) =
     (if path_Match p fullName = Some True then True else gh_anyPatternMatches fullName patterns)"

definition gh_matchesFilter :: "ghRepository \<Rightarrow> DiscoveryFilter \<Rightarrow> bool" where
  "gh_matchesFilter r f =
     (if df_skipArchived f \<and> get_bool (gr_archived r) then False
      else if df_skipForks f \<and> get_bool (gr_fork r) then False
      else if df_topics f \<noteq> [] \<and> \<not> anyTopicMatches (gr_topics r) (df_topics f) then False
      else if df_patterns f \<noteq> [] \<and> \<not> gh_anyPatternMatches (get_str (gr_fullName r)) (df_patterns f)
      then False
      else True)"

definition gh_toRepo :: "ghRepository \<Rightarrow> PlatformRepository" where
  "gh_toRepo r = \<lparr>pr_slug = get_str (gr_fullName r), pr_defaultBranch = get_str (gr_defaultBranch r),
     pr_archived = get_bool (gr_archived r), pr_fork = get_bool (gr_fork r), pr_topics = gr_topics r\<rparr>"

definition gh_Discover ::
  "'n gh_client \<Rightarrow> DiscoveryFilter \<Rightarrow> 'n \<Rightarrow> (PlatformRepository list res \<times> 'n) option" where
  "gh_Discover c f n =
     (if df_owner f = '''' then Some (Inl (errors_New ''github: DiscoveryFilter.Owner required''), n)
      else (case (if ghc_appTransport c \<noteq> None then listInstallationRepos c (df_owner f) n
                  else listOrgOrUserRepos c (df_owner f) n) of
              None \<Rightarrow> None
            | Some (Inl e, n1) \<Rightarrow> Some (Inl e, n1)
            | Some (Inr repos, n1) \<Rightarrow>
                Some (Inr (map gh_toRepo (filter (\<lambda>r. gh_matchesFilter r f) repos)), n1)))"

section \<open>Probing for a configuration file\<close>

definition gh_splitSlug :: "string \<Rightarrow> (string \<times> string) option" where
  "gh_splitSlug slug =
     (case IndexByte slug CHR ''/'' of
        None \<Rightarrow> None
      | Some idx \<Rightarrow>
          if idx = 0 \<or> Suc idx = length slug then None
          else Some (take idx slug, drop (Suc idx) slug))"

fun gh_probe :: "'n gh_client \<Rightarrow> string \<Rightarrow> string \<Rightarrow> string \<Rightarrow> string list \<Rightarrow> 'n \<Rightarrow> bool res \<times> 'n" where
  "gh_probe c owner name ref [] n = (Inr False, n)"
| "gh_probe c owner name ref (p # ps) n =
     (case gh_wait c n of
        (Some e, n1) \<Rightarrow> (Inl e, n1)
      | (None, n1) \<Rightarrow>
          (case Repositories_GetContents (ghc_gh c) owner name p ref n1 of
             (None, n2) \<Rightarrow> (Inr True, n2)
           | (Some fl, n2) \<Rightarrow>
               (let classified = gh_classify fl in
                if errors_Is classified ErrNotFound then gh_probe c owner name ref ps n2
                else (Inl classified, n2))))"

definition gh_HasRenovateConfig :: "'n gh_client \<Rightarrow> PlatformRepository \<Rightarrow> 'n \<Rightarrow> bool res \<times> 'n" where
  "gh_HasRenovateConfig c repo n =
     (case gh_splitSlug (pr_slug repo) of
        None \<Rightarrow> (Inl (errors_New (''github: invalid slug '' @ go_quote (pr_slug repo))), n)
      | Some (owner, name) \<Rightarrow>
          gh_probe c owner name (pr_defaultBranch repo) ConfigPaths n)"

text \<open>The client behind the interface.\<close>

definition github_client :: "'n gh_client \<Rightarrow> 'n PlatformClient" where
  "github_client c = \<lparr>pc_Discover = gh_Discover c, pc_HasRenovateConfig = gh_HasRenovateConfig c,
     pc_MintAccessToken = gh_MintAccessToken c\<rparr>"

section \<open>Listing\<close>

text \<open>A fetched page as a step of a paged listing.\<close>

definition gh_fetch ::
  "(int \<Rightarrow> 'n \<Rightarrow> gh_page \<times> 'n) \<Rightarrow> (ghRepository \<Rightarrow> bool) \<Rightarrow> int \<Rightarrow> 'n
   \<Rightarrow> (goerror + ghRepository list \<times> int option) \<times> 'n" where
  "gh_fetch fetch keep page n =
     (case fetch page n of
        (Inl fl, n2) \<Rightarrow> (Inl (gh_classify fl), n2)
      | (Inr (rs, nx), n2) \<Rightarrow> (Inr (filter keep rs, if nx = 0 then None else Some nx), n2))"

lemma gh_pages_sound:
  "gh_pages wait fetch keep page all n = Some y \<Longrightarrow> y = (Inr rs, n') \<Longrightarrow>
   \<exists>chunks. page_chain wait (gh_fetch fetch keep) page n chunks n' \<and> rs = all @ concat chunks"
proof (induction arbitrary: rs n' rule: gh_pages.raw_induct [rotated, consumes 1, case_names step])
  case (step run wait fetch keep page all n y)
  from step.hyps step.prems obtain n1 where w: "wait n = (None, n1)"
    by (auto split: prod.splits option.splits)
  with step.hyps step.prems obtain ps nx n2 where f: "fetch page n1 = (Inr (ps, nx), n2)"
    by (auto split: prod.splits sum.splits)
  let ?ps = "filter keep ps"
  have g: "gh_fetch fetch keep page n1 = (Inr (?ps, if nx = 0 then None else Some nx), n2)"
    by (simp add: gh_fetch_def f)
  show ?case
  proof (cases "nx = 0")
    case True
    with step.hyps step.prems w f have "rs = all @ concat [?ps]" "n' = n2" by auto
    moreover have "page_chain wait (gh_fetch fetch keep) page n [?ps] n2"
      using w g True by (auto intro: last_page)
    ultimately show ?thesis by blast
  next
    case False
    with step.hyps step.prems w f have "run wait fetch keep nx (all @ ?ps) n2 = Some y" by simp
    from step.IH [OF this step.prems] obtain chunks
      where "page_chain wait (gh_fetch fetch keep) nx n2 chunks n'" "rs = (all @ ?ps) @ concat chunks"
      by blast
    then have "page_chain wait (gh_fetch fetch keep) page n (?ps # chunks) n' \<and> rs = all @ concat (?ps # chunks)"
      using w g False by (auto intro: more_pages)
    then show ?thesis by blast
  qed
qed

interpretation gh: pager wait "gh_fetch fetch keep" "gh_pages wait fetch keep" for wait fetch keep
proof
  fix p all n
  show "gh_pages wait fetch keep p all n =
      (case wait n of
         (Some e, n1) \<Rightarrow> Some (Inl e, n1)
       | (None, n1) \<Rightarrow>
           (case gh_fetch fetch keep p n1 of
              (Inl e, n2) \<Rightarrow> Some (Inl e, n2)
            | (Inr (rs, None), n2) \<Rightarrow> Some (Inr (all @ rs), n2)
            | (Inr (rs, Some q), n2) \<Rightarrow> gh_pages wait fetch keep q (all @ rs) n2))"
    by (subst gh_pages.simps) (auto simp: gh_fetch_def split: prod.splits option.splits sum.splits)
next
  fix p all n rs n'
  assume "gh_pages wait fetch keep p all n = Some (Inr rs, n')"
  then show "\<exists>chunks. page_chain wait (gh_fetch fetch keep) p n chunks n' \<and> rs = all @ concat chunks"
    by (rule gh_pages_sound) simp
qed

section \<open>The client contract\<close>

lemma gh_anyPatternMatches_iff: "gh_anyPatternMatches name ps \<longleftrightarrow> (\<exists>p\<in>set ps. path_Match p name = Some True)"
  by (induction ps) auto

lemma anyTopicMatches_iff: "anyTopicMatches have want \<longleftrightarrow> (\<exists>t\<in>set want. t \<in> set have)"
  by (induction want) auto

lemma gh_matchesFilter_iff:
  "gh_matchesFilter r f \<longleftrightarrow> admits True f (gh_toRepo r)"
  by (auto simp: gh_matchesFilter_def admits_def pattern_hit_def topic_hit_def gh_toRepo_def
      gh_anyPatternMatches_iff anyTopicMatches_iff)

lemma gh_Discover_filtered:
  "gh_Discover c f n = Some (Inr rs, n') \<Longrightarrow>
   \<exists>repos. rs = map gh_toRepo (filter (\<lambda>r. gh_matchesFilter r f) repos)"
  by (auto simp: gh_Discover_def split: if_splits option.splits sum.splits)

lemma gh_splitSlug_iff:
  "gh_splitSlug slug = Some (owner, name) \<longleftrightarrow>
     slug = owner @ ''/'' @ name \<and> owner \<noteq> [] \<and> name \<noteq> [] \<and> CHR ''/'' \<notin> set owner"
proof (cases "IndexByte slug CHR ''/''")
  case None
  moreover from None have "CHR ''/'' \<notin> set slug" by (simp add: IndexByte_None)
  ultimately show ?thesis by (auto simp: gh_splitSlug_def)
next
  case (Some idx)
  then have i: "idx < length slug" "slug ! idx = CHR ''/''" "CHR ''/'' \<notin> set (take idx slug)"
    by (simp_all add: IndexByte_Some)
  then have split: "slug = take idx slug @ CHR ''/'' # drop (Suc idx) slug"
    using id_take_nth_drop [of idx slug] by simp
  show ?thesis
  proof
    assume "gh_splitSlug slug = Some (owner, name)"
    with Some have "owner = take idx slug" "name = drop (Suc idx) slug" "idx \<noteq> 0" "Suc idx \<noteq> length slug"
      by (auto simp: gh_splitSlug_def split: if_splits)
    with split i show "slug = owner @ ''/'' @ name \<and> owner \<noteq> [] \<and> name \<noteq> [] \<and> CHR ''/'' \<notin> set owner"
      by auto
  next
    assume r: "slug = owner @ ''/'' @ name \<and> owner \<noteq> [] \<and> name \<noteq> [] \<and> CHR ''/'' \<notin> set owner"
    then have "IndexByte slug CHR ''/'' = Some (length owner)"
      using IndexByte_append [of "CHR ''/''" owner name] by simp
    with r show "gh_splitSlug slug = Some (owner, name)" by (auto simp: gh_splitSlug_def)
  qed
qed

interpretation github: platform_client True "github_client c" for c :: "'n gh_client"
proof
  fix f n rs n'
  assume "pc_Discover (github_client c) f n = Some (Inr rs, n')"
  then show "list_all (admits True f) rs"
    by (auto simp: github_client_def list_all_iff gh_matchesFilter_iff dest!: gh_Discover_filtered)
next
  fix f :: DiscoveryFilter and n
  assume "df_owner f = ''''"
  then show "\<exists>e. pc_Discover (github_client c) f n = Some (Inl e, n) \<and> \<not> errors_Is e ErrTransient"
    by (simp add: github_client_def gh_Discover_def)
next
  fix r :: PlatformRepository and n
  assume "CHR ''/'' \<notin> set (pr_slug r)"
  then have "gh_splitSlug (pr_slug r) = None" by (simp add: gh_splitSlug_def)
  then show "\<exists>e. pc_HasRenovateConfig (github_client c) r n = (Inl e, n)"
    by (simp add: github_client_def gh_HasRenovateConfig_def)
qed

section \<open>Properties\<close>

text \<open>
  C38. An App client discovers exactly the repositories of its installation that belong to the
  owner and pass the filter: it returns them when the installation listing is a finite chain of
  pages, and whatever it returns is such a listing's content. No other listing is consulted, so no
  repository outside the installation can appear.
\<close>

theorem app_discover_exact:
  assumes "ghc_appTransport c = Some tr" and "df_owner f \<noteq> ''''"
  shows "gh_Discover c f n = Some (Inr rs, n') \<longleftrightarrow>
    (\<exists>pages. page_chain (gh_wait c)
        (gh_fetch (Apps_ListRepos (ghc_gh c) 100) (\<lambda>r. get_str (gr_ownerLogin r) = df_owner f)) 0 n pages n'
      \<and> rs = map gh_toRepo (filter (\<lambda>r. gh_matchesFilter r f) (concat pages)))"
proof -
  let ?keep = "\<lambda>r. get_str (gr_ownerLogin r) = df_owner f"
  have run: "listInstallationRepos c (df_owner f) n =
      gh_pages (gh_wait c) (Apps_ListRepos (ghc_gh c) 100) ?keep 0 [] n"
    by (simp add: listInstallationRepos_def gh_discoverPageSize_def)
  have "gh_Discover c f n = Some (Inr rs, n') \<longleftrightarrow>
      (\<exists>repos. listInstallationRepos c (df_owner f) n = Some (Inr repos, n') \<and>
         rs = map gh_toRepo (filter (\<lambda>r. gh_matchesFilter r f) repos))"
    using assms by (auto simp: gh_Discover_def split: option.splits sum.splits prod.splits)
  then show ?thesis by (auto simp: run gh.run_iff)
qed

text \<open>A two-page server for the examples; the network state counts requests.\<close>

definition ex_gh_repo :: "string \<Rightarrow> string \<Rightarrow> bool \<Rightarrow> ghRepository" where
  "ex_gh_repo owner name fork = \<lparr>gr_fullName = Some (owner @ ''/'' @ name), gr_defaultBranch = Some ''main'',
     gr_archived = Some False, gr_fork = Some fork, gr_topics = [], gr_ownerLogin = Some owner\<rparr>"

definition ex_gh_sdk :: "nat gh_sdk" where
  "ex_gh_sdk = \<lparr>Apps_ListRepos = (\<lambda>size page n. (if page = 0 then Inr ([ex_gh_repo ''o'' ''a'' False, ex_gh_repo ''x'' ''b'' False], 2)
        else Inr ([ex_gh_repo ''o'' ''c'' True, ex_gh_repo ''o'' ''d'' False], 0), n)),
     Repositories_ListByOrg = (\<lambda>owner size page n. (Inl (Some 404, OtherGhError (errors_New ''nope'')), n)),
     Repositories_ListByUser = (\<lambda>owner size page n. (Inr ([ex_gh_repo owner ''u'' False], 0), n)),
     Repositories_GetContents = (\<lambda>owner name path ref n.
        (if path = ''.renovaterc'' then None else Some (Some 404, OtherGhError (errors_New ''nope'')), n))\<rparr>"

definition ex_tr :: "nat app_transport" where
  "ex_tr = \<lparr>tr_Token = (\<lambda>n. (Inr ''ghs_1'', n)), tr_Expiry = (\<lambda>n. Inr zero_time), tr_BaseURL = '''',
     tr_RoundTrip = (\<lambda>req n. (Inr 200, Suc n))\<rparr>"

definition ex_gh_app :: "nat gh_client" where
  "ex_gh_app = \<lparr>ghc_gh = ex_gh_sdk, ghc_baseURL = '''', ghc_limiter = (\<lambda>n. (None, Suc n)), ghc_appTransport = Some ex_tr,
     ghc_staticToken = ''''\<rparr>"

definition ex_filter :: DiscoveryFilter where
  "ex_filter = \<lparr>df_patterns = [''o/*''], df_topics = [], df_skipForks = True, df_skipArchived = True,
     df_owner = ''o''\<rparr>"

lemma ex_filter_match: "path_Match ''o/*'' name = Some (take 2 name = ''o/'' \<and> CHR ''/'' \<notin> set (drop 2 name))"
  using path_Match_prefix_star [of "''o/''" name] by (simp add: meta_char_def numeral_2_eq_2)

theorem app_discover_exact_witness:
  "gh_Discover ex_gh_app ex_filter 0 =
     Some (Inr (map gh_toRepo [ex_gh_repo ''o'' ''a'' False, ex_gh_repo ''o'' ''d'' False]), 2)"
proof -
  let ?f = "gh_fetch (Apps_ListRepos (ghc_gh ex_gh_app) 100)
      (\<lambda>r. get_str (gr_ownerLogin r) = df_owner ex_filter)"
  have "page_chain (gh_wait ex_gh_app) ?f 2 1
      [[ex_gh_repo ''o'' ''c'' True, ex_gh_repo ''o'' ''d'' False]] 2"
    by (rule last_page) (auto simp: ex_gh_app_def ex_gh_sdk_def gh_fetch_def ex_gh_repo_def
        ex_filter_def get_str_def)
  then have "page_chain (gh_wait ex_gh_app) ?f 0 0
      [[ex_gh_repo ''o'' ''a'' False], [ex_gh_repo ''o'' ''c'' True, ex_gh_repo ''o'' ''d'' False]] 2"
    by (rule more_pages [rotated 2]) (auto simp: ex_gh_app_def ex_gh_sdk_def gh_fetch_def
        ex_gh_repo_def ex_filter_def get_str_def)
  moreover have "filter (\<lambda>r. gh_matchesFilter r ex_filter) (concat [[ex_gh_repo ''o'' ''a'' False],
      [ex_gh_repo ''o'' ''c'' True, ex_gh_repo ''o'' ''d'' False]]) =
      [ex_gh_repo ''o'' ''a'' False, ex_gh_repo ''o'' ''d'' False]"
    by (simp add: gh_matchesFilter_def ex_filter_def ex_gh_repo_def get_bool_def get_str_def ex_filter_match)
  ultimately show ?thesis
    using app_discover_exact [of ex_gh_app ex_tr ex_filter 0 _ 2]
    by (auto simp: ex_gh_app_def ex_filter_def)
qed

text \<open>
  A token client lists the organisation and, only if that answers 404, the user of the same
  name; any other failure is the result as it is.
\<close>

theorem token_discover_fallback:
  assumes "ghc_appTransport c = None" and "df_owner f \<noteq> ''''"
  shows "gh_Discover c f n =
    (case gh_listOrgRepos c (df_owner f) n of
       None \<Rightarrow> None
     | Some (Inr repos, n1) \<Rightarrow> Some (Inr (map gh_toRepo (filter (\<lambda>r. gh_matchesFilter r f) repos)), n1)
     | Some (Inl e, n1) \<Rightarrow>
         if errors_Is e ErrNotFound
         then map_option (map_prod (map_sum id (\<lambda>repos. map gh_toRepo (filter (\<lambda>r. gh_matchesFilter r f) repos))) id)
                (gh_listUserRepos c (df_owner f) n1)
         else Some (Inl e, n1))"
  using assms
  by (auto simp: gh_Discover_def listOrgOrUserRepos_def gh_isNotFound_def
      split: option.splits sum.splits)

theorem token_discover_fallback_witness:
  "\<exists>rs n. gh_Discover (ex_gh_app\<lparr>ghc_appTransport := None\<rparr>) (ex_filter\<lparr>df_owner := ''u''\<rparr>) 0 = Some (Inr rs, n)"
proof -
  let ?c = "ex_gh_app\<lparr>ghc_appTransport := None\<rparr>" and ?f = "ex_filter\<lparr>df_owner := ''u''\<rparr>"
  have "gh_listOrgRepos ?c (df_owner ?f) 0 = Some (Inl (platform_error ErrNotFound (errors_New ''nope'')), 1)"
    by (simp add: gh_listOrgRepos_def gh_pages.simps ex_gh_app_def ex_gh_sdk_def gh_classify_def
        gh_classifyErr_def)
  moreover have "\<exists>rs n. gh_listUserRepos ?c (df_owner ?f) 1 = Some (Inr rs, n)"
    by (simp add: gh_listUserRepos_def gh_pages.simps ex_gh_app_def ex_gh_sdk_def)
  ultimately show ?thesis
    using token_discover_fallback [of ?c ?f 0] by (auto simp: ex_gh_app_def ex_filter_def)
qed

text \<open>
  How GitHub failures are sorted. Rate limits, 429 and 5xx are transient and nothing else is;
  401 and 403 are unauthorized, 404 is not found, and every other failure, a request that got no
  response included, is permanent.
\<close>

theorem gh_classify_table:
  "(errors_Is (gh_classify (resp, err)) ErrTransient \<longleftrightarrow>
      (if is_OtherGhError err then \<exists>s. resp = Some s \<and> (s = 429 \<or> 500 \<le> s) else True)) \<and>
   (errors_Is (gh_classify (resp, err)) ErrUnauthorized \<longleftrightarrow>
      is_OtherGhError err \<and> resp \<in> {Some 401, Some 403}) \<and>
   (errors_Is (gh_classify (resp, err)) ErrNotFound \<longleftrightarrow> is_OtherGhError err \<and> resp = Some 404) \<and>
   (errors_Is (gh_classify (resp, err)) ErrPermanent \<longleftrightarrow>
      is_OtherGhError err \<and> (resp = None \<or>
        (\<exists>s. resp = Some s \<and> s \<notin> {401, 403, 404, 429} \<and> s < 500)))"
  by (cases err; cases resp) (auto simp: gh_classify_def gh_classifyErr_def Let_def)

text \<open>
  On a primary rate limit the suggested wait is the reset instant itself, counted from 1970,
  not the time left until it.
\<close>

theorem rate_limit_retry_is_absolute:
  assumes "0 < Unix reset" and "Unix reset < 9223372036"
  shows "gh_classifyErr resp (Some (RateLimitError reset e)) =
    Some (rate_limited \<lparr>RetryAfter = Unix reset * nanos_per_second, Cause = e\<rparr>)"
proof -
  have "\<not> IsZero reset"
    using assms(1) by (auto simp: IsZero_def Unix_def zero_wall_def nanos_per_second_def)
  moreover have "sint (word_of_int (Unix reset * nanos_per_second) :: 64 word) = Unix reset * nanos_per_second"
    by (rule sint64_of_int) (use assms in \<open>simp_all add: nanos_per_second_def\<close>)
  ultimately show ?thesis using assms by (simp add: gh_classifyErr_def durationFrom_def Let_def)
qed

theorem rate_limit_retry_is_absolute_witness:
  "gh_classifyErr None (Some (RateLimitError \<lparr>wall = 1767225600 * 1000000000, zone = ''UTC''\<rparr> (errors_New ''limited'')))
   = Some (rate_limited \<lparr>RetryAfter = 1767225600 * 1000000000, Cause = errors_New ''limited''\<rparr>)"
  using rate_limit_retry_is_absolute [of "\<lparr>wall = 1767225600 * 1000000000, zone = ''UTC''\<rparr>" None
      "errors_New ''limited''"]
  by (simp add: Unix_def nanos_per_second_def)

lemma gh_probe_stateless:
  assumes "\<And>n. ghc_limiter c n = (None, n)"
    and "\<And>p n. Repositories_GetContents (ghc_gh c) owner name p ref n = (ans p, n)"
  shows "gh_probe c owner name ref ps n = (first_answer (map_option gh_classify \<circ> ans) ps, n)"
  by (induction ps) (auto simp: assms first_answer_def Let_def split: option.splits)

text \<open>
  Probing for a Renovate configuration: a slug that is not \<open>owner/name\<close> is an error; otherwise
  the five paths are asked in order and the first answer that is not a 404 decides, true for a
  file and an error for any other failure; five 404s mean false.
\<close>

theorem gh_has_config_spec:
  assumes "\<forall>n. gh_wait c n = (None, n)"
    and "\<forall>owner name p n. Repositories_GetContents (ghc_gh c) owner name p (pr_defaultBranch repo) n
           = (ans owner name p, n)"
  shows "gh_HasRenovateConfig c repo n =
    (case gh_splitSlug (pr_slug repo) of
       None \<Rightarrow> (Inl (errors_New (''github: invalid slug '' @ go_quote (pr_slug repo))), n)
     | Some (owner, name) \<Rightarrow> (first_answer (map_option gh_classify \<circ> ans owner name) ConfigPaths, n))"
proof (cases "gh_splitSlug (pr_slug repo)")
  case (Some on)
  obtain owner name where on: "on = (owner, name)" by (cases on)
  have "gh_probe c owner name (pr_defaultBranch repo) ConfigPaths n =
      (first_answer (map_option gh_classify \<circ> ans owner name) ConfigPaths, n)"
    by (rule gh_probe_stateless) (use assms in auto)
  then show ?thesis by (simp add: gh_HasRenovateConfig_def Some on)
qed (simp add: gh_HasRenovateConfig_def)

definition ex_still :: "nat gh_client" where
  "ex_still = ex_gh_app\<lparr>ghc_limiter := (\<lambda>n. (None, n))\<rparr>"

theorem gh_has_config_spec_witness:
  "gh_HasRenovateConfig ex_still (gh_toRepo (ex_gh_repo ''o'' ''a'' False)) 7 = (Inr True, 7)"
proof -
  let ?ans = "\<lambda>owner name p. if p = ''.renovaterc'' then None else Some (Some 404, OtherGhError (errors_New ''nope''))"
  have "gh_splitSlug ''o/a'' = Some (''o'', ''a'')" by (simp add: gh_splitSlug_iff)
  moreover have "first_answer (map_option gh_classify \<circ> ?ans ''o'' ''a'') ConfigPaths = Inr True"
    by (simp add: first_answer_def ConfigPaths_def gh_classify_def gh_classifyErr_def)
  moreover have "\<forall>owner name p n. Repositories_GetContents (ghc_gh ex_still) owner name p
      (pr_defaultBranch (gh_toRepo (ex_gh_repo ''o'' ''a'' False))) n = (?ans owner name p, n)"
    by (simp add: ex_still_def ex_gh_app_def ex_gh_sdk_def)
  ultimately show ?thesis
    using gh_has_config_spec [of ex_still
        "gh_toRepo (ex_gh_repo ''o'' ''a'' False)" ?ans 7]
    by (simp add: ex_still_def gh_toRepo_def ex_gh_repo_def get_str_def)
qed

text \<open>
  A minted token: App clients hand out the transport's token with its expiry, token clients the
  configured token with no expiry; construction succeeds only with a credential, so a constructed
  client always has one to hand out.
\<close>

theorem gh_mint_after_construction:
  "(fst (NewWithToken lib ta opts) = Inr c \<longrightarrow>
      gta_token ta \<noteq> [] \<and> gh_MintAccessToken c n = (Inr (gta_token ta, zero_time), n)) \<and>
   (NewWithApp lib aa opts = Inr c \<longrightarrow>
      (\<exists>tr. ghc_appTransport c = Some tr \<and> aa_pem aa \<noteq> [] \<and>
        (\<forall>tok n1 ex. tr_Token tr n = (Inr tok, n1) \<longrightarrow> tr_Expiry tr n1 = Inr ex \<longrightarrow>
           gh_MintAccessToken c n = (Inr (tok, ex), n1))))"
  by (auto simp: NewWithToken_def NewWithApp_def gh_MintAccessToken_def Let_def
      split: if_splits sum.splits)

text \<open>A library for the examples: go-github's content calls send one request with the client they were given.\<close>

definition ex_send :: "nat round_trip" where
  "ex_send req n = (if rq_header req ''Authorization'' = Some [''Bearer pat''] then Inr 200 else Inr 401, Suc n)"

definition ex_gh_lib :: "nat gh_lib" where
  "ex_gh_lib = \<lparr>rate_NewLimiter = (\<lambda>r burst n. (None, n)), ghinstallation_New = (\<lambda>base app inst pem. Inr ex_tr),
     gogithub_NewClient = (\<lambda>hc. ex_gh_sdk), WithEnterpriseURLs = (\<lambda>gh url. Inr gh)\<rparr>"

lemma ex_token_client:
  "\<exists>c. NewWithToken ex_gh_lib \<lparr>gta_token = tok, gta_baseURL = ''''\<rparr> [gh_WithHTTPClient hc] =
     (Inr c, Some (token_http_client tok (Some hc)))" if "tok \<noteq> ''''"
  using that by (simp add: NewWithToken_def ex_gh_lib_def buildGoGitHubClient_def gh_configure_def gh_WithHTTPClient_def Let_def)

theorem gh_mint_after_construction_witness:
  "\<exists>c hc. NewWithToken ex_gh_lib \<lparr>gta_token = ''pat'', gta_baseURL = ''''\<rparr> [gh_WithHTTPClient \<lparr>hc_Transport = None\<rparr>] =
       (Inr c, hc) \<and>
     gh_MintAccessToken c (0 :: nat) = (Inr (''pat'', zero_time), 0)"
proof -
  let ?opts = "[gh_WithHTTPClient \<lparr>hc_Transport = None\<rparr>]"
  obtain c hc where "NewWithToken ex_gh_lib \<lparr>gta_token = ''pat'', gta_baseURL = ''''\<rparr> ?opts = (Inr c, hc)"
    using ex_token_client [of "''pat''"] by blast
  with gh_mint_after_construction [of ex_gh_lib "\<lparr>gta_token = ''pat'', gta_baseURL = ''''\<rparr>" ?opts c 0]
  show ?thesis by auto
qed

text \<open>
  An HTTP client injected into a token client. The constructor wraps its transport: every request
  the client sends carries the token when the transport was there and adds no token itself. When the transport was
  missing, where \<open>net/http\<close> and \<open>NewWithApp\<close> fall back on the default one, every request panics. And a
  client injected a second time still sends the first token.
\<close>

theorem injected_http_client:
  assumes "NewWithToken lib auth (opts @ [gh_WithHTTPClient hc]) = (Inr c, left)"
  shows "\<exists>hc'. left = Some hc' \<and>
    (\<forall>dflt req n. http_Do dflt hc' req n =
       (case hc_Transport hc of
          None \<Rightarrow> None
        | Some (TokenTransport tok base) \<Rightarrow> http_Do dflt hc req n
        | Some tr \<Rightarrow> http_Do dflt hc (with_bearer (gta_token auth) req) n))"
proof -
  have "left = Some (token_http_client (gta_token auth) (Some hc))"
    using assms by (auto simp: NewWithToken_def gh_configure_def gh_WithHTTPClient_def Let_def split: if_splits sum.splits)
  then show ?thesis
    by (auto simp: token_http_client_def http_Do_def split: option.split http_transport.split)
qed

theorem injected_http_client_witness:
  "\<exists>c hc'. NewWithToken ex_gh_lib \<lparr>gta_token = ''pat'', gta_baseURL = ''''\<rparr> [gh_WithHTTPClient \<lparr>hc_Transport = Some DefaultTransport\<rparr>] =
       (Inr c, Some hc') \<and>
     http_Do ex_send hc' \<lparr>rq_url = ''/'', rq_header = Map.empty\<rparr> 0 = Some (Inr 200, 1)"
proof -
  let ?hc = "\<lparr>hc_Transport = Some DefaultTransport\<rparr>"
  obtain c left where c: "NewWithToken ex_gh_lib \<lparr>gta_token = ''pat'', gta_baseURL = ''''\<rparr> ([] @ [gh_WithHTTPClient ?hc]) =
      (Inr c, left)"
    using ex_token_client [of "''pat''" ?hc] by auto
  from injected_http_client [OF this] c show ?thesis
    by (auto simp: http_Do_def ex_send_def with_bearer_def Header_Set_def)
qed

end
