(* ===== verification/ForgejoClient.thy ===== *)
theory ForgejoClient
  imports HttpClient
begin

text \<open>
  Package \<open>internal/platform/forgejo\<close>. The Gitea SDK and the rate limiter are the parameters in the
  record \<open>fj_sdk\<close>, functions over the network state \<open>'n\<close>.
\<close>

section \<open>SDK types\<close>

record fjRepository =
  fr_fullName :: string
  fr_defaultBranch :: string
  fr_archived :: bool
  fr_fork :: bool

text \<open>A failed call: the status, if an HTTP response came back, and the error.\<close>

type_synonym fj_failure = "int option \<times> goerror"

record 'n fj_sdk =
  fj_ListOrgRepos :: "string \<Rightarrow> int \<Rightarrow> int \<Rightarrow> 'n \<Rightarrow> (fj_failure + fjRepository list) \<times> 'n"
  fj_ListUserRepos :: "string \<Rightarrow> int \<Rightarrow> int \<Rightarrow> 'n \<Rightarrow> (fj_failure + fjRepository list) \<times> 'n"
  fj_GetContents :: "string \<Rightarrow> string \<Rightarrow> string \<Rightarrow> string \<Rightarrow> 'n \<Rightarrow> fj_failure option \<times> 'n"

text \<open>\<open>gitea.NewClient\<close>, given the URL, the token and the HTTP client if one is set, and \<open>rate.NewLimiter\<close>.\<close>

record 'n fj_lib =
  fj_NewLimiter :: "'n new_limiter"
  gitea_NewClient :: "string \<Rightarrow> string \<Rightarrow> 'n http_client option \<Rightarrow> 'n fj_sdk res"

section \<open>The client\<close>

record FjAuth =
  fa_baseURL :: string
  fa_token :: string

definition fj_defaultRateLimit :: rat where "fj_defaultRateLimit = 30"
definition fj_defaultRateBurst :: int where "fj_defaultRateBurst = 30"

record 'n fj_config =
  fco_httpClient :: "'n http_client option"
  fco_limiter :: "'n limiter"

type_synonym 'n fj_option = "'n fj_config \<Rightarrow> 'n fj_config"

definition fj_WithRateLimit :: "'n fj_lib \<Rightarrow> rat \<Rightarrow> int \<Rightarrow> 'n fj_option" where
  "fj_WithRateLimit lib r burst c = c\<lparr>fco_limiter := fj_NewLimiter lib r burst\<rparr>"

definition fj_WithHTTPClient :: "'n http_client \<Rightarrow> 'n fj_option" where
  "fj_WithHTTPClient httpClient c = c\<lparr>fco_httpClient := Some httpClient\<rparr>"

record 'n fj_client =
  fjc_gitea :: "'n fj_sdk"
  fjc_limiter :: "'n limiter"
  fjc_staticToken :: string

definition fj_New :: "'n fj_lib \<Rightarrow> FjAuth \<Rightarrow> 'n fj_option list \<Rightarrow> 'n fj_client res" where
  "fj_New lib auth opts =
     (if fa_baseURL auth = '''' then Inl (errors_New ''forgejo: BaseURL required'')
      else if fa_token auth = '''' then Inl (errors_New ''forgejo: Token required'')
      else
        (let c = foldl (\<lambda>c opt. opt c) \<lparr>fco_httpClient = None,
                   fco_limiter = fj_NewLimiter lib fj_defaultRateLimit fj_defaultRateBurst\<rparr> opts
         in case gitea_NewClient lib (TrimRight (fa_baseURL auth) CHR ''/'') (fa_token auth) (fco_httpClient c) of
              Inl e \<Rightarrow> Inl (wrapf ''forgejo: gitea.NewClient: '' e)
            | Inr gc \<Rightarrow> Inr \<lparr>fjc_gitea = gc, fjc_limiter = fco_limiter c, fjc_staticToken = fa_token auth\<rparr>))"

definition fj_wait :: "'n fj_client \<Rightarrow> 'n limiter" where
  [simp]: "fj_wait c = fjc_limiter c"

definition fj_MintAccessToken :: "'n fj_client \<Rightarrow> 'n \<Rightarrow> (string \<times> gotime) res \<times> 'n" where
  "fj_MintAccessToken c n = (Inr (fjc_staticToken c, zero_time), n)"

definition fj_classifyErr :: "int option \<Rightarrow> goerror option \<Rightarrow> goerror option" where
  "fj_classifyErr resp err =
     (case err of
        None \<Rightarrow> None
      | Some e \<Rightarrow>
          (case resp of
             Some status \<Rightarrow>
               if status = 401 \<or> status = 403 then Some (platform_error ErrUnauthorized e)
               else if status = 404 then Some (platform_error ErrNotFound e)
               else if status = 429 then Some (rate_limited \<lparr>RetryAfter = 0, Cause = e\<rparr>)
               else if status \<ge> 500 then Some (platform_error ErrTransient e)
               else Some (platform_error ErrPermanent e)
           | None \<Rightarrow> Some (platform_error ErrTransient e)))"

definition fj_classify :: "fj_failure \<Rightarrow> goerror" where
  "fj_classify fl = the (fj_classifyErr (fst fl) (Some (snd fl)))"

definition fj_isNotFound :: "goerror \<Rightarrow> bool" where
  "fj_isNotFound e = errors_Is e ErrNotFound"

section \<open>Listing\<close>

definition fj_discoverPageSize :: nat where
  "fj_discoverPageSize = 50"

text \<open>
  The loop the two listings share: ask for page after page until one comes back short. A server
  that always fills its pages keeps it going for ever: \<open>None\<close>.
\<close>

partial_function (option) fj_pages ::
  "('n \<Rightarrow> goerror option \<times> 'n) \<Rightarrow> (int \<Rightarrow> 'n \<Rightarrow> (fj_failure + fjRepository list) \<times> 'n) \<Rightarrow> int
   \<Rightarrow> fjRepository list \<Rightarrow> 'n \<Rightarrow> (fjRepository list res \<times> 'n) option" where
  [code]: "fj_pages wait fetch page all n =
     (case wait n of
        (Some e, n1) \<Rightarrow> Some (Inl e, n1)
      | (None, n1) \<Rightarrow>
          (case fetch page n1 of
             (Inl fl, n2) \<Rightarrow> Some (Inl (fj_classify fl), n2)
           | (Inr repos, n2) \<Rightarrow>
               (if length repos < fj_discoverPageSize then Some (Inr (all @ repos), n2)
                else fj_pages wait fetch (page + 1) (all @ repos) n2)))"

definition fj_listOrgRepos ::
  "'n fj_client \<Rightarrow> string \<Rightarrow> 'n \<Rightarrow> (fjRepository list res \<times> 'n) option" where
  "fj_listOrgRepos c owner n =
     fj_pages (fj_wait c)
       (fj_ListOrgRepos (fjc_gitea c) owner (int fj_discoverPageSize)) 1 [] n"

definition fj_listUserRepos ::
  "'n fj_client \<Rightarrow> string \<Rightarrow> 'n \<Rightarrow> (fjRepository list res \<times> 'n) option" where
  "fj_listUserRepos c owner n =
     fj_pages (fj_wait c)
       (fj_ListUserRepos (fjc_gitea c) owner (int fj_discoverPageSize)) 1 [] n"

section \<open>Filtering\<close>

fun fj_anyPatternMatches :: "string \<Rightarrow> string list \<Rightarrow> bool" where
  "fj_anyPatternMatches fullName [] = False"
| "fj_anyPatternMatches fullName (p # patterns) =
     (if path_Match p fullName = Some True then True else fj_anyPatternMatches fullName patterns)"

definition fj_matchesFilter :: "fjRepository \<Rightarrow> DiscoveryFilter \<Rightarrow> bool" where
  "fj_matchesFilter r f =
     (if df_skipArchived f \<and> fr_archived r then False
      else if df_skipForks f \<and> fr_fork r then False
      else if df_patterns f \<noteq> [] \<and> \<not> fj_anyPatternMatches (fr_fullName r) (df_patterns f) then False
      else True)"

definition fj_toRepo :: "fjRepository \<Rightarrow> PlatformRepository" where
  "fj_toRepo r = \<lparr>pr_slug = fr_fullName r, pr_defaultBranch = fr_defaultBranch r,
     pr_archived = fr_archived r, pr_fork = fr_fork r, pr_topics = []\<rparr>"

definition fj_Discover ::
  "'n fj_client \<Rightarrow> DiscoveryFilter \<Rightarrow> 'n \<Rightarrow> (PlatformRepository list res \<times> 'n) option" where
  "fj_Discover c f n =
     (if df_owner f = '''' then Some (Inl (errors_New ''forgejo: DiscoveryFilter.Owner required''), n)
      else (case (case fj_listOrgRepos c (df_owner f) n of
                    None \<Rightarrow> None
                  | Some (Inl e, n1) \<Rightarrow>
                      if \<not> fj_isNotFound e then Some (Inl e, n1) else fj_listUserRepos c (df_owner f) n1
                  | Some (Inr repos, n1) \<Rightarrow> Some (Inr repos, n1)) of
              None \<Rightarrow> None
            | Some (Inl e, n1) \<Rightarrow> Some (Inl e, n1)
            | Some (Inr repos, n1) \<Rightarrow>
                Some (Inr (map fj_toRepo (filter (\<lambda>r. fj_matchesFilter r f) repos)), n1)))"

section \<open>Probing for a configuration file\<close>

definition fj_splitSlug :: "string \<Rightarrow> (string \<times> string) option" where
  "fj_splitSlug slug =
     (case IndexByte slug CHR ''/'' of
        None \<Rightarrow> None
      | Some idx \<Rightarrow>
          if idx = 0 \<or> Suc idx = length slug then None
          else Some (take idx slug, drop (Suc idx) slug))"

fun fj_probe :: "'n fj_client \<Rightarrow> string \<Rightarrow> string \<Rightarrow> string \<Rightarrow> string list \<Rightarrow> 'n \<Rightarrow> bool res \<times> 'n" where
  "fj_probe c owner name ref [] n = (Inr False, n)"
| "fj_probe c owner name ref (p # ps) n =
     (case fj_wait c n of
        (Some e, n1) \<Rightarrow> (Inl e, n1)
      | (None, n1) \<Rightarrow>
          (case fj_GetContents (fjc_gitea c) owner name ref p n1 of
             (None, n2) \<Rightarrow> (Inr True, n2)
           | (Some fl, n2) \<Rightarrow>
               (let classified = fj_classify fl in
                if errors_Is classified ErrNotFound then fj_probe c owner name ref ps n2
                else (Inl classified, n2))))"

definition fj_HasRenovateConfig :: "'n fj_client \<Rightarrow> PlatformRepository \<Rightarrow> 'n \<Rightarrow> bool res \<times> 'n" where
  "fj_HasRenovateConfig c repo n =
     (case fj_splitSlug (pr_slug repo) of
        None \<Rightarrow> (Inl (errors_New (''forgejo: invalid slug '' @ go_quote (pr_slug repo))), n)
      | Some (owner, name) \<Rightarrow>
          fj_probe c owner name (pr_defaultBranch repo) ConfigPaths n)"

text \<open>The client behind the interface.\<close>

definition forgejo_client :: "'n fj_client \<Rightarrow> 'n PlatformClient" where
  "forgejo_client c = \<lparr>pc_Discover = fj_Discover c, pc_HasRenovateConfig = fj_HasRenovateConfig c,
     pc_MintAccessToken = fj_MintAccessToken c\<rparr>"

section \<open>Listing as a chain of pages\<close>

definition fj_fetch ::
  "(int \<Rightarrow> 'n \<Rightarrow> (fj_failure + fjRepository list) \<times> 'n) \<Rightarrow> int \<Rightarrow> 'n
   \<Rightarrow> (goerror + fjRepository list \<times> int option) \<times> 'n" where
  "fj_fetch fetch page n =
     (case fetch page n of
        (Inl fl, n2) \<Rightarrow> (Inl (fj_classify fl), n2)
      | (Inr rs, n2) \<Rightarrow>
          (Inr (rs, if length rs < fj_discoverPageSize then None else Some (page + 1)), n2))"

lemma fj_pages_sound:
  "fj_pages wait fetch page all n = Some y \<Longrightarrow> y = (Inr rs, n') \<Longrightarrow>
   \<exists>chunks. page_chain wait (fj_fetch fetch) page n chunks n' \<and> rs = all @ concat chunks"
proof (induction arbitrary: rs n' rule: fj_pages.raw_induct [rotated, consumes 1, case_names step])
  case (step run wait fetch page all n y)
  from step.hyps step.prems obtain n1 where w: "wait n = (None, n1)"
    by (auto split: prod.splits option.splits)
  with step.hyps step.prems obtain ps n2 where f: "fetch page n1 = (Inr ps, n2)"
    by (auto split: prod.splits sum.splits)
  have g: "fj_fetch fetch page n1
      = (Inr (ps, if length ps < fj_discoverPageSize then None else Some (page + 1)), n2)"
    by (simp add: fj_fetch_def f)
  show ?case
  proof (cases "length ps < fj_discoverPageSize")
    case True
    with step.hyps step.prems w f have "rs = all @ concat [ps]" "n' = n2" by auto
    moreover have "page_chain wait (fj_fetch fetch) page n [ps] n2"
      using w g True by (auto intro: last_page)
    ultimately show ?thesis by blast
  next
    case False
    with step.hyps step.prems w f have "run wait fetch (page + 1) (all @ ps) n2 = Some y" by simp
    from step.IH [OF this step.prems] obtain chunks
      where "page_chain wait (fj_fetch fetch) (page + 1) n2 chunks n'" "rs = (all @ ps) @ concat chunks"
      by blast
    then have "page_chain wait (fj_fetch fetch) page n (ps # chunks) n' \<and> rs = all @ concat (ps # chunks)"
      using w g False by (auto intro: more_pages)
    then show ?thesis by blast
  qed
qed

interpretation fj: pager wait "fj_fetch fetch" "fj_pages wait fetch" for wait fetch
proof
  fix p all n
  show "fj_pages wait fetch p all n =
      (case wait n of
         (Some e, n1) \<Rightarrow> Some (Inl e, n1)
       | (None, n1) \<Rightarrow>
           (case fj_fetch fetch p n1 of
              (Inl e, n2) \<Rightarrow> Some (Inl e, n2)
            | (Inr (rs, None), n2) \<Rightarrow> Some (Inr (all @ rs), n2)
            | (Inr (rs, Some q), n2) \<Rightarrow> fj_pages wait fetch q (all @ rs) n2))"
    by (subst fj_pages.simps) (auto simp: fj_fetch_def split: prod.splits option.splits sum.splits)
next
  fix p all n rs n'
  assume "fj_pages wait fetch p all n = Some (Inr rs, n')"
  then show "\<exists>chunks. page_chain wait (fj_fetch fetch) p n chunks n' \<and> rs = all @ concat chunks"
    by (rule fj_pages_sound) simp
qed

section \<open>The client contract\<close>

lemma fj_anyPatternMatches_iff: "fj_anyPatternMatches name ps \<longleftrightarrow> (\<exists>p\<in>set ps. path_Match p name = Some True)"
  by (induction ps) auto

lemma fj_matchesFilter_iff: "fj_matchesFilter r f \<longleftrightarrow> admits False f (fj_toRepo r)"
  by (auto simp: fj_matchesFilter_def admits_def pattern_hit_def fj_toRepo_def fj_anyPatternMatches_iff)

lemma fj_Discover_filtered:
  "fj_Discover c f n = Some (Inr rs, n') \<Longrightarrow>
   \<exists>repos. rs = map fj_toRepo (filter (\<lambda>r. fj_matchesFilter r f) repos)"
  by (auto simp: fj_Discover_def split: if_splits option.splits sum.splits)

interpretation forgejo: platform_client False "forgejo_client c" for c :: "'n fj_client"
proof
  fix f n rs n'
  assume "pc_Discover (forgejo_client c) f n = Some (Inr rs, n')"
  then show "list_all (admits False f) rs"
    by (auto simp: forgejo_client_def list_all_iff fj_matchesFilter_iff dest!: fj_Discover_filtered)
next
  fix f :: DiscoveryFilter and n
  assume "df_owner f = ''''"
  then show "\<exists>e. pc_Discover (forgejo_client c) f n = Some (Inl e, n) \<and> \<not> errors_Is e ErrTransient"
    by (simp add: forgejo_client_def fj_Discover_def)
next
  fix r :: PlatformRepository and n
  assume "CHR ''/'' \<notin> set (pr_slug r)"
  then have "fj_splitSlug (pr_slug r) = None" by (simp add: fj_splitSlug_def)
  then show "\<exists>e. pc_HasRenovateConfig (forgejo_client c) r n = (Inl e, n)"
    by (simp add: forgejo_client_def fj_HasRenovateConfig_def)
qed

section \<open>Properties\<close>

text \<open>
  C40. Forgejo discovery over an organisation listing returns exactly the listed repositories that
  pass the filter, and only a listing whose pages are all full but the last can be returned.
\<close>

theorem fj_discover_exact:
  assumes "df_owner f \<noteq> ''''"
    and "page_chain (fj_wait c) (fj_fetch (fj_ListOrgRepos (fjc_gitea c) (df_owner f) 50)) 1 n pages n'"
  shows "fj_Discover c f n = Some (Inr (map fj_toRepo (filter (\<lambda>r. fj_matchesFilter r f) (concat pages))), n')
    \<and> list_all (\<lambda>p. 50 \<le> length p) (butlast pages) \<and> length (last pages) < 50"
proof
  have "fj_listOrgRepos c (df_owner f) n = Some (Inr (concat pages), n')"
    using fj.run_chain [OF assms(2), of "[]"] by (simp add: fj_listOrgRepos_def fj_discoverPageSize_def)
  then show "fj_Discover c f n = Some (Inr (map fj_toRepo (filter (\<lambda>r. fj_matchesFilter r f) (concat pages))), n')"
    using assms(1) by (simp add: fj_Discover_def)
  show "list_all (\<lambda>p. 50 \<le> length p) (butlast pages) \<and> length (last pages) < 50"
    using assms(2)
    by induction (auto simp: fj_fetch_def fj_discoverPageSize_def split: prod.splits sum.splits if_splits
        elim: page_chain.cases)
qed

definition ex_fj_sdk :: "nat fj_sdk" where
  "ex_fj_sdk = \<lparr>fj_ListOrgRepos = (\<lambda>owner size page n.
        (Inr [\<lparr>fr_fullName = owner @ ''/a'', fr_defaultBranch = ''main'', fr_archived = False, fr_fork = False\<rparr>,
              \<lparr>fr_fullName = owner @ ''/b'', fr_defaultBranch = ''main'', fr_archived = False, fr_fork = True\<rparr>], n)),
     fj_ListUserRepos = (\<lambda>owner size page n. (Inr [], n)),
     fj_GetContents = (\<lambda>owner name ref path n. (None, n))\<rparr>"

definition ex_fj :: "nat fj_client" where
  "ex_fj = \<lparr>fjc_gitea = ex_fj_sdk, fjc_limiter = (\<lambda>n. (None, Suc n)), fjc_staticToken = ''tok''\<rparr>"

theorem fj_discover_exact_witness:
  "\<exists>r. fj_Discover ex_fj \<lparr>df_patterns = [], df_topics = [], df_skipForks = True, df_skipArchived = True,
     df_owner = ''o''\<rparr> 0 = Some (Inr [r], 1) \<and> pr_slug r = ''o/a''"
proof -
  let ?f = "\<lparr>df_patterns = [], df_topics = [], df_skipForks = True, df_skipArchived = True, df_owner = ''o''\<rparr>"
  have "page_chain (fj_wait ex_fj) (fj_fetch (fj_ListOrgRepos (fjc_gitea ex_fj) (df_owner ?f) 50)) 1 0
     [[\<lparr>fr_fullName = ''o/a'', fr_defaultBranch = ''main'', fr_archived = False, fr_fork = False\<rparr>,
       \<lparr>fr_fullName = ''o/b'', fr_defaultBranch = ''main'', fr_archived = False, fr_fork = True\<rparr>]] 1"
    by (rule last_page) (auto simp: ex_fj_def ex_fj_sdk_def fj_fetch_def fj_discoverPageSize_def)
  from fj_discover_exact [OF _ this] show ?thesis
    by (simp add: fj_matchesFilter_def fj_toRepo_def)
qed

text \<open>
  How Forgejo failures are sorted. It differs from GitHub's sorting in one place: a request that
  got no response is transient.
\<close>

theorem fj_classify_table:
  "(errors_Is (fj_classify (resp, err)) ErrTransient \<longleftrightarrow>
      resp = None \<or> (\<exists>s. resp = Some s \<and> (s = 429 \<or> 500 \<le> s))) \<and>
   (errors_Is (fj_classify (resp, err)) ErrUnauthorized \<longleftrightarrow> resp \<in> {Some 401, Some 403}) \<and>
   (errors_Is (fj_classify (resp, err)) ErrNotFound \<longleftrightarrow> resp = Some 404) \<and>
   (errors_Is (fj_classify (resp, err)) ErrPermanent \<longleftrightarrow>
      (\<exists>s. resp = Some s \<and> s \<notin> {401, 403, 404, 429} \<and> s < 500))"
  by (cases resp) (auto simp: fj_classify_def fj_classifyErr_def)

end
