(* ===== verification/ClientFactory.thy ===== *)
theory ClientFactory
  imports GithubClient ForgejoClient
begin

text \<open>
  \<open>internal/controller/platform_factory.go\<close>: the production factory of platform clients. The two
  SDKs it constructs are the parameters \<open>lib\<close> and \<open>fjlib\<close> of the client theories.
\<close>

definition defaultGitHubAppPEMKey :: string where "defaultGitHubAppPEMKey = ''private-key.pem''"
definition defaultTokenKey :: string where "defaultTokenKey = ''token''"

text \<open>The lookup both branches share: the configured key or its default, in the Secret's data.\<close>

definition secretValue :: "Secret \<Rightarrow> string \<Rightarrow> string \<Rightarrow> string res" where
  "secretValue secret key0 deflt =
     (let key = (if key0 = '''' then deflt else key0) in
      case map_of (sec_data secret) key of
        None \<Rightarrow> Inl (errors_New (''controller: secret '' @ m_name (sec_meta secret) @ '' missing key '' @ go_quote key))
      | Some v \<Rightarrow> Inr v)"

definition DefaultPlatformClientFactory ::
  "'n gh_lib \<Rightarrow> 'n fj_lib \<Rightarrow> RenovatePlatformSpec \<Rightarrow> Secret \<Rightarrow> 'n PlatformClient res" where
  "DefaultPlatformClientFactory lib fjlib snapshot secret =
     (case ps_platformType snapshot of
        PlatformTypeGitHub \<Rightarrow>
          (case pa_githubApp (ps_auth snapshot) of
             None \<Rightarrow> Inl (errors_New ''controller: github platform requires githubApp auth'')
           | Some app \<Rightarrow>
             (case secretValue secret (skr_key (gha_privateKeyRef app)) defaultGitHubAppPEMKey of
                Inl e \<Rightarrow> Inl e
              | Inr pem \<Rightarrow>
                (case NewWithApp lib \<lparr>aa_appID = gha_appID app, aa_installationID = gha_installationID app,
                                      aa_pem = pem, aa_baseURL = ps_baseURL snapshot\<rparr> [] of
                   Inl e \<Rightarrow> Inl e
                 | Inr c \<Rightarrow> Inr (github_client c))))
      | PlatformTypeForgejo \<Rightarrow>
          (case pa_token (ps_auth snapshot) of
             None \<Rightarrow> Inl (errors_New ''controller: forgejo platform requires token auth'')
           | Some tok \<Rightarrow>
             (case secretValue secret (skr_key (ta_secretRef tok)) defaultTokenKey of
                Inl e \<Rightarrow> Inl e
              | Inr v \<Rightarrow>
                (case fj_New fjlib \<lparr>fa_baseURL = ps_baseURL snapshot, fa_token = v\<rparr> [] of
                   Inl e \<Rightarrow> Inl e
                 | Inr c \<Rightarrow> Inr (forgejo_client c))))
      | OtherPlatformType t \<Rightarrow> Inl (errors_New (''controller: unknown platformType '' @ go_quote t)))"

text \<open>Every client the factory hands out keeps the interface's contract, with topics for GitHub.\<close>

lemma factory_client:
  "DefaultPlatformClientFactory lib fjlib snapshot secret = Inr C \<Longrightarrow>
   platform_client (ps_platformType snapshot = PlatformTypeGitHub) C"
  by (auto simp: DefaultPlatformClientFactory_def github.platform_client_axioms forgejo.platform_client_axioms
      split: PlatformType.splits option.splits sum.splits)

lemma factory_github_token:
  "ps_platformType snapshot = PlatformTypeGitHub \<Longrightarrow> pa_githubApp (ps_auth snapshot) = None \<Longrightarrow>
   \<exists>e. DefaultPlatformClientFactory lib fjlib snapshot secret = Inl e"
  by (simp add: DefaultPlatformClientFactory_def)

end
