(* ===== verification/PlatformReconciler.thy ===== *)
theory PlatformReconciler
  imports Kube ClientFactory
begin

text \<open>
  The Platform controller (\<open>internal/controller/renovateplatform_controller.go\<close>) and its watch
  predicate (\<open>predicates.go\<close>). PEM decoding and private-key parsing (\<open>encoding/pem\<close>,
  \<open>crypto/x509\<close>) are parameters: \<open>pl_pemDecode\<close> gives the first block's bytes, if there is one,
  the parsers say whether they accept them.
\<close>

section \<open>The reconciler\<close>

record 's RenovatePlatformReconciler =
  pl_Client :: "'s kclient"
  pl_OperatorNamespace :: string
  pl_meta :: meta_api
  pl_metaNow :: "nat \<Rightarrow> gotime"
  pl_pemDecode :: "string \<Rightarrow> string option"
  pl_parsePKCS1 :: "string \<Rightarrow> bool"
  pl_parsePKCS8 :: "string \<Rightarrow> bool"

definition requeueAfterPlatformError :: int where
  "requeueAfterPlatformError = 60 * nanos_per_second"

definition resolveAuthRef :: "RenovatePlatform \<Rightarrow> (string \<times> string) res" where
  "resolveAuthRef p =
     (let auth = ps_auth (plat_spec p) in
      case pa_githubApp auth of
        Some app \<Rightarrow>
          (let ref = gha_privateKeyRef app in
           if skr_name ref = '''' then Inl (errors_New ''auth.githubApp.privateKeyRef.name required'')
           else Inr (skr_name ref, if skr_key ref = '''' then defaultGitHubAppPEMKey else skr_key ref))
      | None \<Rightarrow>
        (case pa_token auth of
           Some tok \<Rightarrow>
             (let ref = ta_secretRef tok in
              if skr_name ref = '''' then Inl (errors_New ''auth.token.secretRef.name required'')
              else Inr (skr_name ref, if skr_key ref = '''' then defaultTokenKey else skr_key ref))
         | None \<Rightarrow> Inl (errors_New ''auth must specify githubApp or token'')))"

definition validateAuthMaterial :: "'s RenovatePlatformReconciler \<Rightarrow> RenovatePlatform \<Rightarrow> string \<Rightarrow> goerror option" where
  "validateAuthMaterial P p data =
     (if pa_githubApp (ps_auth (plat_spec p)) \<noteq> None then
        (case pl_pemDecode P data of
           None \<Rightarrow> Some (errors_New ''github app private key is not PEM-encoded'')
         | Some block \<Rightarrow>
             if pl_parsePKCS1 P block then None
             else if pl_parsePKCS8 P block then None
             else Some (errors_New ''github app private key is not parseable as PKCS1 or PKCS8''))
      else None)"

abbreviation on_pstatus :: "(RenovatePlatformStatus \<Rightarrow> RenovatePlatformStatus) \<Rightarrow> RenovatePlatform \<Rightarrow> RenovatePlatform" where
  "on_pstatus f p \<equiv> p\<lparr>plat_status := f (plat_status p)\<rparr>"

definition plat_mark ::
  "(meta_api \<Rightarrow> gotime \<Rightarrow> Condition list \<Rightarrow> string \<Rightarrow> string \<Rightarrow> string \<Rightarrow> int \<Rightarrow> Condition list)
   \<Rightarrow> 's RenovatePlatformReconciler \<Rightarrow> string \<Rightarrow> string \<Rightarrow> RenovatePlatform \<Rightarrow> ('s, 'n) world
   \<Rightarrow> RenovatePlatform \<times> ('s, 'n) world" where
  "plat_mark mark P reason msg p w =
     (let (t, w1) = read_clock (pl_metaNow P) w in
      (on_pstatus (\<lambda>st. st\<lparr>pst_conditions :=
         mark (pl_meta P) t (pst_conditions st) TypeReady reason msg (m_generation (plat_meta p))\<rparr>) p, w1))"

definition platform_reconcile ::
  "'s RenovatePlatformReconciler \<Rightarrow> RenovatePlatform \<Rightarrow> ('s, 'n) world
   \<Rightarrow> outcome \<times> RenovatePlatform \<times> ('s, 'n) world" where
  "platform_reconcile P p0 w =
     (let p = on_pstatus (\<lambda>st. st\<lparr>pst_observedGeneration := m_generation (plat_meta p0)\<rparr>) p0 in
      case resolveAuthRef p of
        Inl e \<Rightarrow> ((noRequeue, None), plat_mark mark_false P ReasonAuthFailed (err_msg e) p w)
      | Inr (secretName, dataKey) \<Rightarrow>
        (case Get_Secret (pl_Client P) (pl_OperatorNamespace P) secretName (w_cluster w) of
           Inl e \<Rightarrow>
             if IsNotFound e then
               ((requeue_in requeueAfterPlatformError, None),
                plat_mark mark_false P ReasonSecretNotFound
                  (''Secret '' @ pl_OperatorNamespace P @ ''/'' @ secretName @ '' not found'') p w)
             else ((noRequeue, Some (wrapf ''get secret: '' e)), p, w)
         | Inr secret \<Rightarrow>
           (case map_of (sec_data secret) dataKey of
              None \<Rightarrow>
                ((requeue_in requeueAfterPlatformError, None),
                 plat_mark mark_false P ReasonKeyMissing
                   (''Secret '' @ pl_OperatorNamespace P @ ''/'' @ secretName @ '' missing key '' @ go_quote dataKey) p w)
            | Some v \<Rightarrow>
                if v = [] then
                  ((requeue_in requeueAfterPlatformError, None),
                   plat_mark mark_false P ReasonKeyMissing
                     (''Secret '' @ pl_OperatorNamespace P @ ''/'' @ secretName @ '' missing key '' @ go_quote dataKey) p w)
                else (case validateAuthMaterial P p v of
                        Some e \<Rightarrow> ((noRequeue, None), plat_mark mark_false P ReasonAuthFailed (err_msg e) p w)
                      | None \<Rightarrow> ((noRequeue, None),
                                 plat_mark mark_true P ReasonCredentialsResolved ''credentials resolved'' p w)))))"

definition platform_Reconcile ::
  "'s RenovatePlatformReconciler \<Rightarrow> string \<Rightarrow> ('s, 'n) world \<Rightarrow> (outcome \<times> ('s, 'n) world) option" where
  "platform_Reconcile P name w =
     (case Get_Platform (pl_Client P) name (w_cluster w) of
        Inl e \<Rightarrow> Some ((noRequeue, IgnoreNotFound e), w)
      | Inr p \<Rightarrow>
        (case platform_reconcile P p w of
           ((result, err), p', w1) \<Rightarrow>
           (case on_cluster (StatusUpdate_Platform (pl_Client P) p') w1 of
              (None, w2) \<Rightarrow> Some ((result, err), w2)
            | (Some ue, w2) \<Rightarrow>
                if IsConflict ue then Some ((requeue_in requeueAfterStatusConflict, None), w2)
                else Some ((result, if err = None then Some ue else err), w2))))"

interpretation platform_shell: reconcile_shell
  "\<lambda>w. Get_Platform (pl_Client P) name (w_cluster w)" "\<lambda>p w. Some (platform_reconcile P p w)"
  "\<lambda>p. on_cluster (StatusUpdate_Platform (pl_Client P) p)" "platform_Reconcile P name"
  for P :: "'s RenovatePlatformReconciler" and name
  by unfold_locales (simp add: platform_Reconcile_def split: sum.split option.split prod.split)

section \<open>Watches\<close>

definition secretInOperatorNamespacePredicate :: "string \<Rightarrow> ObjectMeta \<Rightarrow> bool" where
  "secretInOperatorNamespacePredicate operatorNS obj = (m_namespace obj = operatorNS)"

text \<open>The names of the Platforms to reconcile when a Secret changes; an object of another kind is \<open>None\<close>.\<close>

definition platformsForSecret ::
  "'s RenovatePlatformReconciler \<Rightarrow> Secret option \<Rightarrow> 's \<Rightarrow> string list" where
  "platformsForSecret P obj s =
     (case obj of
        None \<Rightarrow> []
      | Some secret \<Rightarrow>
          if m_namespace (sec_meta secret) \<noteq> pl_OperatorNamespace P then []
          else (case List_Platforms (pl_Client P) s of
                  Inl e \<Rightarrow> []
                | Inr items \<Rightarrow>
                    map plat_name (filter (\<lambda>p. case resolveAuthRef p of
                        Inl e \<Rightarrow> False | Inr (name, key) \<Rightarrow> name = m_name (sec_meta secret)) items)))"

section \<open>Properties\<close>

definition credentials_ok :: "'s RenovatePlatformReconciler \<Rightarrow> RenovatePlatform \<Rightarrow> 's \<Rightarrow> bool" where
  "credentials_ok P p s =
     (case resolveAuthRef p of
        Inl e \<Rightarrow> False
      | Inr (name, key) \<Rightarrow>
        (case Get_Secret (pl_Client P) (pl_OperatorNamespace P) name s of
           Inl e \<Rightarrow> False
         | Inr secret \<Rightarrow>
           (case map_of (sec_data secret) key of
              None \<Rightarrow> False
            | Some v \<Rightarrow> v \<noteq> [] \<and> validateAuthMaterial P p v = None)))"

lemma plat_status_irrelevant [simp]:
  "resolveAuthRef (p\<lparr>plat_status := st\<rparr>) = resolveAuthRef p"
  "validateAuthMaterial P (p\<lparr>plat_status := st\<rparr>) v = validateAuthMaterial P p v"
  by (simp_all add: resolveAuthRef_def validateAuthMaterial_def)

lemma plat_mark_ready:
  assumes "meta_conditions (pl_meta P)" and "\<not> IsZero (pl_metaNow P (w_ticks w))"
  shows "plat_mark mark_true P rs ms p w = (p', w') \<Longrightarrow>
      IsTrue (pl_meta P) (pst_conditions (plat_status p')) TypeReady"
    and "plat_mark mark_false P rs ms p w = (p', w') \<Longrightarrow>
      \<not> IsTrue (pl_meta P) (pst_conditions (plat_status p')) TypeReady"
  using meta_conditions.cond_marks(1,2) [OF assms] by (auto simp: plat_mark_def read_clock_def)

text \<open>
  C28. A Platform is Ready after a reconcile exactly when its credential resolves: the auth
  reference names a Secret of the operator namespace whose key holds a non-empty value that is a
  parseable private key where an App key is required. Only a Secret that cannot be read for
  another reason than absence is an error, and then the condition is left as it was.
\<close>

theorem platform_ready_iff:
  assumes "meta_conditions (pl_meta P)" and "\<not> IsZero (pl_metaNow P (w_ticks w))"
    and "platform_reconcile P p w = ((res, err), p', w')"
  shows "if err = None
    then IsTrue (pl_meta P) (pst_conditions (plat_status p')) TypeReady \<longleftrightarrow> credentials_ok P p (w_cluster w)
    else pst_conditions (plat_status p') = pst_conditions (plat_status p) \<and>
         (\<exists>name key e. resolveAuthRef p = Inr (name, key) \<and> \<not> IsNotFound e \<and>
            Get_Secret (pl_Client P) (pl_OperatorNamespace P) name (w_cluster w) = Inl e)"
proof -
  note ready = plat_mark_ready [OF assms(1,2)]
  from assms(3) show ?thesis
    by (auto simp: platform_reconcile_def credentials_ok_def Let_def
        split: sum.splits option.splits if_splits prod.splits dest: ready)
qed

subsection \<open>An example controller\<close>

definition ex_plat_clock :: "nat \<Rightarrow> gotime" where
  "ex_plat_clock i = \<lparr>wall = int i, zone = ''UTC''\<rparr>"

definition ex_P :: "cluster RenovatePlatformReconciler" where
  "ex_P = \<lparr>pl_Client = sim_client, pl_OperatorNamespace = ''ops'', pl_meta = ref_meta, pl_metaNow = ex_plat_clock,
     pl_pemDecode = (\<lambda>s. None), pl_parsePKCS1 = (\<lambda>s. False), pl_parsePKCS8 = (\<lambda>s. False)\<rparr>"

definition ex_token_platform :: "PlatformType \<Rightarrow> RenovatePlatform" where
  "ex_token_platform ty = \<lparr>plat_meta = empty_meta\<lparr>m_name := ''forge''\<rparr>,
     plat_spec = \<lparr>ps_platformType = ty, ps_baseURL = ''https://code.example'',
       ps_auth = \<lparr>pa_githubApp = None, pa_token = Some \<lparr>ta_secretRef = \<lparr>skr_name = ''creds'', skr_key = ''''\<rparr>\<rparr>\<rparr>,
       ps_runnerConfig = None, ps_presetRepoRef = '''', ps_renovateImage = ''renovate:43'', ps_logLevel = None\<rparr>,
     plat_status = \<lparr>pst_conditions = [], pst_observedGeneration = 0\<rparr>\<rparr>"

definition ex_creds :: Secret where
  "ex_creds = \<lparr>sec_meta = empty_meta\<lparr>m_name := ''creds'', m_namespace := ''ops''\<rparr>, sec_type = ''Opaque'',
     sec_data = [(''token'', ''tok'')]\<rparr>"

definition ex_plat_world :: "(cluster, nat) world" where
  "ex_plat_world = \<lparr>w_cluster = empty_cluster\<lparr>cl_secrets := [ex_creds]\<rparr>, w_net = 0, w_ticks = 0, w_metrics = []\<rparr>"

lemma ex_P_libs: "meta_conditions (pl_meta ex_P)" "\<not> IsZero (pl_metaNow ex_P i)"
  by (simp_all add: ex_P_def ref.meta_conditions_axioms ex_plat_clock_def IsZero_def zero_wall_def
      nanos_per_second_def)

lemma ex_credentials: "credentials_ok ex_P (ex_token_platform ty) (w_cluster ex_plat_world)"
  by (simp add: credentials_ok_def resolveAuthRef_def ex_token_platform_def ex_P_def sim_client_def sim_get_def
      ex_plat_world_def is_at_def ex_creds_def defaultTokenKey_def validateAuthMaterial_def Let_def)

lemma ex_no_error: "snd (fst (platform_reconcile ex_P (ex_token_platform ty) ex_plat_world)) = None"
  by (simp add: platform_reconcile_def resolveAuthRef_def ex_token_platform_def ex_P_def sim_client_def sim_get_def
      ex_plat_world_def is_at_def ex_creds_def defaultTokenKey_def validateAuthMaterial_def Let_def)

theorem platform_ready_iff_witness:
  "\<exists>res p' w'. platform_reconcile ex_P (ex_token_platform PlatformTypeForgejo) ex_plat_world = ((res, None), p', w') \<and>
     IsTrue ref_meta (pst_conditions (plat_status p')) TypeReady"
proof -
  obtain res err p' w' where r: "platform_reconcile ex_P (ex_token_platform PlatformTypeForgejo) ex_plat_world
      = ((res, err), p', w')" by (metis prod.exhaust)
  with ex_no_error [of PlatformTypeForgejo] have "err = None" by simp
  with platform_ready_iff [OF ex_P_libs r] r ex_credentials [of PlatformTypeForgejo] show ?thesis
    by (auto simp: ex_P_def)
qed

subsection \<open>Reasons and retries\<close>

lemma plat_mark_reason:
  assumes "meta_conditions (pl_meta P)" and "\<not> IsZero (pl_metaNow P (w_ticks w))"
  shows "plat_mark mark_true P rs ms p w = (p', w') \<Longrightarrow>
      condition_reason (pl_meta P) (pst_conditions (plat_status p')) TypeReady = Some rs"
    and "plat_mark mark_false P rs ms p w = (p', w') \<Longrightarrow>
      condition_reason (pl_meta P) (pst_conditions (plat_status p')) TypeReady = Some rs"
  by (auto simp: plat_mark_def read_clock_def meta_conditions.reason_marks [OF assms])

text \<open>
  Which reason a Platform that is not Ready shows, and when it is looked at again: a malformed
  reference or an unparseable key is AuthFailed and waits for an edit; a missing Secret or key is
  SecretNotFound or KeyMissing and is retried every minute.
\<close>

theorem platform_reason_table:
  assumes "meta_conditions (pl_meta P)" and "\<not> IsZero (pl_metaNow P (w_ticks w))"
    and "platform_reconcile P p w = ((res, None), p', w')"
  shows "condition_reason (pl_meta P) (pst_conditions (plat_status p')) TypeReady = Some (
      case resolveAuthRef p of
        Inl e \<Rightarrow> ReasonAuthFailed
      | Inr (name, key) \<Rightarrow>
        (case Get_Secret (pl_Client P) (pl_OperatorNamespace P) name (w_cluster w) of
           Inl e \<Rightarrow> ReasonSecretNotFound
         | Inr secret \<Rightarrow>
             if map_of (sec_data secret) key \<in> {None, Some []} then ReasonKeyMissing
             else if credentials_ok P p (w_cluster w) then ReasonCredentialsResolved else ReasonAuthFailed)) \<and>
    cr_RequeueAfter res = (case resolveAuthRef p of
        Inl e \<Rightarrow> 0
      | Inr (name, key) \<Rightarrow>
        (case Get_Secret (pl_Client P) (pl_OperatorNamespace P) name (w_cluster w) of
           Inl e \<Rightarrow> 60 * 1000000000
         | Inr secret \<Rightarrow> if map_of (sec_data secret) key \<in> {None, Some []} then 60 * 1000000000 else 0))"
proof -
  note reason = plat_mark_reason [OF assms(1,2)]
  note defs = platform_reconcile_def credentials_ok_def Let_def requeue_in_def requeueAfterPlatformError_def
    noRequeue_def nanos_per_second_def
  show ?thesis
  proof (cases "resolveAuthRef p")
    case (Inl e)
    with assms(3) show ?thesis by (auto simp: defs dest: reason)
  next
    case (Inr nk)
    obtain name key where nk: "nk = (name, key)" by (cases nk)
    show ?thesis
    proof (cases "Get_Secret (pl_Client P) (pl_OperatorNamespace P) name (w_cluster w)")
      case (Inl e)
      with assms(3) Inr nk show ?thesis by (auto simp: defs split: if_splits dest: reason)
    next
      case (Inr secret)
      with assms(3) \<open>resolveAuthRef p = Inr nk\<close> nk show ?thesis
        by (cases "map_of (sec_data secret) key")
          (auto simp: defs split: if_splits option.splits dest: reason)
    qed
  qed
qed

theorem platform_reason_table_witness:
  "\<exists>res p' w'. platform_reconcile ex_P (ex_token_platform PlatformTypeForgejo) (ex_plat_world\<lparr>w_cluster := empty_cluster\<rparr>)
     = ((res, None), p', w') \<and> cr_RequeueAfter res = 60000000000"
proof -
  let ?w = "ex_plat_world\<lparr>w_cluster := empty_cluster\<rparr>" and ?p = "ex_token_platform PlatformTypeForgejo"
  have get: "resolveAuthRef ?p = Inr (''creds'', ''token'')"
    "Get_Secret (pl_Client ex_P) (pl_OperatorNamespace ex_P) ''creds'' (w_cluster ?w) = Inl (api_error StatusNotFound)"
    by (simp_all add: resolveAuthRef_def ex_token_platform_def defaultTokenKey_def Let_def ex_P_def sim_client_def
        sim_get_def empty_cluster_def)
  obtain res err p' w' where r: "platform_reconcile ex_P ?p ?w = ((res, err), p', w')" by (metis prod.exhaust)
  moreover from r have "err = None" using get by (auto simp: platform_reconcile_def Let_def)
  ultimately have r': "platform_reconcile ex_P ?p ?w = ((res, None), p', w')" by simp
  from platform_reason_table [OF ex_P_libs r'] r' get show ?thesis by simp
qed

lemma credentials_okE:
  assumes "credentials_ok P p s"
  obtains name key secret v where "resolveAuthRef p = Inr (name, key)"
    "Get_Secret (pl_Client P) (pl_OperatorNamespace P) name s = Inr secret"
    "map_of (sec_data secret) key = Some v" "v \<noteq> []" "validateAuthMaterial P p v = None"
proof -
  obtain name key where r: "resolveAuthRef p = Inr (name, key)"
    using assms by (cases "resolveAuthRef p") (auto simp: credentials_ok_def)
  obtain secret where g: "Get_Secret (pl_Client P) (pl_OperatorNamespace P) name s = Inr secret"
    using assms r by (cases "Get_Secret (pl_Client P) (pl_OperatorNamespace P) name s") (auto simp: credentials_ok_def)
  obtain v where "map_of (sec_data secret) key = Some v" "v \<noteq> []" "validateAuthMaterial P p v = None"
    using assms r g by (cases "map_of (sec_data secret) key") (auto simp: credentials_ok_def)
  with r g show ?thesis by (rule that)
qed

lemma credentials_ready:
  assumes "meta_conditions (pl_meta P)" and "\<not> IsZero (pl_metaNow P (w_ticks w))"
    and "credentials_ok P p (w_cluster w)" and "platform_reconcile P p w = ((res, err), p', w')"
  shows "IsTrue (pl_meta P) (pst_conditions (plat_status p')) TypeReady"
  using assms(3)
proof (rule credentials_okE)
  fix name key secret v
  assume "resolveAuthRef p = Inr (name, key)"
    "Get_Secret (pl_Client P) (pl_OperatorNamespace P) name (w_cluster w) = Inr secret"
    "map_of (sec_data secret) key = Some v" "v \<noteq> []" "validateAuthMaterial P p v = None"
  with assms(4) show ?thesis by (auto simp: platform_reconcile_def Let_def dest: plat_mark_ready(1) [OF assms(1,2)])
qed

text \<open>
  A GitHub Platform with token auth becomes Ready as soon as its token Secret is there, but the
  production factory refuses every client for it, so all its Runs fail.
\<close>

theorem github_token_ready_unusable:
  assumes "meta_conditions (pl_meta P)" and "\<not> IsZero (pl_metaNow P (w_ticks w))"
    and "ps_platformType (plat_spec p) = PlatformTypeGitHub" and "pa_githubApp (ps_auth (plat_spec p)) = None"
    and "credentials_ok P p (w_cluster w)" and "platform_reconcile P p w = ((res, None), p', w')"
  shows "IsTrue (pl_meta P) (pst_conditions (plat_status p')) TypeReady \<and>
    (\<forall>secret. \<exists>e. DefaultPlatformClientFactory lib fjlib (plat_spec p) secret = Inl e)"
proof -
  have "IsTrue (pl_meta P) (pst_conditions (plat_status p')) TypeReady"
    by (rule credentials_ready [OF assms(1,2,5,6)])
  then show ?thesis using factory_github_token [OF assms(3,4)] by blast
qed

theorem github_token_ready_unusable_witness:
  "\<exists>res p' w'. platform_reconcile ex_P (ex_token_platform PlatformTypeGitHub) ex_plat_world = ((res, None), p', w') \<and>
     IsTrue ref_meta (pst_conditions (plat_status p')) TypeReady"
proof -
  let ?p = "ex_token_platform PlatformTypeGitHub"
  obtain res err p' w' where r: "platform_reconcile ex_P ?p ex_plat_world = ((res, err), p', w')" by (metis prod.exhaust)
  with ex_no_error [of PlatformTypeGitHub] have r': "platform_reconcile ex_P ?p ex_plat_world = ((res, None), p', w')" by simp
  have "ps_platformType (plat_spec ?p) = PlatformTypeGitHub" "pa_githubApp (ps_auth (plat_spec ?p)) = None"
    by (simp_all add: ex_token_platform_def)
  from github_token_ready_unusable [OF ex_P_libs this ex_credentials r'] r' show ?thesis by (auto simp: ex_P_def)
qed

text \<open>
  A change of a Secret wakes exactly the Platforms that refer to it: for a Secret of the
  operator namespace, those of the list whose auth reference resolves to its name; for any other
  Secret none.
\<close>

theorem platforms_for_secret_exact:
  assumes "List_Platforms (pl_Client P) s = Inr items"
  shows "name \<in> set (platformsForSecret P (Some secret) s) \<longleftrightarrow>
    secretInOperatorNamespacePredicate (pl_OperatorNamespace P) (sec_meta secret) \<and>
    (\<exists>p\<in>set items. plat_name p = name \<and> (\<exists>key. resolveAuthRef p = Inr (m_name (sec_meta secret), key)))"
proof -
  have "(case resolveAuthRef p of Inl e \<Rightarrow> False | Inr (n, key) \<Rightarrow> n = m_name (sec_meta secret)) \<longleftrightarrow>
      (\<exists>key. resolveAuthRef p = Inr (m_name (sec_meta secret), key))" for p
    by (auto split: sum.split)
  then show ?thesis
    using assms by (auto simp: platformsForSecret_def secretInOperatorNamespacePredicate_def)
qed

theorem platforms_for_secret_exact_witness:
  "''forge'' \<in> set (platformsForSecret ex_P (Some ex_creds)
     (empty_cluster\<lparr>cl_platforms := [ex_token_platform PlatformTypeForgejo]\<rparr>))"
proof -
  let ?s = "empty_cluster\<lparr>cl_platforms := [ex_token_platform PlatformTypeForgejo]\<rparr>"
  have l: "List_Platforms (pl_Client ex_P) ?s = Inr [ex_token_platform PlatformTypeForgejo]"
    by (simp add: ex_P_def sim_client_def)
  show ?thesis
    using platforms_for_secret_exact [OF l, of "''forge''" ex_creds]
    by (simp add: secretInOperatorNamespacePredicate_def ex_P_def ex_creds_def ex_token_platform_def
        resolveAuthRef_def Let_def)
qed

end
