(* ===== verification/StatusTyping.thy ===== *)
theory StatusTyping
  imports RunProperties ScanProperties PlatformReconciler
begin

text \<open>
  The vocabulary of the status: which combinations of condition type, status and reason the three
  controllers ever show. \<open>kubectl wait\<close> and health checks match on these strings.
\<close>

section \<open>Typed condition lists\<close>

type_synonym vocabulary = "(string \<times> ConditionStatus \<times> string) set"

definition typed :: "meta_api \<Rightarrow> vocabulary \<Rightarrow> Condition list \<Rightarrow> bool" where
  "typed M V cs = (\<forall>ty c. GetCondition M cs ty = Some c \<longrightarrow> (ty, c_status c, c_reason c) \<in> V)"

definition run_vocabulary :: vocabulary where
  "run_vocabulary = {
     (TypeStarted, ConditionTrue, ReasonAdmitted), (TypeStarted, ConditionFalse, ReasonReconcileError),
     (TypeStarted, ConditionFalse, ReasonDiscoveryFailed), (TypeDiscovered, ConditionTrue, ReasonDiscoveryComplete),
     (TypeSucceeded, ConditionTrue, ReasonJobComplete), (TypeFailed, ConditionTrue, ReasonDiscoveryFailed),
     (TypeFailed, ConditionTrue, ReasonJobFailed)}"

definition scan_vocabulary :: vocabulary where
  "scan_vocabulary = {
     (TypeReady, ConditionTrue, ReasonNextRunComputed), (TypeReady, ConditionFalse, ReasonSuspended),
     (TypeReady, ConditionFalse, ReasonPlatformNotReady), (TypeReady, ConditionFalse, ReasonInvalidSchedule),
     (TypeScheduled, ConditionTrue, ReasonNextRunComputed)}"

definition platform_vocabulary :: vocabulary where
  "platform_vocabulary = {
     (TypeReady, ConditionTrue, ReasonCredentialsResolved), (TypeReady, ConditionFalse, ReasonSecretNotFound),
     (TypeReady, ConditionFalse, ReasonKeyMissing), (TypeReady, ConditionFalse, ReasonAuthFailed)}"

lemma in_run_vocabulary [simp]:
  "(TypeStarted, ConditionTrue, ReasonAdmitted) \<in> run_vocabulary"
  "(TypeStarted, ConditionFalse, ReasonReconcileError) \<in> run_vocabulary"
  "(TypeStarted, ConditionFalse, ReasonDiscoveryFailed) \<in> run_vocabulary"
  "(TypeDiscovered, ConditionTrue, ReasonDiscoveryComplete) \<in> run_vocabulary"
  "(TypeSucceeded, ConditionTrue, ReasonJobComplete) \<in> run_vocabulary"
  "(TypeFailed, ConditionTrue, ReasonDiscoveryFailed) \<in> run_vocabulary"
  "(TypeFailed, ConditionTrue, ReasonJobFailed) \<in> run_vocabulary"
  by (simp_all add: run_vocabulary_def)

lemma in_scan_vocabulary [simp]:
  "(TypeReady, ConditionTrue, ReasonNextRunComputed) \<in> scan_vocabulary"
  "(TypeReady, ConditionFalse, ReasonSuspended) \<in> scan_vocabulary"
  "(TypeReady, ConditionFalse, ReasonPlatformNotReady) \<in> scan_vocabulary"
  "(TypeReady, ConditionFalse, ReasonInvalidSchedule) \<in> scan_vocabulary"
  "(TypeScheduled, ConditionTrue, ReasonNextRunComputed) \<in> scan_vocabulary"
  by (simp_all add: scan_vocabulary_def)

lemma in_platform_vocabulary [simp]:
  "(TypeReady, ConditionTrue, ReasonCredentialsResolved) \<in> platform_vocabulary"
  "(TypeReady, ConditionFalse, ReasonSecretNotFound) \<in> platform_vocabulary"
  "(TypeReady, ConditionFalse, ReasonKeyMissing) \<in> platform_vocabulary"
  "(TypeReady, ConditionFalse, ReasonAuthFailed) \<in> platform_vocabulary"
  by (simp_all add: platform_vocabulary_def)

context meta_conditions begin

lemma typed_empty: "typed M V []"
  by (simp add: typed_def GetCondition_def find_empty)

lemma typed_marks:
  assumes "\<not> IsZero now" and "typed M V cs"
  shows "(ty, ConditionTrue, rs) \<in> V \<Longrightarrow> typed M V (mark_true M now cs ty rs ms g)"
    and "(ty, ConditionFalse, rs) \<in> V \<Longrightarrow> typed M V (mark_false M now cs ty rs ms g)"
proof -
  show "typed M V (mark_true M now cs ty rs ms g)" if "(ty, ConditionTrue, rs) \<in> V"
    unfolding typed_def
  proof (intro allI impI)
    fix ty' c assume "GetCondition M (mark_true M now cs ty rs ms g) ty' = Some c"
    with get_mt [OF assms(1), of cs ty rs ms g ty'] that assms(2) show "(ty', c_status c, c_reason c) \<in> V"
      by (cases "ty' = ty") (auto simp: typed_def mkCondition_def)
  qed
  show "typed M V (mark_false M now cs ty rs ms g)" if "(ty, ConditionFalse, rs) \<in> V"
    unfolding typed_def
  proof (intro allI impI)
    fix ty' c assume "GetCondition M (mark_false M now cs ty rs ms g) ty' = Some c"
    with get_mf [OF assms(1), of cs ty rs ms g ty'] that assms(2) show "(ty', c_status c, c_reason c) \<in> V"
      by (cases "ty' = ty") (auto simp: typed_def mkCondition_def)
  qed
qed

end

section \<open>The Run\<close>

abbreviation run_typed :: "('s, 'n) RenovateRunReconciler \<Rightarrow> RenovateRun \<Rightarrow> bool" where
  "run_typed R run \<equiv> typed (rn_meta R) run_vocabulary (run_conditions run)"

lemma run_typed_marks:
  assumes "sound_libs R" and "typed (rn_meta R) V cs"
  shows "(ty, ConditionTrue, rs) \<in> V \<Longrightarrow> typed (rn_meta R) V (mark_true (rn_meta R) (rn_metaNow R t) cs ty rs ms g)"
    and "(ty, ConditionFalse, rs) \<in> V \<Longrightarrow> typed (rn_meta R) V (mark_false (rn_meta R) (rn_metaNow R t) cs ty rs ms g)"
proof -
  have M: "meta_conditions (rn_meta R)" and nz: "\<not> IsZero (rn_metaNow R t)" using assms(1) by (simp_all add: sound_libs_def)
  show "(ty, ConditionTrue, rs) \<in> V \<Longrightarrow> typed (rn_meta R) V (mark_true (rn_meta R) (rn_metaNow R t) cs ty rs ms g)"
    by (rule meta_conditions.typed_marks(1) [OF M nz assms(2)])
  show "(ty, ConditionFalse, rs) \<in> V \<Longrightarrow> typed (rn_meta R) V (mark_false (rn_meta R) (rn_metaNow R t) cs ty rs ms g)"
    by (rule meta_conditions.typed_marks(2) [OF M nz assms(2)])
qed

lemma handlers_typed:
  assumes "sound_libs R" and "run_typed R run"
  shows "admitRun R run w = (run', w') \<Longrightarrow> run_typed R run'"
    and "markFailed R msg run w = (oc, run', w') \<Longrightarrow> run_typed R run'"
    and "reason \<in> {ReasonReconcileError, ReasonDiscoveryFailed} \<Longrightarrow> markTransient R e reason run w = (oc, run', w') \<Longrightarrow>
      run_typed R run'"
    and "dispatchRun R m repos run w = (oc, run', w') \<Longrightarrow> run_typed R run'"
    and "observeJob R run w = (oc, run', w') \<Longrightarrow> run_typed R run'"
proof -
  note marks = run_typed_marks [OF assms]
  show "admitRun R run w = (run', w') \<Longrightarrow> run_typed R run'"
    using marks by (auto dest!: admitRun_run(5))
  show failed: "markFailed R msg run w = (oc, run', w') \<Longrightarrow> run_typed R run'" for msg w oc run' w'
    using marks by (simp add: markFailed_run(5))
  show transient: "reason \<in> {ReasonReconcileError, ReasonDiscoveryFailed} \<Longrightarrow>
      markTransient R e reason run w = (oc, run', w') \<Longrightarrow> run_typed R run'" for reason e w oc run' w'
    using marks by (auto simp: markTransient_run(5))
  show "dispatchRun R m repos run w = (oc, run', w') \<Longrightarrow> run_typed R run'"
  proof (erule dispatchRun_cases)
    fix msg w1 assume "markFailed R msg run w1 = (oc, run', w')"
    then show ?thesis by (rule failed)
  next
    fix e w1 assume "markTransient R e ReasonReconcileError run w1 = (oc, run', w')"
    then show ?thesis by (rule transient [rotated]) simp
  next
    fix e run1 w1 assume "markTransient R e ReasonReconcileError run1 w1 = (oc, run', w')" "run_conditions run1 = run_conditions run"
    then show ?thesis using marks by (simp add: markTransient_run(5))
  qed (use marks in simp)
  show "observeJob R run w = (oc, run', w') \<Longrightarrow> run_typed R run'"
    using marks assms(2) failed
    by (auto simp: observeJob_def run_mark_eq read_clock_def Let_def
        split: option.splits sum.splits if_splits prod.splits)
qed

lemma run_reconcile_typed:
  assumes "sound_libs R" and "run_typed R run" and "run_reconcile R run w = Some (oc, run', w')"
  shows "run_typed R run'"
proof -
  have ob: "run_typed R (observed run)" using assms(2) by (simp add: observed_def Let_def)
  have disc: "run_typed R run'" if d: "discoverAndDispatch R (observed run) w = Some (oc, run', w')"
  proof -
    obtain run1 w1 where adm: "admitRun R (observed run) w = (run1, w1)" by fastforce
    have t1: "run_typed R run1" by (rule handlers_typed(1) [OF assms(1) ob adm])
    from discoverAndDispatch_end [OF d] adm have "discovery_end R run1 (oc, run', w')" by simp
    then show ?thesis
      by (cases rule: discovery_end.cases) (use handlers_typed(2-4) [OF assms(1) t1] in \<open>metis\<close>)+
  qed
  from assms(3) ob disc handlers_typed(5) [OF assms(1) ob] show ?thesis
    by (auto simp: run_reconcile_eq split: RunPhase.splits if_splits)
qed

section \<open>The Scan and the Platform\<close>

abbreviation scan_typed :: "'s RenovateScanReconciler \<Rightarrow> RenovateScan \<Rightarrow> bool" where
  "scan_typed S scan \<equiv> typed (sc_meta S) scan_vocabulary (sst_conditions (scan_status scan))"

lemma scan_mark_typed:
  assumes "sound_scan_libs S" and "scan_typed S scan"
  shows "scan_mark mark_true S ty rs msg scan w = (scan', w') \<Longrightarrow> (ty, ConditionTrue, rs) \<in> scan_vocabulary \<Longrightarrow> scan_typed S scan'"
    and "scan_mark mark_false S ty rs msg scan w = (scan', w') \<Longrightarrow> (ty, ConditionFalse, rs) \<in> scan_vocabulary \<Longrightarrow> scan_typed S scan'"
proof -
  have M: "meta_conditions (sc_meta S)" and nz: "\<not> IsZero (sc_metaNow S k)" for k
    using assms(1) by (simp_all add: sound_scan_libs_def)
  note marks = meta_conditions.typed_marks [OF M nz assms(2)]
  show "scan_mark mark_true S ty rs msg scan w = (scan', w') \<Longrightarrow> (ty, ConditionTrue, rs) \<in> scan_vocabulary \<Longrightarrow> scan_typed S scan'"
    using marks(1) by (auto simp: scan_mark_def read_clock_def)
  show "scan_mark mark_false S ty rs msg scan w = (scan', w') \<Longrightarrow> (ty, ConditionFalse, rs) \<in> scan_vocabulary \<Longrightarrow> scan_typed S scan'"
    using marks(2) by (auto simp: scan_mark_def read_clock_def)
qed

lemma fireScan_typed:
  assumes "sound_scan_libs S" and "scan_typed S scan"
    and "fireScan S platform now missed nextFire scan w = (oc, scan', w')"
  shows "scan_typed S scan'"
  using assms(3,2)
  by (auto simp: fireScan_def createRun_def Let_def split: if_splits prod.splits sum.splits option.splits
      dest: scan_mark_typed(1) [OF assms(1), rotated])

lemma scan_reconcile_typed:
  assumes "sound_scan_libs S" and "scan_typed S scan" and "scan_reconcile S scan w = Some (oc, scan', w')"
  shows "scan_typed S scan'"
proof (cases "\<exists>platform loc sched scan1. scan_passes S scan (w_cluster w) platform loc sched scan1")
  case True
  then obtain platform loc sched scan1 where ps: "scan_passes S scan (w_cluster w) platform loc sched scan1" by blast
  then obtain missed nextFire w2 where
    fs: "fireScan S platform (scan_now S w) missed nextFire (scan_readied S (Suc (w_ticks w)) nextFire scan1) w2
      = (oc, scan', w')"
    using assms(3) by (rule scan_reconcile_fired)
  have M: "meta_conditions (sc_meta S)" and nz: "\<not> IsZero (sc_metaNow S k)" for k
    using assms(1) by (simp_all add: sound_scan_libs_def)
  have "sst_conditions (scan_status scan1) = sst_conditions (scan_status scan)"
    using ps refreshActiveRuns_frame(3) by (fastforce simp: scan_passes_def)
  then have "scan_typed S (scan_readied S (Suc (w_ticks w)) nextFire scan1)"
    using meta_conditions.typed_marks(1) [OF M nz assms(2)] by (simp add: scan_readied_def)
  then show ?thesis using fireScan_typed [OF assms(1) _ fs] by blast
next
  case False
  have ob: "scan_typed S (scan_observed scan)" using assms(2) by simp
  from False assms(3) show ?thesis
    unfolding scan_passes_def scan_reconcile_def Let_def read_clock_def
    by (cases "ss_suspend (scan_spec scan)";
      cases "Get_Platform (sc_Client S) (lor_name (ss_platformRef (scan_spec scan))) (w_cluster w)";
      cases "parseSchedule S (ss_schedule (scan_spec scan)) (ss_timeZone (scan_spec scan))";
      cases "refreshActiveRuns S (scan_observed scan) (w_cluster w)")
    (auto simp: assms(2) split: if_splits dest: scan_mark_typed(2) [OF assms(1) ob])
qed

abbreviation platform_typed :: "'s RenovatePlatformReconciler \<Rightarrow> RenovatePlatform \<Rightarrow> bool" where
  "platform_typed P p \<equiv> typed (pl_meta P) platform_vocabulary (pst_conditions (plat_status p))"

lemma plat_mark_typed:
  assumes "meta_conditions (pl_meta P)" and "\<not> IsZero (pl_metaNow P (w_ticks w))" and "platform_typed P p"
  shows "plat_mark mark_true P rs ms p w = (p', w') \<Longrightarrow> (TypeReady, ConditionTrue, rs) \<in> platform_vocabulary \<Longrightarrow> platform_typed P p'"
    and "plat_mark mark_false P rs ms p w = (p', w') \<Longrightarrow> (TypeReady, ConditionFalse, rs) \<in> platform_vocabulary \<Longrightarrow> platform_typed P p'"
  using meta_conditions.typed_marks [OF assms] by (auto simp: plat_mark_def read_clock_def)

lemma platform_reconcile_typed:
  assumes "meta_conditions (pl_meta P)" and "\<not> IsZero (pl_metaNow P (w_ticks w))" and "platform_typed P p"
    and "platform_reconcile P p w = (oc, p', w')"
  shows "platform_typed P p'"
proof -
  note marks = plat_mark_typed [OF assms(1,2)]
  from assms(3,4) show ?thesis
    by (auto simp: platform_reconcile_def Let_def split: sum.splits option.splits if_splits prod.splits
        dest: marks [rotated])
qed

section \<open>Property\<close>

text \<open>
  C18. The status vocabulary. Every condition a Run, a Scan or a Platform shows after a reconcile is one of the tabulated
  combinations of type, status and reason if that held before, and it holds of a new object, which has no
  conditions. So Failed and Succeeded are never False, a Run that is not started says why, Scheduled is never
  False, and no Platform shows the declared reason PlatformUnreachable.
\<close>

theorem status_vocabulary:
  assumes "sound_libs R" and "sound_scan_libs S" and "meta_conditions (pl_meta P)" and "\<forall>t. \<not> IsZero (pl_metaNow P t)"
  shows "(typed (rn_meta R) run_vocabulary (run_conditions run) \<longrightarrow> run_reconcile R run w = Some (oc, run', w1) \<longrightarrow>
      typed (rn_meta R) run_vocabulary (run_conditions run')) \<and>
    (typed (sc_meta S) scan_vocabulary (sst_conditions (scan_status scan)) \<longrightarrow> scan_reconcile S scan w = Some (oc, scan', w1) \<longrightarrow>
      typed (sc_meta S) scan_vocabulary (sst_conditions (scan_status scan'))) \<and>
    (typed (pl_meta P) platform_vocabulary (pst_conditions (plat_status p)) \<longrightarrow> platform_reconcile P p w = (oc, p', w1) \<longrightarrow>
      typed (pl_meta P) platform_vocabulary (pst_conditions (plat_status p'))) \<and>
    typed (rn_meta R) V [] \<and> typed (sc_meta S) V [] \<and> typed (pl_meta P) V []"
proof (intro conjI impI)
  show "typed (rn_meta R) run_vocabulary (run_conditions run')"
    if "typed (rn_meta R) run_vocabulary (run_conditions run)" "run_reconcile R run w = Some (oc, run', w1)"
    by (rule run_reconcile_typed [OF assms(1) that])
  show "typed (sc_meta S) scan_vocabulary (sst_conditions (scan_status scan'))"
    if "typed (sc_meta S) scan_vocabulary (sst_conditions (scan_status scan))" "scan_reconcile S scan w = Some (oc, scan', w1)"
    by (rule scan_reconcile_typed [OF assms(2) that])
  show "typed (pl_meta P) platform_vocabulary (pst_conditions (plat_status p'))"
    if "typed (pl_meta P) platform_vocabulary (pst_conditions (plat_status p))" "platform_reconcile P p w = (oc, p', w1)"
    by (rule platform_reconcile_typed [OF assms(3) _ that]) (simp add: assms(4))
qed (use assms meta_conditions.typed_empty in \<open>auto simp: sound_libs_def sound_scan_libs_def\<close>)

theorem status_vocabulary_witness:
  "\<exists>oc run' w'. run_reconcile ex_R ex_run (ex_world empty_cluster) = Some (oc, run', w') \<and>
     typed ref_meta run_vocabulary (run_conditions run') \<and> run_phase run' = RunPhaseDiscovering"
proof -
  from ex_step obtain oc run' w' where st: "run_reconcile ex_R ex_run (ex_world empty_cluster) = Some (oc, run', w')"
    and ph: "run_phase run' = RunPhaseDiscovering" by blast
  have P: "meta_conditions (pl_meta ex_P)" "\<forall>t. \<not> IsZero (pl_metaNow ex_P t)" using ex_P_libs by blast+
  have "run_conditions ex_run = []" by (simp add: ex_run_def fresh_status_def)
  with status_vocabulary [OF ex_sound ex_scan_libs P, of ex_run "ex_world empty_cluster" oc run' w'] st
  have "typed (rn_meta ex_R) run_vocabulary (run_conditions run')" by auto
  with st ph show ?thesis by (auto simp: ex_R_def)
qed

end
