(* ===== verification/GoMemory.thy ===== *)
theory GoMemory
  imports Prelude
begin

text \<open>
  Go values in memory, where aliasing matters: structs, and pointers and slices as addresses of cells. A type
  says where the addresses are. Locale \<open>deep_copier\<close> is the contract of a \<open>DeepCopyInto\<close> method:
  the copy reads like the original and shares no cell with it.
\<close>

section \<open>Values and memory\<close>

text \<open>
  \<open>Word\<close> is a value without addresses: a string, number, boolean. A pointer or slice is \<open>Ref\<close>, nil or
  the address of a cell; the cell of a slice is the \<open>Array\<close> of its elements.
\<close>

datatype goval = Word string | Ref "nat option" | Struct "(string \<times> goval) list" | Array "goval list"

datatype gotype = Plain | PtrTo gotype | SliceOf gotype | StructOf "(string \<times> gotype) list"

record gomem =
  cells :: "nat \<Rightarrow> goval"
  lim :: nat

definition alloc :: "goval \<Rightarrow> gomem \<Rightarrow> nat \<times> gomem" where
  "alloc v h = (lim h, h\<lparr>cells := (cells h)(lim h := v), lim := Suc (lim h)\<rparr>)"

definition extends :: "gomem \<Rightarrow> gomem \<Rightarrow> bool" where
  "extends h h' = (lim h \<le> lim h' \<and> (\<forall>a < lim h. cells h' a = cells h a))"

text \<open>A value of a type, all of whose addresses are allocated.\<close>

fun wt :: "gotype \<Rightarrow> goval \<Rightarrow> gomem \<Rightarrow> bool" where
  "wt Plain (Word s) h = True"
| "wt (PtrTo T) (Ref None) h = True"
| "wt (PtrTo T) (Ref (Some a)) h = (a < lim h \<and> wt T (cells h a) h)"
| "wt (SliceOf T) (Ref None) h = True"
| "wt (SliceOf T) (Ref (Some a)) h =
     (a < lim h \<and> (case cells h a of Array vs \<Rightarrow> (\<forall>v\<in>set vs. wt T v h) | _ \<Rightarrow> False))"
| "wt (StructOf []) (Struct []) h = True"
| "wt (StructOf ((f, T) # fs)) (Struct ((g, v) # vs)) h = (f = g \<and> wt T v h \<and> wt (StructOf fs) (Struct vs) h)"
| "wt _ _ h = False"

text \<open>The cells a value reaches.\<close>

fun reach :: "gotype \<Rightarrow> goval \<Rightarrow> gomem \<Rightarrow> nat set" where
  "reach (PtrTo T) (Ref (Some a)) h = insert a (reach T (cells h a) h)"
| "reach (SliceOf T) (Ref (Some a)) h =
     insert a (case cells h a of Array vs \<Rightarrow> (\<Union>v\<in>set vs. reach T v h) | _ \<Rightarrow> {})"
| "reach (StructOf ((f, T) # fs)) (Struct ((g, v) # vs)) h = reach T v h \<union> reach (StructOf fs) (Struct vs) h"
| "reach _ _ h = {}"

text \<open>What a value says: the tree one gets by following the addresses.\<close>

datatype gotree = Leaf string | NilRef | Points gotree | Elems "gotree list" | Field string gotree gotree | NoFields

fun read :: "gotype \<Rightarrow> goval \<Rightarrow> gomem \<Rightarrow> gotree" where
  "read (PtrTo T) (Ref (Some a)) h = Points (read T (cells h a) h)"
| "read (SliceOf T) (Ref (Some a)) h =
     (case cells h a of Array vs \<Rightarrow> Elems (map (\<lambda>v. read T v h) vs) | _ \<Rightarrow> NilRef)"
| "read (StructOf ((f, T) # fs)) (Struct ((g, v) # vs)) h =
     Field f (read T v h) (read (StructOf fs) (Struct vs) h)"
| "read (StructOf []) (Struct []) h = NoFields"
| "read Plain (Word s) h = Leaf s"
| "read _ _ h = NilRef"

text \<open>Types without addresses.\<close>

fun flat :: "gotype \<Rightarrow> bool" where
  "flat Plain = True"
| "flat (StructOf []) = True"
| "flat (StructOf ((f, T) # fs)) = (flat T \<and> flat (StructOf fs))"
| "flat _ = False"

section \<open>Frame\<close>

text \<open>Typing, reach and reading depend on the reached cells only.\<close>

definition agree :: "nat set \<Rightarrow> gomem \<Rightarrow> gomem \<Rightarrow> bool" where
  "agree A h h' = (lim h \<le> lim h' \<and> (\<forall>a\<in>A. cells h' a = cells h a))"

lemma agree_mono: "agree A h h' \<Longrightarrow> B \<subseteq> A \<Longrightarrow> agree B h h'"
  by (auto simp: agree_def)

lemma frame:
  assumes "wt T v h" and "agree (reach T v h) h h'"
  shows "wt T v h' \<and> reach T v h' = reach T v h \<and> read T v h' = read T v h"
  using assms
proof (induction T v h rule: wt.induct)
  case (3 T a h)
  then show ?case by (auto simp: agree_def)
next
  case (5 T a h)
  from 5(2) obtain vs where c: "cells h a = Array vs" and ws: "\<forall>v\<in>set vs. wt T v h" and a: "a < lim h"
    by (auto split: goval.splits)
  have c': "cells h' a = Array vs" using 5(3) c by (auto simp: agree_def)
  have "wt T v h' \<and> reach T v h' = reach T v h \<and> read T v h' = read T v h" if "v \<in> set vs" for v
    using 5(1) [OF c that] ws that 5(3) c by (auto simp: agree_def)
  with a c c' 5(3) show ?case by (auto simp: agree_def)
next
  case (7 f T fs g v vs h)
  then have "agree (reach T v h) h h'" "agree (reach (StructOf fs) (Struct vs) h) h h'"
    by (auto intro: agree_mono)
  with 7 show ?case by auto
qed auto

lemma reach_allocated: "wt T v h \<Longrightarrow> reach T v h \<subseteq> {..<lim h}"
  by (induction T v h rule: wt.induct) (auto split: goval.splits)

lemma extends_agree: "extends h h' \<Longrightarrow> A \<subseteq> {..<lim h} \<Longrightarrow> agree A h h'"
  by (auto simp: extends_def agree_def)

lemma extends_refl [simp]: "extends h h"
  by (simp add: extends_def)

lemma extends_trans: "extends h h1 \<Longrightarrow> extends h1 h2 \<Longrightarrow> extends h h2"
  by (auto simp: extends_def)

lemma fresh_mono: "extends h h1 \<Longrightarrow> A \<inter> {..<lim h1} = {} \<Longrightarrow> A \<inter> {..<lim h} = {}"
  unfolding extends_def by fastforce

lemma extends_alloc: "alloc v h = (a, h') \<Longrightarrow> extends h h' \<and> a = lim h \<and> cells h' a = v \<and> lim h' = Suc (lim h)"
  by (auto simp: alloc_def extends_def)

lemma frame_extends:
  assumes "wt T v h" and "extends h h'"
  shows "wt T v h'" and "reach T v h' = reach T v h" and "read T v h' = read T v h"
  using frame [OF assms(1) extends_agree [OF assms(2) reach_allocated [OF assms(1)]]] by simp_all

lemma flat_reach: "flat T \<Longrightarrow> reach T v h = {}"
  by (induction T v h rule: reach.induct) auto

section \<open>Copying\<close>

text \<open>
  A copier gives the value of \<open>*out\<close> for a value of \<open>*in\<close>, and the memory after it. The statements
  generated code is made of: \<open>*out = *in\<close>; for a pointer that is not nil, \<open>new\<close> and a copy of the target; for a
  slice that is not nil, \<open>make\<close> and a copy of each element; for a struct, \<open>*out = *in\<close> followed by the listed
  fields. A new cell is entered into memory when its contents are complete.
\<close>

type_synonym copier = "goval \<Rightarrow> gomem \<Rightarrow> goval \<times> gomem"

definition assign :: copier where
  "assign v h = (v, h)"

definition new_copy :: "copier \<Rightarrow> copier" where
  "new_copy c v h =
     (case v of
        Ref (Some a) \<Rightarrow> (let (x, h1) = c (cells h a) h; (b, h2) = alloc x h1 in (Ref (Some b), h2))
      | _ \<Rightarrow> (v, h))"

fun copy_elems :: "copier \<Rightarrow> goval list \<Rightarrow> gomem \<Rightarrow> goval list \<times> gomem" where
  "copy_elems c [] h = ([], h)"
| "copy_elems c (v # vs) h = (let (x, h1) = c v h; (xs, h2) = copy_elems c vs h1 in (x # xs, h2))"

definition make_copy :: "copier \<Rightarrow> copier" where
  "make_copy c v h =
     (case v of
        Ref (Some a) \<Rightarrow>
          (case cells h a of
             Array vs \<Rightarrow> (let (xs, h1) = copy_elems c vs h; (b, h2) = alloc (Array xs) h1 in (Ref (Some b), h2))
           | _ \<Rightarrow> (v, h))
      | _ \<Rightarrow> (v, h))"

fun copy_fields :: "(string \<times> copier) list \<Rightarrow> (string \<times> goval) list \<Rightarrow> gomem \<Rightarrow> (string \<times> goval) list \<times> gomem" where
  "copy_fields cs [] h = ([], h)"
| "copy_fields cs ((g, v) # vs) h =
     (let (x, h1) = (case map_of cs g of Some c \<Rightarrow> c v h | None \<Rightarrow> (v, h));
          (xs, h2) = copy_fields cs vs h1
      in ((g, x) # xs, h2))"

definition copy_struct :: "(string \<times> copier) list \<Rightarrow> copier" where
  "copy_struct cs v h = (case v of Struct vs \<Rightarrow> (let (xs, h') = copy_fields cs vs h in (Struct xs, h')) | _ \<Rightarrow> (v, h))"

section \<open>The contract\<close>

locale deep_copier =
  fixes T :: gotype and c :: copier
  assumes copies: "wt T v h \<Longrightarrow> c v h = (v', h') \<Longrightarrow>
      extends h h' \<and> wt T v' h' \<and> read T v' h' = read T v h \<and> reach T v' h' \<inter> {..<lim h} = {}"
begin

lemma disjoint: "wt T v h \<Longrightarrow> c v h = (v', h') \<Longrightarrow> reach T v' h' \<inter> reach T v h = {}"
  using copies [of v h v' h'] reach_allocated [of T v h] by blast

text \<open>Whatever is later written to the cells the original was made of, the copy keeps saying what the original said.\<close>

lemma copy_isolated:
  assumes "wt T v h" and "c v h = (v', h')" and "lim h' \<le> lim h2" and "\<And>a. lim h \<le> a \<Longrightarrow> cells h2 a = cells h' a"
  shows "wt T v' h2 \<and> read T v' h2 = read T v h"
proof -
  note laws = copies [OF assms(1,2)]
  then have "lim h \<le> a" if "a \<in> reach T v' h'" for a
    using that by (meson disjoint_iff lessThan_iff not_le)
  then have "agree (reach T v' h') h' h2"
    using assms(3,4) by (simp add: agree_def)
  with frame [of T v' h' h2] laws show ?thesis by simp
qed

text \<open>And the other way round.\<close>

lemma original_isolated:
  assumes "wt T v h" and "c v h = (v', h')" and "lim h' \<le> lim h2" and "\<And>a. a < lim h \<Longrightarrow> cells h2 a = cells h' a"
  shows "wt T v h2 \<and> read T v h2 = read T v h"
proof -
  have "extends h h'" using copies [OF assms(1,2)] by simp
  then have "extends h h2" using assms(3,4) by (auto simp: extends_def)
  from frame_extends(1,3) [OF assms(1) this] show ?thesis by simp
qed

end

section \<open>Composition\<close>

lemma deep_assign: "flat T \<Longrightarrow> deep_copier T assign"
  by unfold_locales (auto simp: assign_def flat_reach)

lemma deep_new:
  assumes "deep_copier T c"
  shows "deep_copier (PtrTo T) (new_copy c)"
proof
  fix v h v' h' assume w: "wt (PtrTo T) v h" and cp: "new_copy c v h = (v', h')"
  show "extends h h' \<and> wt (PtrTo T) v' h' \<and> read (PtrTo T) v' h' = read (PtrTo T) v h \<and>
    reach (PtrTo T) v' h' \<inter> {..<lim h} = {}"
  proof (cases v)
    case (Ref r)
    show ?thesis
    proof (cases r)
      case None
      with Ref cp show ?thesis by (auto simp: new_copy_def)
    next
      case (Some a)
      with Ref w have a: "a < lim h" and wa: "wt T (cells h a) h" by simp_all
      obtain x h1 where c: "c (cells h a) h = (x, h1)" by fastforce
      obtain b h2 where al: "alloc x h1 = (b, h2)" by fastforce
      have eq: "v' = Ref (Some b)" "h' = h2" using cp Ref Some c al by (simp_all add: new_copy_def)
      note laws = deep_copier.copies [OF assms wa c]
      note al' = extends_alloc [OF al]
      have wx: "wt T x h1" using laws by simp
      note fr = frame_extends [OF wx al' [THEN conjunct1]]
      have "lim h \<le> b" using laws al' by (auto simp: extends_def)
      with laws al' fr eq Ref Some show ?thesis by (auto intro: extends_trans)
    qed
  qed (use w in simp_all)
qed

lemma deep_elems:
  assumes "deep_copier T c" and "\<forall>v\<in>set vs. wt T v h" and "copy_elems c vs h = (xs, h')"
  shows "extends h h' \<and> (\<forall>x\<in>set xs. wt T x h' \<and> reach T x h' \<inter> {..<lim h} = {}) \<and>
    map (\<lambda>x. read T x h') xs = map (\<lambda>v. read T v h) vs"
  using assms(2,3)
proof (induction vs arbitrary: h xs h')
  case Nil
  then show ?case by simp
next
  case (Cons v vs)
  obtain x h1 where c: "c v h = (x, h1)" by fastforce
  obtain ys h2 where r: "copy_elems c vs h1 = (ys, h2)" by fastforce
  have eq: "xs = x # ys" "h' = h2" using Cons.prems(2) c r by simp_all
  have wv: "wt T v h" using Cons.prems(1) by simp
  note laws = deep_copier.copies [OF assms(1) wv c]
  then have ex: "extends h h1" by simp
  have ws: "\<forall>v\<in>set vs. wt T v h1" using Cons.prems(1) frame_extends(1) [OF _ ex] by simp
  have rd: "map (\<lambda>v. read T v h1) vs = map (\<lambda>v. read T v h) vs"
    using Cons.prems(1) frame_extends(3) [OF _ ex] by simp
  note IH = Cons.IH [OF ws r]
  have wx: "wt T x h1" using laws by simp
  have ex2: "extends h1 h2" using IH by simp
  note fr = frame_extends [OF wx ex2]
  have "\<forall>y\<in>set ys. reach T y h2 \<inter> {..<lim h} = {}" using IH fresh_mono [OF ex] by simp
  with laws IH fr rd extends_trans [OF ex ex2] show ?case unfolding eq by simp
qed

lemma deep_make:
  assumes "deep_copier T c"
  shows "deep_copier (SliceOf T) (make_copy c)"
proof
  fix v h v' h' assume w: "wt (SliceOf T) v h" and cp: "make_copy c v h = (v', h')"
  show "extends h h' \<and> wt (SliceOf T) v' h' \<and> read (SliceOf T) v' h' = read (SliceOf T) v h \<and>
    reach (SliceOf T) v' h' \<inter> {..<lim h} = {}"
  proof (cases v)
    case (Ref r)
    show ?thesis
    proof (cases r)
      case None
      with Ref cp show ?thesis by (auto simp: make_copy_def)
    next
      case (Some a)
      with Ref w obtain vs where ar: "cells h a = Array vs" and wa: "\<forall>v\<in>set vs. wt T v h"
        by (auto split: goval.splits)
      obtain xs h1 where c: "copy_elems c vs h = (xs, h1)" by fastforce
      obtain b h2 where al: "alloc (Array xs) h1 = (b, h2)" by fastforce
      have eq: "v' = Ref (Some b)" "h' = h2" using cp Ref Some ar c al by (simp_all add: make_copy_def)
      note laws = deep_elems [OF assms wa c]
      note al' = extends_alloc [OF al]
      note fr = frame_extends [OF _ al' [THEN conjunct1], of T]
      have "lim h \<le> b" using laws al' by (auto simp: extends_def)
      moreover have "extends h h2" using laws al' by (blast intro: extends_trans)
      moreover have "map (\<lambda>x. read T x h2) xs = map (\<lambda>v. read T v h) vs"
        using laws fr(3) by (metis (no_types, lifting) map_eq_conv)
      moreover have "\<forall>x\<in>set xs. wt T x h2 \<and> reach T x h2 \<inter> {..<lim h} = {}" using laws fr(1,2) by simp
      moreover have "cells h2 b = Array xs" "b < lim h2" using al' by auto
      ultimately show ?thesis unfolding eq Ref Some by (auto simp: ar)
    qed
  qed (use w in simp_all)
qed

text \<open>A struct: every field that is listed is copied deeply, and every other has no addresses.\<close>

definition covered :: "(string \<times> copier) list \<Rightarrow> string \<times> gotype \<Rightarrow> bool" where
  "covered cs ft = (case map_of cs (fst ft) of Some c \<Rightarrow> deep_copier (snd ft) c | None \<Rightarrow> flat (snd ft))"

lemma deep_fields_aux:
  assumes "\<forall>ft\<in>set fs. covered cs ft" and "wt (StructOf fs) (Struct vs) h" and "copy_fields cs vs h = (xs, h')"
  shows "extends h h' \<and> wt (StructOf fs) (Struct xs) h' \<and>
    read (StructOf fs) (Struct xs) h' = read (StructOf fs) (Struct vs) h \<and>
    reach (StructOf fs) (Struct xs) h' \<inter> {..<lim h} = {}"
  using assms
proof (induction fs arbitrary: vs h xs h')
  case Nil
  then show ?case by (cases vs) auto
next
  case (Cons ft fs)
  obtain f T where ft: "ft = (f, T)" by (cases ft)
  from Cons.prems(2) ft obtain v ws where vs: "vs = (f, v) # ws" and wv: "wt T v h" and wws: "wt (StructOf fs) (Struct ws) h"
    by (cases vs) auto
  let ?c = "case map_of cs f of Some c \<Rightarrow> c | None \<Rightarrow> assign"
  have deep: "deep_copier T ?c"
    using Cons.prems(1) by (auto simp: ft covered_def deep_assign split: option.splits)
  obtain x h1 where c: "?c v h = (x, h1)" by fastforce
  obtain ys h2 where r: "copy_fields cs ws h1 = (ys, h2)" by fastforce
  have eq: "xs = (f, x) # ys" "h' = h2"
    using Cons.prems(3) c r vs by (auto simp: assign_def split: option.splits)
  note laws = deep_copier.copies [OF deep wv c]
  then have ex: "extends h h1" by simp
  note old = frame_extends [OF wws ex]
  have "\<forall>ft\<in>set fs. covered cs ft" using Cons.prems(1) by simp
  note IH = Cons.IH [OF this old(1) r]
  have wx: "wt T x h1" using laws by simp
  have ex2: "extends h1 h2" using IH by simp
  note fr = frame_extends [OF wx ex2]
  have "reach (StructOf fs) (Struct ys) h2 \<inter> {..<lim h} = {}" using IH fresh_mono [OF ex] by simp
  with laws IH fr old extends_trans [OF ex ex2] show ?case unfolding eq vs ft by (simp add: Int_Un_distrib2)
qed

lemma deep_fields:
  assumes "\<forall>ft\<in>set fs. covered cs ft"
  shows "deep_copier (StructOf fs) (copy_struct cs)"
proof
  fix v h v' h' assume w: "wt (StructOf fs) v h" and cp: "copy_struct cs v h = (v', h')"
  from w obtain vs where v: "v = Struct vs" by (cases v; cases fs) auto
  obtain xs h1 where c: "copy_fields cs vs h = (xs, h1)" by fastforce
  have "v' = Struct xs" "h' = h1" using cp v c by (simp_all add: copy_struct_def)
  with deep_fields_aux [OF assms w [unfolded v] c] v
  show "extends h h' \<and> wt (StructOf fs) v' h' \<and> read (StructOf fs) v' h' = read (StructOf fs) v h \<and>
    reach (StructOf fs) v' h' \<inter> {..<lim h} = {}" by simp
qed

end
