(* ===== verification/DeepCopy.thy ===== *)
theory DeepCopy
  imports GoMemory
begin

text \<open>
  The generated deep copies (\<open>api/v1alpha1/zz_generated.deepcopy.go\<close>) on the memory model of \<open>GoMemory\<close>,
  next to the shapes of the API types: each method lists the fields it copies, and it is deep because every
  other field has no addresses. The types of Kubernetes' own packages come with their \<open>DeepCopyInto\<close> methods as
  parameters.
\<close>

named_theorems deep \<open>deep copies\<close>

section \<open>Types of other packages\<close>

record ext =
  x_type :: "string \<Rightarrow> gotype"
  x_copy :: "string \<Rightarrow> copier"

text \<open>The documented contract of their methods.\<close>

definition ext_deep :: "ext \<Rightarrow> bool" where
  "ext_deep X = (\<forall>name. deep_copier (x_type X name) (x_copy X name))"

lemma ext_deepD [deep]: "ext_deep X \<Longrightarrow> deep_copier (x_type X name) (x_copy X name)"
  by (simp add: ext_deep_def)

definition T_TypeMeta :: gotype where
  "T_TypeMeta = StructOf [(''Kind'', Plain), (''APIVersion'', Plain)]"

definition T_ObjectReference :: gotype where
  "T_ObjectReference = StructOf [(''Kind'', Plain), (''Namespace'', Plain), (''Name'', Plain), (''UID'', Plain),
     (''APIVersion'', Plain), (''ResourceVersion'', Plain), (''FieldPath'', Plain)]"

section \<open>Shapes and copies\<close>

definition T_SecretKeyReference :: gotype where
  "T_SecretKeyReference = StructOf [
     (''Name'', Plain), (''Key'', Plain)]"

definition SecretKeyReference_DeepCopyInto :: copier where
  "SecretKeyReference_DeepCopyInto = assign"

definition SecretKeyReference_DeepCopy :: copier where
  "SecretKeyReference_DeepCopy = new_copy SecretKeyReference_DeepCopyInto"

definition T_LocalObjectReference :: gotype where
  "T_LocalObjectReference = StructOf [
     (''Name'', Plain)]"

definition LocalObjectReference_DeepCopyInto :: copier where
  "LocalObjectReference_DeepCopyInto = assign"

definition LocalObjectReference_DeepCopy :: copier where
  "LocalObjectReference_DeepCopy = new_copy LocalObjectReference_DeepCopyInto"

definition T_GitHubAppAuth :: gotype where
  "T_GitHubAppAuth = StructOf [
     (''AppID'', Plain), (''InstallationID'', Plain), (''PrivateKeyRef'', T_SecretKeyReference)]"

definition GitHubAppAuth_DeepCopyInto :: copier where
  "GitHubAppAuth_DeepCopyInto = copy_struct [
     (''PrivateKeyRef'', assign)]"

definition GitHubAppAuth_DeepCopy :: copier where
  "GitHubAppAuth_DeepCopy = new_copy GitHubAppAuth_DeepCopyInto"

definition T_TokenAuth :: gotype where
  "T_TokenAuth = StructOf [
     (''SecretRef'', T_SecretKeyReference)]"

definition TokenAuth_DeepCopyInto :: copier where
  "TokenAuth_DeepCopyInto = copy_struct [
     (''SecretRef'', assign)]"

definition TokenAuth_DeepCopy :: copier where
  "TokenAuth_DeepCopy = new_copy TokenAuth_DeepCopyInto"

definition T_PlatformAuth :: gotype where
  "T_PlatformAuth = StructOf [
     (''GitHubApp'', PtrTo T_GitHubAppAuth), (''Token'', PtrTo T_TokenAuth)]"

definition PlatformAuth_DeepCopyInto :: copier where
  "PlatformAuth_DeepCopyInto = copy_struct [
     (''GitHubApp'', new_copy assign), (''Token'', new_copy assign)]"

definition PlatformAuth_DeepCopy :: copier where
  "PlatformAuth_DeepCopy = new_copy PlatformAuth_DeepCopyInto"

definition T_RenovatePlatformSpec :: "ext \<Rightarrow> gotype" where
  "T_RenovatePlatformSpec X = StructOf [
     (''PlatformType'', Plain), (''BaseURL'', Plain), (''Auth'', T_PlatformAuth),
     (''RunnerConfig'', PtrTo (x_type X ''RawExtension'')), (''PresetRepoRef'', Plain),
     (''RenovateImage'', Plain), (''LogLevel'', PtrTo Plain)]"

definition RenovatePlatformSpec_DeepCopyInto :: "ext \<Rightarrow> copier" where
  "RenovatePlatformSpec_DeepCopyInto X = copy_struct [
     (''Auth'', PlatformAuth_DeepCopyInto), (''RunnerConfig'', new_copy (x_copy X ''RawExtension'')),
     (''LogLevel'', new_copy assign)]"

definition RenovatePlatformSpec_DeepCopy :: "ext \<Rightarrow> copier" where
  "RenovatePlatformSpec_DeepCopy X = new_copy (RenovatePlatformSpec_DeepCopyInto X)"

definition T_RenovatePlatformStatus :: "ext \<Rightarrow> gotype" where
  "T_RenovatePlatformStatus X = StructOf [
     (''Conditions'', SliceOf (x_type X ''Condition'')), (''ObservedGeneration'', Plain)]"

definition RenovatePlatformStatus_DeepCopyInto :: "ext \<Rightarrow> copier" where
  "RenovatePlatformStatus_DeepCopyInto X = copy_struct [
     (''Conditions'', make_copy (x_copy X ''Condition''))]"

definition RenovatePlatformStatus_DeepCopy :: "ext \<Rightarrow> copier" where
  "RenovatePlatformStatus_DeepCopy X = new_copy (RenovatePlatformStatus_DeepCopyInto X)"

definition T_RenovatePlatform :: "ext \<Rightarrow> gotype" where
  "T_RenovatePlatform X = StructOf [
     (''TypeMeta'', T_TypeMeta), (''ObjectMeta'', x_type X ''ObjectMeta''),
     (''Spec'', T_RenovatePlatformSpec X), (''Status'', T_RenovatePlatformStatus X)]"

definition RenovatePlatform_DeepCopyInto :: "ext \<Rightarrow> copier" where
  "RenovatePlatform_DeepCopyInto X = copy_struct [
     (''TypeMeta'', assign), (''ObjectMeta'', x_copy X ''ObjectMeta''),
     (''Spec'', RenovatePlatformSpec_DeepCopyInto X),
     (''Status'', RenovatePlatformStatus_DeepCopyInto X)]"

definition RenovatePlatform_DeepCopy :: "ext \<Rightarrow> copier" where
  "RenovatePlatform_DeepCopy X = new_copy (RenovatePlatform_DeepCopyInto X)"

definition RenovatePlatform_DeepCopyObject :: "ext \<Rightarrow> copier" where
  "RenovatePlatform_DeepCopyObject X v h = (case RenovatePlatform_DeepCopy X v h of (c, h1) \<Rightarrow> if c \<noteq> Ref None then (c, h1) else (Ref None, h1))"

definition T_RenovatePlatformList :: "ext \<Rightarrow> gotype" where
  "T_RenovatePlatformList X = StructOf [
     (''TypeMeta'', T_TypeMeta), (''ListMeta'', x_type X ''ListMeta''),
     (''Items'', SliceOf (T_RenovatePlatform X))]"

definition RenovatePlatformList_DeepCopyInto :: "ext \<Rightarrow> copier" where
  "RenovatePlatformList_DeepCopyInto X = copy_struct [
     (''TypeMeta'', assign), (''ListMeta'', x_copy X ''ListMeta''),
     (''Items'', make_copy (RenovatePlatform_DeepCopyInto X))]"

definition RenovatePlatformList_DeepCopy :: "ext \<Rightarrow> copier" where
  "RenovatePlatformList_DeepCopy X = new_copy (RenovatePlatformList_DeepCopyInto X)"

definition RenovatePlatformList_DeepCopyObject :: "ext \<Rightarrow> copier" where
  "RenovatePlatformList_DeepCopyObject X v h = (case RenovatePlatformList_DeepCopy X v h of (c, h1) \<Rightarrow> if c \<noteq> Ref None then (c, h1) else (Ref None, h1))"

definition T_WorkersSpec :: gotype where
  "T_WorkersSpec = StructOf [
     (''MinWorkers'', Plain), (''MaxWorkers'', Plain), (''ReposPerWorker'', Plain),
     (''BackoffLimitPerIndex'', PtrTo Plain)]"

definition WorkersSpec_DeepCopyInto :: copier where
  "WorkersSpec_DeepCopyInto = copy_struct [
     (''BackoffLimitPerIndex'', new_copy assign)]"

definition WorkersSpec_DeepCopy :: copier where
  "WorkersSpec_DeepCopy = new_copy WorkersSpec_DeepCopyInto"

definition T_DiscoverySpec :: gotype where
  "T_DiscoverySpec = StructOf [
     (''Autodiscover'', PtrTo Plain), (''RequireConfig'', PtrTo Plain), (''Filter'', SliceOf Plain),
     (''Topics'', SliceOf Plain), (''SkipForks'', PtrTo Plain), (''SkipArchived'', PtrTo Plain)]"

definition DiscoverySpec_DeepCopyInto :: copier where
  "DiscoverySpec_DeepCopyInto = copy_struct [
     (''Autodiscover'', new_copy assign), (''RequireConfig'', new_copy assign),
     (''Filter'', make_copy assign), (''Topics'', make_copy assign), (''SkipForks'', new_copy assign),
     (''SkipArchived'', new_copy assign)]"

definition DiscoverySpec_DeepCopy :: copier where
  "DiscoverySpec_DeepCopy = new_copy DiscoverySpec_DeepCopyInto"

definition T_RenovateScanSpec :: "ext \<Rightarrow> gotype" where
  "T_RenovateScanSpec X = StructOf [
     (''PlatformRef'', T_LocalObjectReference), (''Schedule'', Plain), (''TimeZone'', Plain),
     (''Suspend'', Plain), (''ConcurrencyPolicy'', Plain), (''Workers'', T_WorkersSpec),
     (''Discovery'', T_DiscoverySpec), (''RenovateConfigOverrides'', PtrTo (x_type X ''RawExtension'')),
     (''ExtraEnv'', SliceOf (x_type X ''EnvVar'')), (''LogLevel'', PtrTo Plain),
     (''Resources'', PtrTo (x_type X ''ResourceRequirements'')),
     (''SuccessfulRunsHistoryLimit'', PtrTo Plain), (''FailedRunsHistoryLimit'', PtrTo Plain)]"

definition RenovateScanSpec_DeepCopyInto :: "ext \<Rightarrow> copier" where
  "RenovateScanSpec_DeepCopyInto X = copy_struct [
     (''PlatformRef'', assign), (''Workers'', WorkersSpec_DeepCopyInto),
     (''Discovery'', DiscoverySpec_DeepCopyInto),
     (''RenovateConfigOverrides'', new_copy (x_copy X ''RawExtension'')),
     (''ExtraEnv'', make_copy (x_copy X ''EnvVar'')), (''LogLevel'', new_copy assign),
     (''Resources'', new_copy (x_copy X ''ResourceRequirements'')),
     (''SuccessfulRunsHistoryLimit'', new_copy assign), (''FailedRunsHistoryLimit'', new_copy assign)]"

definition RenovateScanSpec_DeepCopy :: "ext \<Rightarrow> copier" where
  "RenovateScanSpec_DeepCopy X = new_copy (RenovateScanSpec_DeepCopyInto X)"

definition T_RenovateScanStatus :: "ext \<Rightarrow> gotype" where
  "T_RenovateScanStatus X = StructOf [
     (''Conditions'', SliceOf (x_type X ''Condition'')), (''LastRunTime'', PtrTo (x_type X ''Time'')),
     (''LastSuccessfulRunTime'', PtrTo (x_type X ''Time'')),
     (''NextRunTime'', PtrTo (x_type X ''Time'')), (''LastRunRef'', PtrTo T_ObjectReference),
     (''ActiveRuns'', SliceOf T_ObjectReference), (''ObservedGeneration'', Plain)]"

definition RenovateScanStatus_DeepCopyInto :: "ext \<Rightarrow> copier" where
  "RenovateScanStatus_DeepCopyInto X = copy_struct [
     (''Conditions'', make_copy (x_copy X ''Condition'')), (''LastRunTime'', new_copy (x_copy X ''Time'')),
     (''LastSuccessfulRunTime'', new_copy (x_copy X ''Time'')),
     (''NextRunTime'', new_copy (x_copy X ''Time'')), (''LastRunRef'', new_copy assign),
     (''ActiveRuns'', make_copy assign)]"

definition RenovateScanStatus_DeepCopy :: "ext \<Rightarrow> copier" where
  "RenovateScanStatus_DeepCopy X = new_copy (RenovateScanStatus_DeepCopyInto X)"

definition T_RenovateScan :: "ext \<Rightarrow> gotype" where
  "T_RenovateScan X = StructOf [
     (''TypeMeta'', T_TypeMeta), (''ObjectMeta'', x_type X ''ObjectMeta''), (''Spec'', T_RenovateScanSpec X),
     (''Status'', T_RenovateScanStatus X)]"

definition RenovateScan_DeepCopyInto :: "ext \<Rightarrow> copier" where
  "RenovateScan_DeepCopyInto X = copy_struct [
     (''TypeMeta'', assign), (''ObjectMeta'', x_copy X ''ObjectMeta''),
     (''Spec'', RenovateScanSpec_DeepCopyInto X), (''Status'', RenovateScanStatus_DeepCopyInto X)]"

definition RenovateScan_DeepCopy :: "ext \<Rightarrow> copier" where
  "RenovateScan_DeepCopy X = new_copy (RenovateScan_DeepCopyInto X)"

definition RenovateScan_DeepCopyObject :: "ext \<Rightarrow> copier" where
  "RenovateScan_DeepCopyObject X v h = (case RenovateScan_DeepCopy X v h of (c, h1) \<Rightarrow> if c \<noteq> Ref None then (c, h1) else (Ref None, h1))"

definition T_RenovateScanList :: "ext \<Rightarrow> gotype" where
  "T_RenovateScanList X = StructOf [
     (''TypeMeta'', T_TypeMeta), (''ListMeta'', x_type X ''ListMeta''),
     (''Items'', SliceOf (T_RenovateScan X))]"

definition RenovateScanList_DeepCopyInto :: "ext \<Rightarrow> copier" where
  "RenovateScanList_DeepCopyInto X = copy_struct [
     (''TypeMeta'', assign), (''ListMeta'', x_copy X ''ListMeta''),
     (''Items'', make_copy (RenovateScan_DeepCopyInto X))]"

definition RenovateScanList_DeepCopy :: "ext \<Rightarrow> copier" where
  "RenovateScanList_DeepCopy X = new_copy (RenovateScanList_DeepCopyInto X)"

definition RenovateScanList_DeepCopyObject :: "ext \<Rightarrow> copier" where
  "RenovateScanList_DeepCopyObject X v h = (case RenovateScanList_DeepCopy X v h of (c, h1) \<Rightarrow> if c \<noteq> Ref None then (c, h1) else (Ref None, h1))"

definition T_RenovateRunSpec :: "ext \<Rightarrow> gotype" where
  "T_RenovateRunSpec X = StructOf [
     (''ScanRef'', T_LocalObjectReference), (''PlatformSnapshot'', T_RenovatePlatformSpec X),
     (''ScanSnapshot'', T_RenovateScanSpec X)]"

definition RenovateRunSpec_DeepCopyInto :: "ext \<Rightarrow> copier" where
  "RenovateRunSpec_DeepCopyInto X = copy_struct [
     (''ScanRef'', assign), (''PlatformSnapshot'', RenovatePlatformSpec_DeepCopyInto X),
     (''ScanSnapshot'', RenovateScanSpec_DeepCopyInto X)]"

definition RenovateRunSpec_DeepCopy :: "ext \<Rightarrow> copier" where
  "RenovateRunSpec_DeepCopy X = new_copy (RenovateRunSpec_DeepCopyInto X)"

definition T_RenovateRunStatus :: "ext \<Rightarrow> gotype" where
  "T_RenovateRunStatus X = StructOf [
     (''Conditions'', SliceOf (x_type X ''Condition'')), (''Phase'', Plain),
     (''StartTime'', PtrTo (x_type X ''Time'')),
     (''DiscoveryCompletionTime'', PtrTo (x_type X ''Time'')),
     (''WorkersStartTime'', PtrTo (x_type X ''Time'')), (''CompletionTime'', PtrTo (x_type X ''Time'')),
     (''DiscoveredRepos'', Plain), (''ActualWorkers'', Plain),
     (''ShardConfigMapRef'', PtrTo T_ObjectReference), (''WorkerJobRef'', PtrTo T_ObjectReference),
     (''SucceededShards'', Plain), (''FailedShards'', Plain), (''ObservedGeneration'', Plain)]"

definition RenovateRunStatus_DeepCopyInto :: "ext \<Rightarrow> copier" where
  "RenovateRunStatus_DeepCopyInto X = copy_struct [
     (''Conditions'', make_copy (x_copy X ''Condition'')), (''StartTime'', new_copy (x_copy X ''Time'')),
     (''DiscoveryCompletionTime'', new_copy (x_copy X ''Time'')),
     (''WorkersStartTime'', new_copy (x_copy X ''Time'')),
     (''CompletionTime'', new_copy (x_copy X ''Time'')), (''ShardConfigMapRef'', new_copy assign),
     (''WorkerJobRef'', new_copy assign)]"

definition RenovateRunStatus_DeepCopy :: "ext \<Rightarrow> copier" where
  "RenovateRunStatus_DeepCopy X = new_copy (RenovateRunStatus_DeepCopyInto X)"

definition T_RenovateRun :: "ext \<Rightarrow> gotype" where
  "T_RenovateRun X = StructOf [
     (''TypeMeta'', T_TypeMeta), (''ObjectMeta'', x_type X ''ObjectMeta''), (''Spec'', T_RenovateRunSpec X),
     (''Status'', T_RenovateRunStatus X)]"

definition RenovateRun_DeepCopyInto :: "ext \<Rightarrow> copier" where
  "RenovateRun_DeepCopyInto X = copy_struct [
     (''TypeMeta'', assign), (''ObjectMeta'', x_copy X ''ObjectMeta''),
     (''Spec'', RenovateRunSpec_DeepCopyInto X), (''Status'', RenovateRunStatus_DeepCopyInto X)]"

definition RenovateRun_DeepCopy :: "ext \<Rightarrow> copier" where
  "RenovateRun_DeepCopy X = new_copy (RenovateRun_DeepCopyInto X)"

definition RenovateRun_DeepCopyObject :: "ext \<Rightarrow> copier" where
  "RenovateRun_DeepCopyObject X v h = (case RenovateRun_DeepCopy X v h of (c, h1) \<Rightarrow> if c \<noteq> Ref None then (c, h1) else (Ref None, h1))"

definition T_RenovateRunList :: "ext \<Rightarrow> gotype" where
  "T_RenovateRunList X = StructOf [
     (''TypeMeta'', T_TypeMeta), (''ListMeta'', x_type X ''ListMeta''),
     (''Items'', SliceOf (T_RenovateRun X))]"

definition RenovateRunList_DeepCopyInto :: "ext \<Rightarrow> copier" where
  "RenovateRunList_DeepCopyInto X = copy_struct [
     (''TypeMeta'', assign), (''ListMeta'', x_copy X ''ListMeta''),
     (''Items'', make_copy (RenovateRun_DeepCopyInto X))]"

definition RenovateRunList_DeepCopy :: "ext \<Rightarrow> copier" where
  "RenovateRunList_DeepCopy X = new_copy (RenovateRunList_DeepCopyInto X)"

definition RenovateRunList_DeepCopyObject :: "ext \<Rightarrow> copier" where
  "RenovateRunList_DeepCopyObject X v h = (case RenovateRunList_DeepCopy X v h of (c, h1) \<Rightarrow> if c \<noteq> Ref None then (c, h1) else (Ref None, h1))"

section \<open>Every copy is deep\<close>

lemma flat_types [simp]:
  "flat T_TypeMeta" "flat T_ObjectReference" "flat T_SecretKeyReference" "flat T_LocalObjectReference"
  "flat T_GitHubAppAuth" "flat T_TokenAuth"
  by (simp_all add: T_TypeMeta_def T_ObjectReference_def T_SecretKeyReference_def T_LocalObjectReference_def
      T_GitHubAppAuth_def T_TokenAuth_def)

lemma SecretKeyReference_deep [deep]: "deep_copier T_SecretKeyReference SecretKeyReference_DeepCopyInto"
  unfolding T_SecretKeyReference_def SecretKeyReference_DeepCopyInto_def
  by (rule deep_assign) simp

lemma LocalObjectReference_deep [deep]: "deep_copier T_LocalObjectReference LocalObjectReference_DeepCopyInto"
  unfolding T_LocalObjectReference_def LocalObjectReference_DeepCopyInto_def
  by (rule deep_assign) simp

lemma GitHubAppAuth_deep [deep]: "deep_copier T_GitHubAppAuth GitHubAppAuth_DeepCopyInto"
  unfolding T_GitHubAppAuth_def GitHubAppAuth_DeepCopyInto_def
  by (rule deep_fields) (simp add: covered_def deep deep_new deep_make deep_assign)

lemma TokenAuth_deep [deep]: "deep_copier T_TokenAuth TokenAuth_DeepCopyInto"
  unfolding T_TokenAuth_def TokenAuth_DeepCopyInto_def
  by (rule deep_fields) (simp add: covered_def deep deep_new deep_make deep_assign)

lemma PlatformAuth_deep [deep]: "deep_copier T_PlatformAuth PlatformAuth_DeepCopyInto"
  unfolding T_PlatformAuth_def PlatformAuth_DeepCopyInto_def
  by (rule deep_fields) (simp add: covered_def deep deep_new deep_make deep_assign)

lemma RenovatePlatformSpec_deep [deep]: "ext_deep X \<Longrightarrow> deep_copier (T_RenovatePlatformSpec X) (RenovatePlatformSpec_DeepCopyInto X)"
  unfolding T_RenovatePlatformSpec_def RenovatePlatformSpec_DeepCopyInto_def
  by (rule deep_fields) (simp add: covered_def deep deep_new deep_make deep_assign)

lemma RenovatePlatformStatus_deep [deep]: "ext_deep X \<Longrightarrow> deep_copier (T_RenovatePlatformStatus X) (RenovatePlatformStatus_DeepCopyInto X)"
  unfolding T_RenovatePlatformStatus_def RenovatePlatformStatus_DeepCopyInto_def
  by (rule deep_fields) (simp add: covered_def deep deep_new deep_make deep_assign)

lemma RenovatePlatform_deep [deep]: "ext_deep X \<Longrightarrow> deep_copier (T_RenovatePlatform X) (RenovatePlatform_DeepCopyInto X)"
  unfolding T_RenovatePlatform_def RenovatePlatform_DeepCopyInto_def
  by (rule deep_fields) (simp add: covered_def deep deep_new deep_make deep_assign)

lemma RenovatePlatformList_deep [deep]: "ext_deep X \<Longrightarrow> deep_copier (T_RenovatePlatformList X) (RenovatePlatformList_DeepCopyInto X)"
  unfolding T_RenovatePlatformList_def RenovatePlatformList_DeepCopyInto_def
  by (rule deep_fields) (simp add: covered_def deep deep_new deep_make deep_assign)

lemma WorkersSpec_deep [deep]: "deep_copier T_WorkersSpec WorkersSpec_DeepCopyInto"
  unfolding T_WorkersSpec_def WorkersSpec_DeepCopyInto_def
  by (rule deep_fields) (simp add: covered_def deep deep_new deep_make deep_assign)

lemma DiscoverySpec_deep [deep]: "deep_copier T_DiscoverySpec DiscoverySpec_DeepCopyInto"
  unfolding T_DiscoverySpec_def DiscoverySpec_DeepCopyInto_def
  by (rule deep_fields) (simp add: covered_def deep deep_new deep_make deep_assign)

lemma RenovateScanSpec_deep [deep]: "ext_deep X \<Longrightarrow> deep_copier (T_RenovateScanSpec X) (RenovateScanSpec_DeepCopyInto X)"
  unfolding T_RenovateScanSpec_def RenovateScanSpec_DeepCopyInto_def
  by (rule deep_fields) (simp add: covered_def deep deep_new deep_make deep_assign)

lemma RenovateScanStatus_deep [deep]: "ext_deep X \<Longrightarrow> deep_copier (T_RenovateScanStatus X) (RenovateScanStatus_DeepCopyInto X)"
  unfolding T_RenovateScanStatus_def RenovateScanStatus_DeepCopyInto_def
  by (rule deep_fields) (simp add: covered_def deep deep_new deep_make deep_assign)

lemma RenovateScan_deep [deep]: "ext_deep X \<Longrightarrow> deep_copier (T_RenovateScan X) (RenovateScan_DeepCopyInto X)"
  unfolding T_RenovateScan_def RenovateScan_DeepCopyInto_def
  by (rule deep_fields) (simp add: covered_def deep deep_new deep_make deep_assign)

lemma RenovateScanList_deep [deep]: "ext_deep X \<Longrightarrow> deep_copier (T_RenovateScanList X) (RenovateScanList_DeepCopyInto X)"
  unfolding T_RenovateScanList_def RenovateScanList_DeepCopyInto_def
  by (rule deep_fields) (simp add: covered_def deep deep_new deep_make deep_assign)

lemma RenovateRunSpec_deep [deep]: "ext_deep X \<Longrightarrow> deep_copier (T_RenovateRunSpec X) (RenovateRunSpec_DeepCopyInto X)"
  unfolding T_RenovateRunSpec_def RenovateRunSpec_DeepCopyInto_def
  by (rule deep_fields) (simp add: covered_def deep deep_new deep_make deep_assign)

lemma RenovateRunStatus_deep [deep]: "ext_deep X \<Longrightarrow> deep_copier (T_RenovateRunStatus X) (RenovateRunStatus_DeepCopyInto X)"
  unfolding T_RenovateRunStatus_def RenovateRunStatus_DeepCopyInto_def
  by (rule deep_fields) (simp add: covered_def deep deep_new deep_make deep_assign)

lemma RenovateRun_deep [deep]: "ext_deep X \<Longrightarrow> deep_copier (T_RenovateRun X) (RenovateRun_DeepCopyInto X)"
  unfolding T_RenovateRun_def RenovateRun_DeepCopyInto_def
  by (rule deep_fields) (simp add: covered_def deep deep_new deep_make deep_assign)

lemma RenovateRunList_deep [deep]: "ext_deep X \<Longrightarrow> deep_copier (T_RenovateRunList X) (RenovateRunList_DeepCopyInto X)"
  unfolding T_RenovateRunList_def RenovateRunList_DeepCopyInto_def
  by (rule deep_fields) (simp add: covered_def deep deep_new deep_make deep_assign)

lemma DeepCopyObject_eq:
  "RenovatePlatform_DeepCopyObject X = RenovatePlatform_DeepCopy X" "RenovatePlatformList_DeepCopyObject X = RenovatePlatformList_DeepCopy X"
  "RenovateScan_DeepCopyObject X = RenovateScan_DeepCopy X" "RenovateScanList_DeepCopyObject X = RenovateScanList_DeepCopy X"
  "RenovateRun_DeepCopyObject X = RenovateRun_DeepCopy X" "RenovateRunList_DeepCopyObject X = RenovateRunList_DeepCopy X"
  by (auto simp: fun_eq_iff RenovatePlatform_DeepCopyObject_def RenovatePlatformList_DeepCopyObject_def
      RenovateScan_DeepCopyObject_def RenovateScanList_DeepCopyObject_def RenovateRun_DeepCopyObject_def
      RenovateRunList_DeepCopyObject_def split: prod.split)

text \<open>The copies that need nothing of other packages, as instances of the contract.\<close>

interpretation workers_copy: deep_copier T_WorkersSpec WorkersSpec_DeepCopyInto
  by (rule WorkersSpec_deep)

interpretation discovery_copy: deep_copier T_DiscoverySpec DiscoverySpec_DeepCopyInto
  by (rule DiscoverySpec_deep)

interpretation auth_copy: deep_copier "PtrTo T_PlatformAuth" PlatformAuth_DeepCopy
  unfolding PlatformAuth_DeepCopy_def by (rule deep_new [OF PlatformAuth_deep])

section \<open>The caches and the snapshots\<close>

text \<open>
  What the informer caches rely on: the copy says what the original says, the original still says it, and they share
  no cell.
\<close>

definition isolates :: "gotype \<Rightarrow> copier \<Rightarrow> bool" where
  "isolates T c = (\<forall>v h v' h'. wt T v h \<longrightarrow> c v h = (v', h') \<longrightarrow>
     read T v' h' = read T v h \<and> read T v h' = read T v h \<and> reach T v' h' \<inter> reach T v h' = {})"

lemma deep_isolates: "deep_copier T c \<Longrightarrow> isolates T c"
  unfolding isolates_def
proof (intro allI impI)
  fix v h v' h' assume d: "deep_copier T c" and w: "wt T v h" and c: "c v h = (v', h')"
  note laws = deep_copier.copies [OF d w c]
  then have ex: "extends h h'" by simp
  from laws frame_extends(2,3) [OF w ex] deep_copier.disjoint [OF d w c]
  show "read T v' h' = read T v h \<and> read T v h' = read T v h \<and> reach T v' h' \<inter> reach T v h' = {}" by simp
qed

text \<open>
  C34. Copies of API objects are independent of their originals: the copy of a Platform, a Scan, a Run or a list of
  them, as the caches of the API client hand them out, reads like the original and shares no memory with it,
  given that the copies of Kubernetes' own types are deep.
\<close>

theorem object_copies_isolated:
  assumes "ext_deep X"
  shows "isolates (PtrTo (T_RenovatePlatform X)) (RenovatePlatform_DeepCopyObject X) \<and>
    isolates (PtrTo (T_RenovateScan X)) (RenovateScan_DeepCopyObject X) \<and>
    isolates (PtrTo (T_RenovateRun X)) (RenovateRun_DeepCopyObject X) \<and>
    isolates (PtrTo (T_RenovatePlatformList X)) (RenovatePlatformList_DeepCopyObject X) \<and>
    isolates (PtrTo (T_RenovateScanList X)) (RenovateScanList_DeepCopyObject X) \<and>
    isolates (PtrTo (T_RenovateRunList X)) (RenovateRunList_DeepCopyObject X)"
  unfolding DeepCopyObject_eq RenovatePlatform_DeepCopy_def RenovateScan_DeepCopy_def RenovateRun_DeepCopy_def
    RenovatePlatformList_DeepCopy_def RenovateScanList_DeepCopy_def RenovateRunList_DeepCopy_def
  by (intro conjI deep_isolates deep_new) (simp_all add: deep assms)

text \<open>
  The specification of a new Run in memory (\<open>createRun\<close>): \<open>*platform.Spec.DeepCopy()\<close> and
  \<open>*scan.Spec.DeepCopy()\<close>; the cells the two calls return are read once and dropped.
\<close>

definition deref :: "goval \<Rightarrow> gomem \<Rightarrow> goval" where
  "deref v h = (case v of Ref (Some a) \<Rightarrow> cells h a | _ \<Rightarrow> v)"

definition snapshot_spec :: "ext \<Rightarrow> string \<Rightarrow> goval \<Rightarrow> goval \<Rightarrow> gomem \<Rightarrow> goval \<times> gomem" where
  "snapshot_spec X scanName platformSpec scanSpec h =
     (let (p, h1) = RenovatePlatformSpec_DeepCopy X platformSpec h;
          (s, h2) = RenovateScanSpec_DeepCopy X scanSpec h1
      in (Struct [(''ScanRef'', Struct [(''Name'', Word scanName)]), (''PlatformSnapshot'', deref p h2),
                  (''ScanSnapshot'', deref s h2)], h2))"

lemma copy_deref:
  assumes "deep_copier T c" and "wt (PtrTo T) (Ref (Some a)) h" and "new_copy c (Ref (Some a)) h = (r, h1)"
    and "extends h1 h2"
  shows "extends h h1" and "wt T (deref r h2) h2" and "read T (deref r h2) h2 = read T (cells h a) h"
    and "reach T (deref r h2) h2 \<inter> {..<lim h} = {}"
proof -
  note laws = deep_copier.copies [OF deep_new [OF assms(1)] assms(2,3)]
  then have w: "wt (PtrTo T) r h1" and rd: "read (PtrTo T) r h1 = Points (read T (cells h a) h)" by simp_all
  obtain b where r: "r = Ref (Some b)"
    using assms(3) by (auto simp: new_copy_def split: prod.splits)
  show "extends h h1" using laws by simp
  note fr = frame_extends [OF w assms(4)]
  show "wt T (deref r h2) h2" using fr(1) by (simp add: r deref_def)
  show "read T (deref r h2) h2 = read T (cells h a) h" using fr(3) rd by (simp add: r deref_def)
  have "reach (PtrTo T) r h2 \<inter> {..<lim h} = {}" using laws fr(2) by simp
  then show "reach T (deref r h2) h2 \<inter> {..<lim h} = {}" by (auto simp: r deref_def)
qed

text \<open>
  C16. A Run's snapshots are frozen. Whatever is later written to the memory that existed when the Run was built, in
  particular to the Scan and the Platform it was built from, its specification reads as the two specifications read then.
\<close>

theorem snapshot_frozen:
  assumes "ext_deep X" and "wt (PtrTo (T_RenovatePlatformSpec X)) (Ref (Some p)) h"
    and "wt (PtrTo (T_RenovateScanSpec X)) (Ref (Some s)) h"
    and "snapshot_spec X scanName (Ref (Some p)) (Ref (Some s)) h = (v, h')"
    and "lim h' \<le> lim later" and "\<forall>a. lim h \<le> a \<longrightarrow> cells later a = cells h' a"
  shows "wt (T_RenovateRunSpec X) v later \<and>
    read (T_RenovateRunSpec X) v later =
      Field ''ScanRef'' (Field ''Name'' (Leaf scanName) NoFields)
        (Field ''PlatformSnapshot'' (read (T_RenovatePlatformSpec X) (cells h p) h)
          (Field ''ScanSnapshot'' (read (T_RenovateScanSpec X) (cells h s) h) NoFields))"
proof -
  let ?P = "T_RenovatePlatformSpec X" and ?S = "T_RenovateScanSpec X"
  obtain pr h1 where cp: "RenovatePlatformSpec_DeepCopy X (Ref (Some p)) h = (pr, h1)" by fastforce
  obtain sr h2 where cs: "RenovateScanSpec_DeepCopy X (Ref (Some s)) h1 = (sr, h2)" by fastforce
  have v: "v = Struct [(''ScanRef'', Struct [(''Name'', Word scanName)]), (''PlatformSnapshot'', deref pr h2),
      (''ScanSnapshot'', deref sr h2)]" and h': "h' = h2"
    using assms(4) cp cs by (auto simp: snapshot_spec_def Let_def)
  have dP: "deep_copier ?P (RenovatePlatformSpec_DeepCopyInto X)" and dS: "deep_copier ?S (RenovateScanSpec_DeepCopyInto X)"
    by (simp_all add: deep assms(1))
  have e1: "extends h h1" by (rule copy_deref(1) [OF dP assms(2) cp [unfolded RenovatePlatformSpec_DeepCopy_def] extends_refl])
  have sw: "wt (PtrTo ?S) (Ref (Some s)) h1" by (rule frame_extends(1) [OF assms(3) e1])
  note S = copy_deref [OF dS sw cs [unfolded RenovateScanSpec_DeepCopy_def] extends_refl]
  note P = copy_deref [OF dP assms(2) cp [unfolded RenovatePlatformSpec_DeepCopy_def] S(1)]
  have later: "agree A h2 later" if "A \<inter> {..<lim h} = {}" for A
    using that assms(5,6) h' by (auto simp: agree_def not_less dest: disjoint_iff [THEN iffD1])
  have fP: "wt ?P (deref pr h2) later" "read ?P (deref pr h2) later = read ?P (deref pr h2) h2"
    using frame [OF P(2) later [OF P(4)]] by simp_all
  have fS: "wt ?S (deref sr h2) later" "read ?S (deref sr h2) later = read ?S (deref sr h2) h2"
    using frame [OF S(2) later [OF fresh_mono [OF e1 S(4)]]] by simp_all
  have "read ?S (cells h1 s) h1 = read ?S (cells h s) h" using frame_extends(3) [OF assms(3) e1] by simp
  with fP fS P(3) S(3) show ?thesis by (simp add: v T_RenovateRunSpec_def T_LocalObjectReference_def)
qed

section \<open>Examples\<close>

text \<open>Types of other packages without addresses; a Scan whose filter is a slice in cell 2.\<close>

definition ex_X :: ext where
  "ex_X = \<lparr>x_type = (\<lambda>_. Plain), x_copy = (\<lambda>_. assign)\<rparr>"

definition ex_mem :: gomem where
  "ex_mem = \<lparr>cells = (\<lambda>a. if a = 0 then Struct [(''PlatformType'', Word ''github''), (''BaseURL'', Word ''''),
       (''Auth'', Struct [(''GitHubApp'', Ref None), (''Token'', Ref None)]), (''RunnerConfig'', Ref None),
       (''PresetRepoRef'', Word ''''), (''RenovateImage'', Word ''renovate:43''), (''LogLevel'', Ref None)]
     else if a = 1 then Struct [(''PlatformRef'', Struct [(''Name'', Word ''forge'')]), (''Schedule'', Word ''0 * * * *''),
       (''TimeZone'', Word ''''), (''Suspend'', Word ''false''), (''ConcurrencyPolicy'', Word ''Forbid''),
       (''Workers'', Struct [(''MinWorkers'', Word ''1''), (''MaxWorkers'', Word ''10''), (''ReposPerWorker'', Word ''50''),
          (''BackoffLimitPerIndex'', Ref None)]),
       (''Discovery'', Struct [(''Autodiscover'', Ref None), (''RequireConfig'', Ref None), (''Filter'', Ref (Some 2)),
          (''Topics'', Ref None), (''SkipForks'', Ref None), (''SkipArchived'', Ref None)]),
       (''RenovateConfigOverrides'', Ref None), (''ExtraEnv'', Ref None), (''LogLevel'', Ref None), (''Resources'', Ref None),
       (''SuccessfulRunsHistoryLimit'', Ref None), (''FailedRunsHistoryLimit'', Ref None)]
     else Array [Word ''org/*'']), lim = 3\<rparr>"

lemma ex_ext_deep: "ext_deep ex_X"
  by (simp add: ext_deep_def ex_X_def deep_assign)

lemma ex_mem_typed:
  "wt (PtrTo (T_RenovatePlatformSpec ex_X)) (Ref (Some 0)) ex_mem"
  "wt (PtrTo (T_RenovateScanSpec ex_X)) (Ref (Some 1)) ex_mem"
  by (simp_all add: ex_mem_def ex_X_def T_RenovatePlatformSpec_def T_PlatformAuth_def T_RenovateScanSpec_def
      T_LocalObjectReference_def T_WorkersSpec_def T_DiscoverySpec_def)

theorem snapshot_frozen_witness:
  "\<exists>v h'. snapshot_spec ex_X ''nightly'' (Ref (Some 0)) (Ref (Some 1)) ex_mem = (v, h') \<and>
     read (T_RenovateRunSpec ex_X) v (h'\<lparr>cells := (cells h')(2 := Array [Word ''evil/*''])\<rparr>) =
       Field ''ScanRef'' (Field ''Name'' (Leaf ''nightly'') NoFields)
         (Field ''PlatformSnapshot'' (read (T_RenovatePlatformSpec ex_X) (cells ex_mem 0) ex_mem)
           (Field ''ScanSnapshot'' (read (T_RenovateScanSpec ex_X) (cells ex_mem 1) ex_mem) NoFields))"
proof -
  obtain v h' where s: "snapshot_spec ex_X ''nightly'' (Ref (Some 0)) (Ref (Some 1)) ex_mem = (v, h')" by fastforce
  have "\<forall>a. lim ex_mem \<le> a \<longrightarrow> cells (h'\<lparr>cells := (cells h')(2 := Array [Word ''evil/*''])\<rparr>) a = cells h' a"
    by (simp add: ex_mem_def)
  with snapshot_frozen [OF ex_ext_deep ex_mem_typed s, of "h'\<lparr>cells := (cells h')(2 := Array [Word ''evil/*''])\<rparr>"] s
  show ?thesis by simp
qed

theorem object_copies_isolated_witness:
  "isolates (PtrTo (T_RenovateScan ex_X)) (RenovateScan_DeepCopyObject ex_X)"
  using object_copies_isolated [OF ex_ext_deep] by blast

end
