(* ===== verification/Wiring.thy ===== *)
theory Wiring
  imports RunProperties PlatformReconciler ScanProperties
begin

text \<open>
  How the controllers are woken and how the process starts: the watches the three
  \<open>SetupWithManager\<close> methods register, \<open>cmd/main.go\<close>, and the set-up of tracing and pprof in
  \<open>internal/observability\<close>.
\<close>

section \<open>Watches\<close>

datatype watched =
    ObjPlatform RenovatePlatform
  | ObjScan RenovateScan
  | ObjRun RenovateRun
  | ObjSecret Secret
  | ObjConfigMap ConfigMap
  | ObjJob Job

text \<open>
  A reconcile request is a namespace and a name; Platforms have no namespace. \<open>For\<close> asks for the
  object itself. What \<open>Owns\<close> asks for is controller-runtime's owner handler, the parameter \<open>owners\<close>:
  from the owning kind and an object's metadata the requests for its controlling owner.
\<close>

type_synonym request = "string \<times> string"

definition run_requests :: "(string \<Rightarrow> ObjectMeta \<Rightarrow> request list) \<Rightarrow> watched \<Rightarrow> request list" where
  "run_requests owners obj =
     (case obj of
        ObjRun run \<Rightarrow> [(run_namespace run, run_name run)]
      | ObjJob job \<Rightarrow> owners ''RenovateRun'' (job_meta job)
      | ObjConfigMap cm \<Rightarrow> owners ''RenovateRun'' (cm_meta cm)
      | ObjSecret secret \<Rightarrow> owners ''RenovateRun'' (sec_meta secret)
      | _ \<Rightarrow> [])"

definition scan_requests ::
  "(string \<Rightarrow> ObjectMeta \<Rightarrow> request list) \<Rightarrow> 's RenovateScanReconciler \<Rightarrow> 's \<Rightarrow> watched \<Rightarrow> request list" where
  "scan_requests owners S s obj =
     (case obj of
        ObjScan scan \<Rightarrow> [(m_namespace (scan_meta scan), scan_name scan)]
      | ObjRun run \<Rightarrow> owners ''RenovateScan'' (run_meta run)
      | ObjPlatform platform \<Rightarrow> scansForPlatform S (Some platform) s
      | _ \<Rightarrow> [])"

definition platform_requests :: "'s RenovatePlatformReconciler \<Rightarrow> 's \<Rightarrow> watched \<Rightarrow> request list" where
  "platform_requests P s obj =
     (case obj of
        ObjPlatform p \<Rightarrow> [('''', plat_name p)]
      | ObjSecret secret \<Rightarrow>
          if secretInOperatorNamespacePredicate (pl_OperatorNamespace P) (sec_meta secret)
          then map (\<lambda>name. ('''', name)) (platformsForSecret P (Some secret) s) else []
      | _ \<Rightarrow> [])"

text \<open>What controller-runtime documents of the owner handler: the controlling owner of the kind is asked for.\<close>

definition owner_law :: "(string \<Rightarrow> ObjectMeta \<Rightarrow> request list) \<Rightarrow> bool" where
  "owner_law owners = (\<forall>kind m ow. ow \<in> set (m_ownerReferences m) \<longrightarrow> ow_controller ow = Some True \<longrightarrow>
     ow_apiVersion ow = GroupVersion \<longrightarrow> ow_kind ow = kind \<longrightarrow> (m_namespace m, ow_name ow) \<in> set (owners kind m))"

lemma owner_asked:
  "owner_law owners \<Longrightarrow> ow \<in> set (m_ownerReferences m) \<Longrightarrow> ow_controller ow = Some True \<Longrightarrow>
   ow_apiVersion ow = GroupVersion \<Longrightarrow> (m_namespace m, ow_name ow) \<in> set (owners (ow_kind ow) m)"
  by (simp add: owner_law_def)

lemma run_owner_asked:
  assumes "owner_law owners" and "m_ownerReferences m = [ownerRefFor run]" and "m_namespace m = run_namespace run"
  shows "(run_namespace run, run_name run) \<in> set (owners ''RenovateRun'' m)"
  using owner_asked [OF assms(1), of "ownerRefFor run" m] assms(2,3) by (simp add: ownerRefFor_def)

lemma BuildMirror_meta:
  assumes "BuildMirror (Some run) tok = Inr secret"
  shows "m_ownerReferences (sec_meta secret) = [ownerRefFor run]" "m_namespace (sec_meta secret) = run_namespace run"
  using assms by (auto simp: BuildMirror_def Let_def split: if_splits)

lemma BuildWorkerJob_meta:
  assumes "BuildWorkerJob U inp = Inr job" and "bi_Run inp = Some run"
  shows "m_ownerReferences (job_meta job) = [ownerRefFor run]" "m_namespace (job_meta job) = run_namespace run"
  using assms by (auto simp: BuildWorkerJob_def workerJob_def Let_def split: if_splits option.splits sum.splits)

lemma ownerRefForRun_eq: "ownerRefForRun run = ownerRefFor run"
  by (simp add: ownerRefForRun_def ownerRefFor_def)

text \<open>
  C27. Every change of a child wakes its owner, which is what lets the controllers return without asking
  to be called again: a change of the mirrored Secret, the shard ConfigMap or the worker Job of a
  Run asks for that Run, and a change of a Run asks for the Scan that created it.
\<close>

theorem children_wake_their_owner:
  assumes "owner_law owners"
  shows "(BuildMirror (Some run) tok = Inr secret \<longrightarrow>
      (run_namespace run, run_name run) \<in> set (run_requests owners (ObjSecret secret))) \<and>
    (run_namespace run, run_name run) \<in> set (run_requests owners (ObjConfigMap (shardConfigMap run data))) \<and>
    (BuildWorkerJob U inp = Inr job \<and> bi_Run inp = Some run \<longrightarrow>
      (run_namespace run, run_name run) \<in> set (run_requests owners (ObjJob job))) \<and>
    (m_namespace (scan_meta scan), scan_name scan) \<in> set (scan_requests owners S s (ObjRun (newRun S scan platform t)))"
proof (intro conjI impI)
  note asked = run_owner_asked [OF assms]
  show "(run_namespace run, run_name run) \<in> set (run_requests owners (ObjSecret secret))"
    if "BuildMirror (Some run) tok = Inr secret"
    using asked [OF BuildMirror_meta [OF that]] by (simp add: run_requests_def)
  show "(run_namespace run, run_name run) \<in> set (run_requests owners (ObjConfigMap (shardConfigMap run data)))"
    using asked [of "cm_meta (shardConfigMap run data)" run]
    by (simp add: run_requests_def shardConfigMap_def ownerRefForRun_eq)
  show "(run_namespace run, run_name run) \<in> set (run_requests owners (ObjJob job))"
    if "BuildWorkerJob U inp = Inr job \<and> bi_Run inp = Some run"
    using asked [OF BuildWorkerJob_meta [OF that [THEN conjunct1] that [THEN conjunct2]]] by (simp add: run_requests_def)
  show "(m_namespace (scan_meta scan), scan_name scan) \<in> set (scan_requests owners S s (ObjRun (newRun S scan platform t)))"
    using owner_asked [OF assms, of "hd (m_ownerReferences (run_meta (newRun S scan platform t)))"
        "run_meta (newRun S scan platform t)"]
    by (simp add: scan_requests_def newRun_def)
qed

definition ex_owners :: "string \<Rightarrow> ObjectMeta \<Rightarrow> request list" where
  "ex_owners kind m = map (\<lambda>ow. (m_namespace m, ow_name ow))
     (filter (\<lambda>ow. ow_controller ow = Some True \<and> ow_kind ow = kind) (m_ownerReferences m))"

lemma ex_owner_law: "owner_law ex_owners"
  by (auto simp: owner_law_def ex_owners_def)

theorem children_wake_their_owner_witness:
  "(''team'', ''nightly'') \<in> set (scan_requests ex_owners ex_S empty_cluster
     (ObjRun (newRun ex_S ex_hourly_scan ex_ready_platform zero_time)))"
proof -
  have "m_namespace (scan_meta ex_hourly_scan) = ''team''" "scan_name ex_hourly_scan = ''nightly''"
    by (simp_all add: ex_hourly_scan_def)
  with children_wake_their_owner [OF ex_owner_law, of ex_run "''tok''" _ "[]" _ _ _ ex_hourly_scan ex_S empty_cluster
      ex_ready_platform zero_time] show ?thesis by simp
qed

text \<open>
  C32. A change of a credential reaches everything that depends on it: a change of a Secret of the
  operator namespace asks for every Platform that refers to it, and a change of a Platform, such as
  its becoming Ready, asks for every Scan on it.
\<close>

theorem changes_wake_dependents:
  assumes "List_Platforms (pl_Client P) s = Inr platforms" and "p \<in> set platforms"
    and "resolveAuthRef p = Inr (m_name (sec_meta secret), key)"
    and "m_namespace (sec_meta secret) = pl_OperatorNamespace P"
    and "List_Scans (sc_Client S) s' = Inr scans" and "scan \<in> set scans"
    and "lor_name (ss_platformRef (scan_spec scan)) = plat_name p"
  shows "('''', plat_name p) \<in> set (platform_requests P s (ObjSecret secret)) \<and>
    (m_namespace (scan_meta scan), scan_name scan) \<in> set (scan_requests owners S s' (ObjPlatform p))"
proof
  have "p \<in> set (filter (\<lambda>p. case resolveAuthRef p of Inl e \<Rightarrow> False | Inr (n, k) \<Rightarrow> n = m_name (sec_meta secret)) platforms)"
    using assms(2,3) by simp
  then have "plat_name p \<in> set (platformsForSecret P (Some secret) s)"
    using assms(1,4) by (auto simp: platformsForSecret_def)
  then show "('''', plat_name p) \<in> set (platform_requests P s (ObjSecret secret))"
    using assms(4) by (simp add: platform_requests_def secretInOperatorNamespacePredicate_def)
  show "(m_namespace (scan_meta scan), scan_name scan) \<in> set (scan_requests owners S s' (ObjPlatform p))"
    using assms(5-7) by (auto simp: scan_requests_def scansForPlatform_def)
qed

theorem changes_wake_dependents_witness:
  "('''', ''forge'') \<in> set (platform_requests ex_P (ex_scan_cluster\<lparr>cl_platforms := [ex_token_platform PlatformTypeForgejo]\<rparr>)
     (ObjSecret ex_creds)) \<and>
   (''team'', ''nightly'') \<in> set (scan_requests ex_owners ex_S ex_scan_cluster
     (ObjPlatform (ex_token_platform PlatformTypeForgejo)))"
proof -
  let ?p = "ex_token_platform PlatformTypeForgejo"
  let ?s = "ex_scan_cluster\<lparr>cl_platforms := [?p]\<rparr>"
  have "List_Platforms (pl_Client ex_P) ?s = Inr [?p]" by (simp add: ex_P_def sim_client_def)
  moreover have "resolveAuthRef ?p = Inr (m_name (sec_meta ex_creds), defaultTokenKey)"
    by (simp add: resolveAuthRef_def ex_token_platform_def ex_creds_def Let_def)
  moreover have "m_namespace (sec_meta ex_creds) = pl_OperatorNamespace ex_P" by (simp add: ex_creds_def ex_P_def)
  moreover have "List_Scans (sc_Client ex_S) ex_scan_cluster = Inr [ex_hourly_scan]"
    by (simp add: ex_S_def sim_client_def ex_scan_cluster_def)
  moreover have "lor_name (ss_platformRef (scan_spec ex_hourly_scan)) = plat_name ?p"
    by (simp add: ex_hourly_scan_def ex_token_platform_def)
  moreover have "plat_name ?p = ''forge''" "m_namespace (scan_meta ex_hourly_scan) = ''team''"
    "scan_name ex_hourly_scan = ''nightly''" by (simp_all add: ex_token_platform_def ex_hourly_scan_def)
  ultimately show ?thesis
    using changes_wake_dependents [of ex_P ?s "[?p]" ?p ex_creds defaultTokenKey ex_S ex_scan_cluster
        "[ex_hourly_scan]" ex_hourly_scan ex_owners] by simp
qed

section \<open>Observability set-up\<close>

text \<open>
  \<open>StartPprof\<close>: the server it starts, if any; the listener's failure \<open>listen\<close>, other than that the
  server was closed, only surfaces in the shutdown function, after the outcome of \<open>srv.Shutdown\<close>.
\<close>

record pprof_server =
  pp_Addr :: string
  pp_Handlers :: "string list"
  pp_ReadHeaderTimeout :: int

definition StartPprof :: "string \<Rightarrow> pprof_server option res" where
  "StartPprof bindAddress =
     (if bindAddress = '''' then Inr None
      else Inr (Some \<lparr>pp_Addr = bindAddress,
        pp_Handlers = [''/debug/pprof/'', ''/debug/pprof/cmdline'', ''/debug/pprof/profile'',
          ''/debug/pprof/symbol'', ''/debug/pprof/trace''],
        pp_ReadHeaderTimeout = 5 * nanos_per_second\<rparr>))"

definition pprof_shutdown :: "pprof_server option \<Rightarrow> goerror option \<Rightarrow> goerror option \<Rightarrow> goerror option" where
  "pprof_shutdown srv shutdown listen =
     (case srv of
        None \<Rightarrow> None
      | Some s \<Rightarrow>
        (case shutdown of
           Some e \<Rightarrow> Some (wrapf ''pprof: shutdown: '' e)
         | None \<Rightarrow> map_option (\<lambda>e. wrapf (''pprof: ListenAndServe '' @ pp_Addr s @ '': '') e) listen))"

text \<open>
  \<open>InitTracer\<close>, given the endpoint variable and the outcomes of building the exporter and the
  resource: whether a provider was installed, and the error.
\<close>

definition InitTracer :: "string \<Rightarrow> goerror option \<Rightarrow> goerror option \<Rightarrow> bool \<times> goerror option" where
  "InitTracer endpoint exporter resource =
     (if endpoint = '''' then (False, None)
      else case exporter of
        Some e \<Rightarrow> (False, Some (wrapf ''otel: build OTLP gRPC exporter: '' e))
      | None \<Rightarrow>
        (case resource of
           Some e \<Rightarrow> (False, Some (wrapf ''otel: build resource: '' e))
         | None \<Rightarrow> (True, None)))"

text \<open>
  A context as \<open>LogrFromContext\<close> reads it: its logger, as the key-value pairs it adds to every line, and
  its span, as the identifiers it has, if it records. Without a logger the discarding one is used: \<open>None\<close>.
\<close>

record go_context =
  ctx_logger :: "(string \<times> string) list option"
  ctx_recordingSpan :: "(string \<times> string) option"

definition LogrFromContext :: "go_context \<Rightarrow> (string \<times> string) list option" where
  "LogrFromContext ctx =
     (case ctx_recordingSpan ctx of
        None \<Rightarrow> ctx_logger ctx
      | Some (traceID, spanID) \<Rightarrow>
          map_option (\<lambda>kvs. kvs @ [(''trace_id'', traceID), (''span_id'', spanID)]) (ctx_logger ctx))"

text \<open>The registered collectors, by name, and the one an update belongs to.\<close>

fun collector_name :: "metric \<Rightarrow> string" where
  "collector_name (RunsTotal scan plat result) = ''renovate_operator_runs_total''"
| "collector_name (DiscoveryErrorsTotal scan plat) = ''renovate_operator_discovery_errors_total''"
| "collector_name (ShardsFailedTotal scan plat n) = ''renovate_operator_shards_failed_total''"
| "collector_name (RunDurationSeconds scan plat d) = ''renovate_operator_run_duration_seconds''"
| "collector_name (DiscoveryDurationSeconds scan plat d) = ''renovate_operator_discovery_duration_seconds''"
| "collector_name (ActiveRuns scan plat n) = ''renovate_operator_active_runs''"
| "collector_name (ShardCount scan plat n) = ''renovate_run_shard_count''"

definition collectors :: "string list" where
  "collectors = [''renovate_operator_runs_total'', ''renovate_operator_discovery_errors_total'',
     ''renovate_operator_shards_failed_total'', ''renovate_operator_run_duration_seconds'',
     ''renovate_operator_discovery_duration_seconds'', ''renovate_operator_active_runs'', ''renovate_run_shard_count'']"

text \<open>Registration does not panic on a duplicate, and no update goes to an unregistered collector.\<close>

lemma collectors_registered: "distinct collectors" "collector_name m \<in> set collectors"
  by (simp add: collectors_def) (cases m; simp add: collectors_def)

section \<open>Start-up\<close>

record main_flags =
  fl_metricsAddr :: string
  fl_probeAddr :: string
  fl_leaderElect :: bool
  fl_secureMetrics :: bool
  fl_webhookCertPath :: string
  fl_webhookCertName :: string
  fl_webhookCertKey :: string
  fl_metricsCertPath :: string
  fl_metricsCertName :: string
  fl_metricsCertKey :: string
  fl_enableHTTP2 :: bool
  fl_operatorNamespace :: string
  fl_pprofBindAddress :: string

text \<open>The defaults; the operator namespace's is the value of \<open>POD_NAMESPACE\<close>.\<close>

definition default_flags :: "string \<Rightarrow> main_flags" where
  "default_flags podNamespace = \<lparr>fl_metricsAddr = ''0'', fl_probeAddr = '':8081'', fl_leaderElect = False,
     fl_secureMetrics = True, fl_webhookCertPath = '''', fl_webhookCertName = ''tls.crt'', fl_webhookCertKey = ''tls.key'',
     fl_metricsCertPath = '''', fl_metricsCertName = ''tls.crt'', fl_metricsCertKey = ''tls.key'',
     fl_enableHTTP2 = False, fl_operatorNamespace = podNamespace, fl_pprofBindAddress = ''''\<rparr>"

text \<open>A TLS option edits the protocols a server offers.\<close>

type_synonym tls_opt = "string list \<Rightarrow> string list"

definition disableHTTP2 :: tls_opt where
  "disableHTTP2 protos = [''http/1.1'']"

record server_options =
  so_BindAddress :: string
  so_SecureServing :: bool
  so_Filter :: bool
  so_TLSOpts :: "tls_opt list"
  so_CertDir :: string
  so_CertName :: string
  so_KeyName :: string

definition tlsOpts :: "main_flags \<Rightarrow> tls_opt list" where
  "tlsOpts f = (if \<not> fl_enableHTTP2 f then [disableHTTP2] else [])"

definition webhookServerOptions :: "main_flags \<Rightarrow> server_options" where
  "webhookServerOptions f =
     (let o0 = \<lparr>so_BindAddress = '''', so_SecureServing = False, so_Filter = False, so_TLSOpts = tlsOpts f,
                so_CertDir = '''', so_CertName = '''', so_KeyName = ''''\<rparr>
      in if fl_webhookCertPath f \<noteq> '''' then
           o0\<lparr>so_CertDir := fl_webhookCertPath f, so_CertName := fl_webhookCertName f, so_KeyName := fl_webhookCertKey f\<rparr>
         else o0)"

definition metricsServerOptions :: "main_flags \<Rightarrow> server_options" where
  "metricsServerOptions f =
     (let o0 = \<lparr>so_BindAddress = fl_metricsAddr f, so_SecureServing = fl_secureMetrics f, so_Filter = False,
                so_TLSOpts = tlsOpts f, so_CertDir = '''', so_CertName = '''', so_KeyName = ''''\<rparr>;
          o1 = (if fl_secureMetrics f then o0\<lparr>so_Filter := True\<rparr> else o0)
      in if fl_metricsCertPath f \<noteq> '''' then
           o1\<lparr>so_CertDir := fl_metricsCertPath f, so_CertName := fl_metricsCertName f, so_KeyName := fl_metricsCertKey f\<rparr>
         else o1)"

definition operatorNamespace :: "main_flags \<Rightarrow> string" where
  "operatorNamespace f = (if fl_operatorNamespace f = '''' then ''renovate-system'' else fl_operatorNamespace f)"

text \<open>
  What \<open>main\<close> does, in order, as events; the outcomes of the calls it makes are the fields of
  \<open>boot_env\<close>; \<open>ctrl.GetConfigOrDie\<close> is the first of them, and exits like \<open>main\<close> itself. \<open>os.Exit(1)\<close> ends the process at once, without the deferred shutdowns; a failing
  tracer is only logged.
\<close>

record boot_env =
  be_GetConfig :: "goerror option"
  be_NewManager :: "goerror option"
  be_OTLPEndpoint :: string
  be_Exporter :: "goerror option"
  be_Resource :: "goerror option"
  be_SetupPlatform :: "goerror option"
  be_SetupScan :: "goerror option"
  be_SetupRun :: "goerror option"
  be_AddHealthz :: "goerror option"
  be_AddReadyz :: "goerror option"
  be_Start :: "goerror option"

datatype boot_event =
    ManagerCreated (mgr_metrics: server_options) (mgr_webhook: server_options) (mgr_probe: string)
      (mgr_leaderElection: bool) (mgr_leaderElectionID: string)
  | MetricsRegistered
  | TracerReady
  | PprofReady "pprof_server option"
  | PlatformController string
  | ScanController
  | RunController string
  | CheckAdded string
  | ManagerStopped
  | PprofShutdown
  | TracerShutdown
  | Exit nat

text \<open>The fatal steps: each is an outcome and the event it leaves when it succeeds.\<close>

fun boot_run :: "(goerror option \<times> boot_event list) list \<Rightarrow> boot_event list" where
  "boot_run [] = []"
| "boot_run ((outcome, evs) # steps) = (case outcome of Some e \<Rightarrow> [Exit 1] | None \<Rightarrow> evs @ boot_run steps)"

definition main_events :: "boot_env \<Rightarrow> main_flags \<Rightarrow> boot_event list" where
  "main_events env f = boot_run
     [(be_GetConfig env, []),
      (be_NewManager env, [ManagerCreated (metricsServerOptions f) (webhookServerOptions f) (fl_probeAddr f)
          (fl_leaderElect f) ''63451375.fartlab.dev'', MetricsRegistered] @
         (if snd (InitTracer (be_OTLPEndpoint env) (be_Exporter env) (be_Resource env)) = None then [TracerReady] else [])),
      (case StartPprof (fl_pprofBindAddress f) of Inl e \<Rightarrow> Some e | Inr srv \<Rightarrow> None,
         case StartPprof (fl_pprofBindAddress f) of Inl e \<Rightarrow> [] | Inr srv \<Rightarrow> [PprofReady srv]),
      (be_SetupPlatform env, [PlatformController (operatorNamespace f)]),
      (be_SetupScan env, [ScanController]),
      (be_SetupRun env, [RunController (operatorNamespace f)]),
      (be_AddHealthz env, [CheckAdded ''healthz'']),
      (be_AddReadyz env, [CheckAdded ''readyz'']),
      (be_Start env, [ManagerStopped, PprofShutdown, TracerShutdown])]"

text \<open>The protocols a server offers under its options, from the library's defaults.\<close>

definition offered :: "server_options \<Rightarrow> string list \<Rightarrow> string list" where
  "offered opts protos = fold (\<lambda>opt ps. opt ps) (so_TLSOpts opts) protos"

text \<open>
  C33. Start-up. The manager runs to its end exactly when the cluster's configuration was found, it could be created, all three controllers and
  both health checks could be registered and it did not fail itself; a failing tracer never
  prevents that. By then the metrics are registered, the Platform and the Run controller work with
  the same namespace, which is never empty, and, unless HTTP/2 was asked for, both servers offer
  only HTTP/1.1; a metrics endpoint served over TLS checks its callers.
\<close>

theorem startup_spec:
  "(ManagerStopped \<in> set (main_events env f) \<longleftrightarrow>
      be_GetConfig env = None \<and> be_NewManager env = None \<and> be_SetupPlatform env = None \<and> be_SetupScan env = None \<and> be_SetupRun env = None \<and>
      be_AddHealthz env = None \<and> be_AddReadyz env = None \<and> be_Start env = None) \<and>
   (ManagerStopped \<in> set (main_events env f) \<longrightarrow>
      (\<exists>ns. filter (\<lambda>e. e \<in> {MetricsRegistered, PlatformController ns, ScanController, RunController ns, ManagerStopped})
          (main_events env f) =
        [MetricsRegistered, PlatformController ns, ScanController, RunController ns, ManagerStopped] \<and> ns \<noteq> '''')) \<and>
   (if fl_enableHTTP2 f then True
    else offered (metricsServerOptions f) protos = [''http/1.1''] \<and> offered (webhookServerOptions f) protos = [''http/1.1'']) \<and>
   (so_SecureServing (metricsServerOptions f) \<longleftrightarrow> so_Filter (metricsServerOptions f))"
proof (intro conjI)
  show stop: "ManagerStopped \<in> set (main_events env f) \<longleftrightarrow>
      be_GetConfig env = None \<and> be_NewManager env = None \<and> be_SetupPlatform env = None \<and> be_SetupScan env = None \<and> be_SetupRun env = None \<and>
      be_AddHealthz env = None \<and> be_AddReadyz env = None \<and> be_Start env = None"
    by (simp add: main_events_def StartPprof_def split: option.split)
  show "ManagerStopped \<in> set (main_events env f) \<longrightarrow>
      (\<exists>ns. filter (\<lambda>e. e \<in> {MetricsRegistered, PlatformController ns, ScanController, RunController ns, ManagerStopped})
          (main_events env f) =
        [MetricsRegistered, PlatformController ns, ScanController, RunController ns, ManagerStopped] \<and> ns \<noteq> '''')"
    unfolding stop
    by (intro impI exI [of _ "operatorNamespace f"]) (simp add: main_events_def StartPprof_def operatorNamespace_def)
  show "if fl_enableHTTP2 f then True
    else offered (metricsServerOptions f) protos = [''http/1.1''] \<and> offered (webhookServerOptions f) protos = [''http/1.1'']"
    by (simp add: offered_def metricsServerOptions_def webhookServerOptions_def tlsOpts_def disableHTTP2_def Let_def)
  show "so_SecureServing (metricsServerOptions f) \<longleftrightarrow> so_Filter (metricsServerOptions f)"
    by (simp add: metricsServerOptions_def Let_def)
qed

definition calm :: boot_env where
  "calm = \<lparr>be_GetConfig = None, be_NewManager = None, be_OTLPEndpoint = ''collector:4317'', be_Exporter = Some (errors_New ''unreachable''),
     be_Resource = None, be_SetupPlatform = None,
     be_SetupScan = None, be_SetupRun = None, be_AddHealthz = None, be_AddReadyz = None, be_Start = None\<rparr>"

theorem startup_spec_witness:
  "ManagerStopped \<in> set (main_events calm (default_flags ''ops'')) \<and>
   offered (metricsServerOptions (default_flags ''ops'')) [''h2''] = [''http/1.1'']"
  using startup_spec [of calm "default_flags ''ops''" "[''h2'']"] by (simp add: calm_def default_flags_def)

end
