(* ===== verification/System.thy ===== *)
theory System
  imports Wiring
begin

text \<open>
  The three controllers on one API server, and what their steps do to the Runs it stores. A step of the system is one
  reconcile or one change from outside. What a client reads and what is stored are two views of the cluster, since the client that the manager
  hands to the controllers answers reads from a cache. Here the step relation is defined and the steps of a client whose reads are current,
  where the two views agree, are classified; the properties of all executions are proved for cached reads, in \<open>ScanLock\<close>.
\<close>

section \<open>The Runs an API server stores\<close>

type_synonym run_view = "string \<times> string \<Rightarrow> RenovateRun option"

abbreviation run_key :: "RenovateRun \<Rightarrow> string \<times> string" where
  "run_key run \<equiv> (run_namespace run, run_name run)"

text \<open>
  What the API server and its clients document of the Runs, seen through the view \<open>rv\<close> that reads are answered from and the view \<open>view\<close> of what is
  stored: an object is read under
  its namespace and name; reading and listing give what \<open>rv\<close> shows; a creation that succeeds stores the object
  under a name not in use, with the namespace, owners, specification and (empty) status sent; deletion removes that object
  or fails; a status update replaces the stored object by one that differs from it in its status
  only, or fails, and fails with a conflict when the version it was read in is not the one stored, which is the optimistic
  concurrency of the API; a creation leaves the reads as they are or makes them current; and operations on other resources do not touch Runs.
\<close>

definition reads_runs :: "'s kclient \<Rightarrow> ('s \<Rightarrow> run_view) \<Rightarrow> bool" where
  "reads_runs K view =
     ((\<forall>s k run. view s k = Some run \<longrightarrow> run_key run = k) \<and>
      (\<forall>s ns name run. Get_Run K ns name s = Inr run \<longrightarrow> view s (ns, name) = Some run) \<and>
      (\<forall>s ns runs. List_Runs K ns s = Inr runs \<longrightarrow> set runs = {run. run_namespace run = ns \<and> view s (run_key run) = Some run}))"

definition writes_runs :: "'s kclient \<Rightarrow> ('s \<Rightarrow> run_view) \<Rightarrow> bool" where
  "writes_runs K view =
     ((\<forall>run s e s'. Create_Run K run s = (Inl e, s') \<longrightarrow> view s' = view s) \<and>
      (\<forall>run s run' s'. Create_Run K run s = (Inr run', s') \<longrightarrow>
         view s (run_key run') = None \<and> view s' = (view s)(run_key run' \<mapsto> run') \<and>
         run_namespace run' = run_namespace run \<and> run_spec run' = run_spec run \<and> run_status run' = run_status run \<and>
         m_ownerReferences (run_meta run') = m_ownerReferences (run_meta run)) \<and>
      (\<forall>run s e s'. Delete_Run K run s = (e, s') \<longrightarrow> view s' = view s \<or> view s' = (view s)(run_key run := None)) \<and>
      (\<forall>run s cur e s'. view s (run_key run) = Some cur \<longrightarrow> same_object cur run \<longrightarrow> StatusUpdate_Run K run s = (e, s') \<longrightarrow>
         (e = None \<longrightarrow> view s' = (view s)(run_key run \<mapsto> run)) \<and>
         (view s' = view s \<or> view s' = (view s)(run_key run \<mapsto> run))))"

definition writes_versioned :: "'s kclient \<Rightarrow> ('s \<Rightarrow> run_view) \<Rightarrow> ('s \<Rightarrow> run_view) \<Rightarrow> bool" where
  "writes_versioned K rv view =
     (\<forall>run s e s'. rv s (run_key run) \<noteq> view s (run_key run) \<longrightarrow> StatusUpdate_Run K run s = (e, s') \<longrightarrow> view s' = view s)"

definition spares_runs :: "'s kclient \<Rightarrow> ('s \<Rightarrow> 'v) \<Rightarrow> bool" where
  "spares_runs K view =
     (keeps view (Create_Secret K) \<and> keeps view (Update_Secret K) \<and> keeps view (Create_ConfigMap K) \<and>
      keeps view (Create_Job K) \<and> keeps view (StatusUpdate_Platform K) \<and> keeps view (StatusUpdate_Scan K))"

definition run_store :: "'s kclient \<Rightarrow> ('s \<Rightarrow> run_view) \<Rightarrow> bool" where
  "run_store K view = (reads_runs K view \<and> writes_runs K view \<and> spares_runs K view)"

definition shows_created :: "'s kclient \<Rightarrow> ('s \<Rightarrow> run_view) \<Rightarrow> ('s \<Rightarrow> run_view) \<Rightarrow> bool" where
  "shows_created K rv view = (\<forall>run s r s'. Create_Run K run s = (r, s') \<longrightarrow> rv s' = rv s \<or> rv s' = view s')"

definition cached_store :: "'s kclient \<Rightarrow> ('s \<Rightarrow> run_view) \<Rightarrow> ('s \<Rightarrow> run_view) \<Rightarrow> bool" where
  "cached_store K rv view = (reads_runs K rv \<and> writes_runs K view \<and> writes_versioned K rv view \<and>
     shows_created K rv view \<and> spares_runs K rv \<and> spares_runs K view)"

text \<open>With current reads the two views are one.\<close>

lemma run_store_current: "run_store K view \<Longrightarrow> cached_store K view view"
  by (simp add: run_store_def cached_store_def writes_versioned_def shows_created_def)

lemma spares_runsD:
  assumes "spares_runs K view"
  shows "on_cluster (Create_Secret K sec) w = (r1, w') \<Longrightarrow> view (w_cluster w') = view (w_cluster w)"
    and "on_cluster (Update_Secret K sec) w = (r2, w') \<Longrightarrow> view (w_cluster w') = view (w_cluster w)"
    and "on_cluster (Create_ConfigMap K cm) w = (r3, w') \<Longrightarrow> view (w_cluster w') = view (w_cluster w)"
    and "on_cluster (Create_Job K job) w = (r4, w') \<Longrightarrow> view (w_cluster w') = view (w_cluster w)"
    and "on_cluster (StatusUpdate_Platform K p) w = (r5, w') \<Longrightarrow> view (w_cluster w') = view (w_cluster w)"
    and "on_cluster (StatusUpdate_Scan K scan) w = (r6, w') \<Longrightarrow> view (w_cluster w') = view (w_cluster w)"
  using assms unfolding spares_runs_def by (blast dest: keepsD)+

section \<open>The Run controller's step\<close>

text \<open>Until its status update the Run controller leaves the stored Runs alone.\<close>

abbreviation same_view :: "('s \<Rightarrow> 'v) \<Rightarrow> ('s, 'n) world \<Rightarrow> ('s, 'n) world \<Rightarrow> bool" where
  "same_view view w w' \<equiv> view (w_cluster w') = view (w_cluster w)"

lemma runs_spared:
  assumes "spares_runs (rn_Client R) view"
  shows "mirrorCredential R run tok w = (m, w') \<Longrightarrow> same_view view w w'"
    and "ensureShardConfigMap R run repos w = (c, w') \<Longrightarrow> same_view view w w'"
    and "ensureWorkerJob R run mirrored cm k w = (j, w') \<Longrightarrow> same_view view w w'"
  by (auto simp: mirrorCredential_def ensureShardConfigMap_def ensureWorkerJob_def Let_def
      split: sum.splits if_splits prod.splits dest: spares_runsD [OF assms])

lemma dispatchRun_runs:
  assumes "spares_runs (rn_Client R) view" and "dispatchRun R mirrored repos run w = (oc, run', w')"
  shows "same_view view w w'"
  using assms(2)
  by (auto simp: dispatchRun_def Let_def split: if_splits prod.splits sum.splits
      dest!: step_clusters runs_spared [OF assms(1)])

lemma discoverAndDispatch_runs:
  assumes "spares_runs (rn_Client R) view" and "discoverAndDispatch R run w = Some (oc, run', w')"
  shows "same_view view w w'"
  using assms(2)
  by (auto simp: discoverAndDispatch_def read_clock_def Let_def split: if_splits prod.splits sum.splits option.splits
      dest!: step_clusters runs_spared(1) [OF assms(1)] dispatchRun_runs [OF assms(1)])

lemma run_reconcile_runs:
  assumes "spares_runs (rn_Client R) view" and "run_reconcile R run w = Some (oc, run', w')"
  shows "same_view view w w'"
  using assms(2)
  by (auto simp: run_reconcile_eq split: RunPhase.splits if_splits
      dest: step_clusters discoverAndDispatch_runs [OF assms(1)])

section \<open>What a step does to the stored Runs\<close>

text \<open>
  Pruning removes only ended Runs that the Scan owns. Firing stores one new Run, owned by the Scan
  alone, with the Scan's specification frozen in it; unless the policy is Allow, no Run the Scan owns
  was active before.
\<close>

definition owned_by :: "string \<Rightarrow> RenovateRun \<Rightarrow> bool" where
  "owned_by u run = list_ex (\<lambda>ow. ow_uid ow = u) (m_ownerReferences (run_meta run))"

definition prunes :: "RenovateScan \<Rightarrow> run_view \<Rightarrow> run_view \<Rightarrow> bool" where
  "prunes scan v v' = (\<forall>k. v' k = v k \<or>
     v' k = None \<and> (\<exists>run. v k = Some run \<and> ownedByScan run scan \<and> isTerminal (run_phase run)))"

text \<open>A Run starts; and no Run of the Scan is active in a view.\<close>

definition starts :: "RenovateScan \<Rightarrow> RenovateRun \<Rightarrow> run_view \<Rightarrow> run_view \<Rightarrow> bool" where
  "starts scan run v v' =
     (v (run_key run) = None \<and> v' = v(run_key run \<mapsto> run) \<and> new_run run \<and>
      run_namespace run = m_namespace (scan_meta scan) \<and> rs_scanSnapshot (run_spec run) = scan_spec scan \<and>
      (\<forall>u. owned_by u run \<longleftrightarrow> u = m_uid (scan_meta scan)))"

definition idle :: "RenovateScan \<Rightarrow> run_view \<Rightarrow> bool" where
  "idle scan v = (\<nexists>old. v (run_key old) = Some old \<and> run_namespace old = m_namespace (scan_meta scan) \<and>
     ownedByScan old scan \<and> \<not> isTerminal (run_phase old))"

definition fires :: "RenovateScan \<Rightarrow> RenovateRun \<Rightarrow> run_view \<Rightarrow> run_view \<Rightarrow> bool" where
  "fires scan run v v' =
     (starts scan run v v' \<and> (ss_concurrencyPolicy (scan_spec scan) = AllowConcurrent \<or> idle scan v))"

inductive runs_step :: "meta_api \<Rightarrow> (RenovateScan \<Rightarrow> bool) \<Rightarrow> run_view \<Rightarrow> run_view \<Rightarrow> bool" for M stored where
  stay: "runs_step M stored v v"
| advance: "v k = Some run \<Longrightarrow> same_object run run' \<Longrightarrow> phase_edge (run_phase run) (run_phase run') \<Longrightarrow>
    run_wf M run' \<Longrightarrow> runs_step M stored v (v(k \<mapsto> run'))"
| fire: "stored scan \<Longrightarrow> fires scan run v v1 \<Longrightarrow> prunes scan v1 v' \<Longrightarrow> runs_step M stored v v'"

inductive_cases runs_stepE: "runs_step M stored v v'"

lemma prunes_refl [simp, intro]: "prunes scan v v"
  by (simp add: prunes_def)

lemma prunes_trans: "prunes scan v v1 \<Longrightarrow> prunes scan v1 v2 \<Longrightarrow> prunes scan v v2"
  unfolding prunes_def by metis

lemma prunes_None: "prunes scan v v' \<Longrightarrow> v k = None \<Longrightarrow> v' k = None"
  unfolding prunes_def by (metis option.distinct(1))

lemma prunes_stored: "prunes scan v v' \<Longrightarrow> v k = Some run \<Longrightarrow> v' k \<in> {None, Some run}"
  unfolding prunes_def by (metis insertCI)

lemma prunes_delete:
  assumes "v (run_key run) \<in> {None, Some run}" and "ownedByScan run scan" and "isTerminal (run_phase run)"
  shows "prunes scan v (v(run_key run := None))"
  unfolding prunes_def
proof (rule allI)
  fix k
  show "(v(run_key run := None)) k = v k \<or> (v(run_key run := None)) k = None \<and>
      (\<exists>run. v k = Some run \<and> ownedByScan run scan \<and> isTerminal (run_phase run))"
    using assms by (cases "k = run_key run") auto
qed

text \<open>Deletion of ended Runs read from a list, one after the other.\<close>

lemma deleteRuns_prunes:
  assumes "writes_runs K view" and "deleteRuns K runs s = (e, s')"
    and "\<And>run. run \<in> set runs \<Longrightarrow> view s (run_key run) \<in> {None, Some run} \<and> ownedByScan run scan \<and> isTerminal (run_phase run)"
  shows "prunes scan (view s) (view s')"
  using assms(2,3)
proof (induction runs arbitrary: s)
  case Nil
  then show ?case by simp
next
  case (Cons run runs)
  obtain d s1 where d: "Delete_Run K run s = (d, s1)" by fastforce
  have v: "view s1 = view s \<or> view s1 = (view s)(run_key run := None)"
    using assms(1) d unfolding writes_runs_def by blast
  then have p: "prunes scan (view s) (view s1)"
    using Cons.prems(2) [of run] prunes_delete [of "view s" run scan] by auto
  have rest: "view s1 (run_key r) \<in> {None, Some r} \<and> ownedByScan r scan \<and> isTerminal (run_phase r)"
    if "r \<in> set runs" for r
    using prunes_stored [OF p, of "run_key r"] prunes_None [OF p, of "run_key r"] Cons.prems(2) [of r] that by auto
  from Cons.prems(1) d consider "s' = s1" | "deleteRuns K runs s1 = (e, s')"
    by (auto split: option.splits if_splits)
  then show ?case
  proof cases
    case 1
    with p show ?thesis by simp
  next
    case 2
    from Cons.IH [OF this rest] p show ?thesis by (blast intro: prunes_trans)
  qed
qed

lemma deleteOldest_prunes:
  assumes "writes_runs (sc_Client S) view" and "sort_law S" and "deleteOldest S runs keep s = (e, s')"
    and "\<And>run. run \<in> set runs \<Longrightarrow> view s (run_key run) \<in> {None, Some run} \<and> ownedByScan run scan \<and> isTerminal (run_phase run)"
  shows "prunes scan (view s) (view s')"
proof -
  have "set (sc_sortSlice S moreRecent runs) = set runs"
    using assms(2) by (metis sort_law_def set_mset_mset)
  then have "set (drop n (sc_sortSlice S moreRecent runs)) \<subseteq> set runs" for n
    using set_drop_subset [of n "sc_sortSlice S moreRecent runs"] by simp
  then have old: "run \<in> set (drop n (sc_sortSlice S moreRecent runs)) \<Longrightarrow> run \<in> set runs" for run n by blast
  from assms(3) consider "s' = s"
    | "deleteRuns (sc_Client S) (drop (nat keep) (sc_sortSlice S moreRecent runs)) s = (e, s')"
    by (auto simp: deleteOldest_def split: if_splits)
  then show ?thesis
  proof cases
    case 2
    then show ?thesis by (rule deleteRuns_prunes [OF assms(1)]) (rule assms(4) [OF old])
  qed simp
qed

lemma gcOldRuns_prunes_listed:
  assumes "writes_runs (sc_Client S) view" and "sort_law S" and "gcOldRuns S scan s = (e, s')"
    and "\<And>runs run. List_Runs (sc_Client S) (m_namespace (scan_meta scan)) s = Inr runs \<Longrightarrow> run \<in> set runs \<Longrightarrow>
      view s (run_key run) = Some run"
  shows "prunes scan (view s) (view s')"
proof (cases "List_Runs (sc_Client S) (m_namespace (scan_meta scan)) s")
  case (Inl a)
  with assms(3) show ?thesis by (auto simp: gcOldRuns_def)
next
  case (Inr runs)
  then have stored: "view s (run_key run) = Some run" if "run \<in> set runs" for run
    using assms(4) that by blast
  let ?ended = "\<lambda>p. filter (\<lambda>run. run_phase run = p) (filter (\<lambda>run. ownedByScan run scan) runs)"
  obtain l1 l2 e1 s1 where d1: "deleteOldest S (?ended RunPhaseSucceeded) l1 s = (e1, s1)"
    and d2: "(e1 \<noteq> None \<and> s' = s1) \<or> deleteOldest S (?ended RunPhaseFailed) l2 s1 = (e, s')"
    using assms(3) Inr by (auto simp: gcOldRuns_def Let_def split: prod.splits option.splits)
  have p1: "prunes scan (view s) (view s1)"
    by (rule deleteOldest_prunes [OF assms(1,2) d1]) (auto simp: stored isTerminal_def)
  have "prunes scan (view s1) (view s2)" if "deleteOldest S (?ended RunPhaseFailed) l2 s1 = (e, s2)" for s2
  proof (rule deleteOldest_prunes [OF assms(1,2) that])
    fix run assume "run \<in> set (?ended RunPhaseFailed)"
    moreover from this have "view s1 (run_key run) \<in> {None, Some run}"
      using prunes_stored [OF p1] stored [of run] by simp
    ultimately show "view s1 (run_key run) \<in> {None, Some run} \<and> ownedByScan run scan \<and> isTerminal (run_phase run)"
      by (auto simp: isTerminal_def)
  qed
  with p1 d2 show ?thesis by (blast intro: prunes_trans)
qed

lemma gcOldRuns_prunes:
  assumes "run_store (sc_Client S) view" and "sort_law S" and "gcOldRuns S scan s = (e, s')"
  shows "prunes scan (view s) (view s')"
proof (rule gcOldRuns_prunes_listed [OF _ assms(2,3)])
  show "writes_runs (sc_Client S) view" using assms(1) by (simp add: run_store_def)
  fix runs run assume "List_Runs (sc_Client S) (m_namespace (scan_meta scan)) s = Inr runs" and "run \<in> set runs"
  then show "view s (run_key run) = Some run" using assms(1) unfolding run_store_def reads_runs_def by blast
qed

lemma newRun_facts:
  "new_run (newRun S scan platform fire)" "run_namespace (newRun S scan platform fire) = m_namespace (scan_meta scan)"
  "rs_scanSnapshot (run_spec (newRun S scan platform fire)) = scan_spec scan"
  "owned_by u (newRun S scan platform fire) \<longleftrightarrow> u = m_uid (scan_meta scan)"
  by (auto simp: new_run_def newRun_def fresh_status_def owned_by_def)

lemma created_starts:
  assumes "writes_runs K view" and "Create_Run K (newRun S scan platform fire) s = (Inr run, s1)"
  shows "starts scan run (view s) (view s1)"
proof -
  let ?new = "newRun S scan platform fire"
  have "view s (run_key run) = None" "view s1 = (view s)(run_key run \<mapsto> run)" "run_namespace run = run_namespace ?new"
    "run_spec run = run_spec ?new" "run_status run = run_status ?new"
    "m_ownerReferences (run_meta run) = m_ownerReferences (run_meta ?new)"
    using assms unfolding writes_runs_def by blast+
  then show ?thesis
    by (simp add: starts_def new_run_def owned_by_def newRun_facts [unfolded new_run_def owned_by_def])
qed

lemma created_fires:
  assumes "writes_runs K view" and "Create_Run K (newRun S scan platform fire) s = (Inr run, s1)"
    and "ss_concurrencyPolicy (scan_spec scan) = AllowConcurrent \<or> idle scan (view s)"
  shows "fires scan run (view s) (view s1)"
  using created_starts [OF assms(1,2)] assms(3) by (simp add: fires_def)

lemma fireScan_runs:
  assumes "writes_runs (sc_Client S) view" and "fireScan S platform now missed nextFire scan w = (oc, scan', w')"
  shows "same_view view w w' \<or> (\<not> shouldSkipForConcurrency scan \<and> (\<exists>run s1 ge.
      Create_Run (sc_Client S) (newRun S scan platform missed) (w_cluster w) = (Inr run, s1) \<and>
      gcOldRuns S scan s1 = (ge, w_cluster w')))"
proof (cases "IsZero missed \<or> shouldSkipForConcurrency scan")
  case True
  with fireScan_idle [OF True, of S platform now nextFire w] assms(2) show ?thesis by auto
next
  case False
  obtain cr s1 where c: "Create_Run (sc_Client S) (newRun S scan platform missed) (w_cluster w) = (cr, s1)" by fastforce
  show ?thesis
  proof (cases cr)
    case (Inl e)
    then have "view s1 = view (w_cluster w)" using assms(1) c by (auto simp: writes_runs_def)
    with False Inl c assms(2) show ?thesis by (auto simp: fireScan_def createRun_def on_cluster_def Let_def)
  next
    case (Inr run)
    obtain ge s2 where g: "gcOldRuns S scan s1 = (ge, s2)" by fastforce
    have g': "gcOldRuns S (scan\<lparr>scan_status := st\<rparr>) s1 = (ge, s2)" for st
      using g by (simp add: gcOldRuns_scan_cong [of "scan\<lparr>scan_status := st\<rparr>" scan])
    have "w_cluster w' = s2"
      using False Inr c assms(2)
      by (auto simp: fireScan_def createRun_def on_cluster_def Let_def g' scan_mark_def read_clock_def split: option.splits)
    with g False Inr c show ?thesis by auto
  qed
qed

text \<open>A Scan starts a Run only when it reads no active one, or its policy is Allow; then it prunes.\<close>

lemma scan_reconcile_starts:
  assumes "reads_runs (sc_Client S) rv" and "writes_runs (sc_Client S) view"
    and "scan_reconcile S scan w = Some (oc, scan', w')"
  shows "same_view view w w' \<or>
    (\<exists>run s1 ge. starts scan run (view (w_cluster w)) (view s1) \<and>
      (ss_concurrencyPolicy (scan_spec scan) = AllowConcurrent \<or> idle scan (rv (w_cluster w))) \<and>
      (\<exists>new. Create_Run (sc_Client S) new (w_cluster w) = (Inr run, s1)) \<and> gcOldRuns S scan s1 = (ge, w_cluster w'))"
proof (cases "\<exists>platform loc sched scan1. scan_passes S scan (w_cluster w) platform loc sched scan1")
  case False
  with scan_reconcile_stops [of S scan w] assms(3) show ?thesis by fastforce
next
  case True
  then obtain platform loc sched scan1 where ps: "scan_passes S scan (w_cluster w) platform loc sched scan1" by blast
  then obtain missed nextFire w2 where
    fs: "fireScan S platform (scan_now S w) missed nextFire (scan_readied S (Suc (w_ticks w)) nextFire scan1) w2
      = (oc, scan', w')" and w2: "w_cluster w2 = w_cluster w"
    using assms(3) by (rule scan_reconcile_fired)
  let ?scan2 = "scan_readied S (Suc (w_ticks w)) nextFire scan1"
  have rf: "refreshActiveRuns S (scan_observed scan) (w_cluster w) = Inr scan1" using ps by (simp add: scan_passes_def)
  note fr = refreshActiveRuns_frame [OF rf]
  have same: "scan_meta ?scan2 = scan_meta scan" "scan_spec ?scan2 = scan_spec scan" using fr(1,2) by simp_all
  from fr(4) obtain runs where l: "List_Runs (sc_Client S) (m_namespace (scan_meta scan)) (w_cluster w) = Inr runs" by auto
  have act: "sst_activeRuns (scan_status scan1) =
      map runRef (filter (\<lambda>run. ownedByScan run (scan_observed scan) \<and> \<not> isTerminal (run_phase run)) runs)"
    using refreshActiveRuns_status(1) [OF _ rf] l by simp
  have listed: "r \<in> set runs" if "rv (w_cluster w) (run_key r) = Some r" "run_namespace r = m_namespace (scan_meta scan)" for r
    using assms(1) l that unfolding reads_runs_def by blast
  from fireScan_runs [OF assms(2) fs] show ?thesis
  proof (elim disjE conjE exE)
    assume "same_view view w2 w'"
    with w2 show ?thesis by simp
  next
    fix run s1 ge
    assume skip: "\<not> shouldSkipForConcurrency ?scan2"
      and c: "Create_Run (sc_Client S) (newRun S ?scan2 platform missed) (w_cluster w2) = (Inr run, s1)"
      and g: "gcOldRuns S ?scan2 s1 = (ge, w_cluster w')"
    have "ss_concurrencyPolicy (scan_spec scan) = AllowConcurrent \<or> idle scan (rv (w_cluster w))"
      using skip act fr(2) listed by (auto simp: shouldSkip_active ownedByScan_def filter_empty_conv idle_def)
    moreover have cr: "Create_Run (sc_Client S) (newRun S scan platform missed) (w_cluster w) = (Inr run, s1)"
      using c w2 newRun_scan_cong [OF same, of S platform missed] by simp
    moreover from created_starts [OF assms(2) cr] have "starts scan run (view (w_cluster w)) (view s1)" .
    moreover have "gcOldRuns S scan s1 = (ge, w_cluster w')" using g by (simp only: gcOldRuns_scan_cong [OF same])
    ultimately show ?thesis by blast
  qed
qed

lemma scan_reconcile_runs:
  assumes "run_store (sc_Client S) view" and "sort_law S" and "scan_reconcile S scan w = Some (oc, scan', w')"
  shows "same_view view w w' \<or>
    (\<exists>run v1. fires scan run (view (w_cluster w)) v1 \<and> prunes scan v1 (view (w_cluster w')))"
proof -
  have "reads_runs (sc_Client S) view" "writes_runs (sc_Client S) view" using assms(1) by (simp_all add: run_store_def)
  from scan_reconcile_starts [OF this assms(3)] show ?thesis
    using gcOldRuns_prunes [OF assms(1,2)] unfolding fires_def by metis
qed

section \<open>The system\<close>

text \<open>
  The operator: its three reconcilers, which share one client. A step is one \<open>Reconcile\<close> of one of
  them, for any object; or a change from outside, which may do anything but create or edit Runs: users
  edit Scans, Platforms and Secrets and delete Runs, Jobs progress, the clock and the forge move on.
\<close>

record ('s, 'n) operator =
  op_run :: "('s, 'n) RenovateRunReconciler"
  op_scan :: "'s RenovateScanReconciler"
  op_platform :: "'s RenovatePlatformReconciler"

inductive controller_step :: "('s, 'n) operator \<Rightarrow> ('s, 'n) world \<Rightarrow> ('s, 'n) world \<Rightarrow> bool" for Q where
  run_step: "run_Reconcile (op_run Q) ns name w = Some (oc, w') \<Longrightarrow> controller_step Q w w'"
| scan_step: "scan_Reconcile (op_scan Q) ns name w = Some (oc, w') \<Longrightarrow> controller_step Q w w'"
| platform_step: "platform_Reconcile (op_platform Q) name w = Some (oc, w') \<Longrightarrow> controller_step Q w w'"

inductive system_step :: "('s, 'n) operator \<Rightarrow> ('s \<Rightarrow> run_view) \<Rightarrow> ('s, 'n) world \<Rightarrow> ('s, 'n) world \<Rightarrow> bool"
  for Q view where
  controller: "controller_step Q w w' \<Longrightarrow> system_step Q view w w'"
| outside: "view (w_cluster w') \<subseteq>\<^sub>m view (w_cluster w) \<Longrightarrow> system_step Q view w w'"

inductive_cases controller_stepE: "controller_step Q w w'"
inductive_cases system_stepE: "system_step Q view w w'"

definition operator_ok :: "('s, 'n) operator \<Rightarrow> ('s \<Rightarrow> run_view) \<Rightarrow> bool" where
  "operator_ok Q view =
     (sc_Client (op_scan Q) = rn_Client (op_run Q) \<and> pl_Client (op_platform Q) = rn_Client (op_run Q) \<and>
      run_store (rn_Client (op_run Q)) view \<and> sort_law (op_scan Q) \<and> sound_libs (op_run Q))"

abbreviation op_meta :: "('s, 'n) operator \<Rightarrow> meta_api" where
  "op_meta Q \<equiv> rn_meta (op_run Q)"

definition runs_wf :: "meta_api \<Rightarrow> run_view \<Rightarrow> bool" where
  "runs_wf M v = (\<forall>k run. v k = Some run \<longrightarrow> run_wf M run)"

lemma runs_wfD: "runs_wf M v \<Longrightarrow> v k = Some run \<Longrightarrow> run_wf M run"
  unfolding runs_wf_def by blast

definition stored_scan :: "('s, 'n) operator \<Rightarrow> ('s, 'n) world \<Rightarrow> RenovateScan \<Rightarrow> bool" where
  "stored_scan Q w scan = (\<exists>ns name. Get_Scan (sc_Client (op_scan Q)) ns name (w_cluster w) = Inr scan)"

text \<open>What a reconcile of the Run controller does to the stored Runs, whatever its reads show.\<close>

definition advances :: "meta_api \<Rightarrow> run_view \<Rightarrow> run_view \<Rightarrow> bool" where
  "advances M v v' = (v' = v \<or> (\<exists>k run run'. v k = Some run \<and> same_object run run' \<and>
     phase_edge (run_phase run) (run_phase run') \<and> run_wf M run' \<and> v' = v(k \<mapsto> run')))"

lemma advances_step: "advances M v v' \<Longrightarrow> runs_step M stored v v'"
  unfolding advances_def by (auto intro: stay advance)

lemma run_reconcile_same:
  assumes "run_reconcile R run w = Some (oc, run', w')"
  shows "same_object run run'"
proof -
  have "same_object r r'" if "discoverAndDispatch R r w = Some (oc, r', w')" for r r'
  proof -
    obtain r1 w1 where adm: "admitRun R r w = (r1, w1)" by fastforce
    have "same_object r1 r'" using that adm
      by (auto simp: discoverAndDispatch_def read_clock_def Let_def handleDiscoverErr_def
          split: if_splits prod.splits sum.splits option.splits
          dest: dispatchRun_same markFailed_run(1) markTransient_run(1))
    with admitRun_run(1) [OF adm] show ?thesis by (simp add: same_object_def)
  qed
  moreover have "same_object r r'" if "observeJob R r w = (oc, r', w')" for r r'
    using that by (auto simp: observeJob_def run_mark_eq read_clock_def same_object_def Let_def
        split: option.splits sum.splits if_splits prod.splits dest: markFailed_run(1))
  ultimately have "same_object (observed run) run'"
    using assms by (auto simp: run_reconcile_eq same_object_def split: RunPhase.splits)
  then show ?thesis by (simp add: same_object_def)
qed

lemma run_Reconcile_advances:
  assumes "cached_store (rn_Client R) rv view" and "sound_libs R" and "runs_wf (rn_meta R) (view (w_cluster w))"
    and "run_Reconcile R ns name w = Some (oc, w')"
  shows "advances (rn_meta R) (view (w_cluster w)) (view (w_cluster w'))"
proof (cases "Get_Run (rn_Client R) ns name (w_cluster w)")
  case (Inl e)
  with assms(4) show ?thesis by (auto simp: run_Reconcile_def advances_def)
next
  case (Inr run)
  have Rd: "reads_runs (rn_Client R) rv" and W: "writes_runs (rn_Client R) view" and V: "writes_versioned (rn_Client R) rv view"
    and Sp: "spares_runs (rn_Client R) rv" "spares_runs (rn_Client R) view"
    using assms(1) by (simp_all add: cached_store_def)
  have st: "rv (w_cluster w) (ns, name) = Some run" and key: "run_key run = (ns, name)"
    using Rd Inr unfolding reads_runs_def by blast+
  from assms(4) Inr obtain oc1 run' w1 ue where rec: "run_reconcile R run w = Some (oc1, run', w1)"
    and up: "on_cluster (StatusUpdate_Run (rn_Client R) run') w1 = (ue, w')"
    by (auto simp: run_Reconcile_def split: option.splits prod.splits if_splits)
  have same: "same_object run run'" by (rule run_reconcile_same [OF rec])
  then have key': "run_key run' = (ns, name)" using key by (simp add: same_object_def)
  have v1: "view (w_cluster w1) = view (w_cluster w)" "rv (w_cluster w1) = rv (w_cluster w)"
    using run_reconcile_runs [OF Sp(2) rec] run_reconcile_runs [OF Sp(1) rec] by simp_all
  from up obtain s' where upd: "StatusUpdate_Run (rn_Client R) run' (w_cluster w1) = (ue, s')" and s': "w_cluster w' = s'"
    by (auto simp: on_cluster_def split: prod.splits)
  show ?thesis
  proof (cases "view (w_cluster w) (ns, name) = Some run")
    case False
    with st v1 key' have "rv (w_cluster w1) (run_key run') \<noteq> view (w_cluster w1) (run_key run')" by simp
    with V upd have "view s' = view (w_cluster w1)" unfolding writes_versioned_def by blast
    with v1 s' show ?thesis by (simp add: advances_def)
  next
    case True
    note moved = run_reconcile_wf [OF assms(2) runs_wfD [OF assms(3) True] rec]
    have "view (w_cluster w1) (run_key run') = Some run" using True key' v1 by simp
    with W upd same have "view s' = view (w_cluster w1) \<or> view s' = (view (w_cluster w1))(run_key run' \<mapsto> run')"
      unfolding writes_runs_def by blast
    with s' v1 key' True moved show ?thesis unfolding advances_def by auto
  qed
qed

lemma run_Reconcile_runs:
  assumes "run_store (rn_Client R) view" and "sound_libs R" and "runs_wf (rn_meta R) (view (w_cluster w))"
    and "run_Reconcile R ns name w = Some (oc, w')"
  shows "runs_step (rn_meta R) stored (view (w_cluster w)) (view (w_cluster w'))"
  using run_Reconcile_advances [OF run_store_current [OF assms(1)] assms(2-4)] by (rule advances_step)

lemma scan_Reconcile_runs:
  assumes "run_store (sc_Client S) view" and "sort_law S" and "scan_Reconcile S ns name w = Some (oc, w')"
    and "\<And>scan. Get_Scan (sc_Client S) ns name (w_cluster w) = Inr scan \<Longrightarrow> stored scan"
  shows "runs_step M stored (view (w_cluster w)) (view (w_cluster w'))"
proof (cases "Get_Scan (sc_Client S) ns name (w_cluster w)")
  case (Inl e)
  with assms(3) show ?thesis by (auto simp: scan_Reconcile_def intro: stay)
next
  case (Inr scan)
  have Sp: "spares_runs (sc_Client S) view" using assms(1) by (simp add: run_store_def)
  from assms(3) Inr obtain oc1 scan' w1 ue where rec: "scan_reconcile S scan w = Some (oc1, scan', w1)"
    and up: "on_cluster (StatusUpdate_Scan (sc_Client S) scan') w1 = (ue, w')"
    by (auto simp: scan_Reconcile_def split: option.splits prod.splits if_splits)
  have "view (w_cluster w') = view (w_cluster w1)" by (rule spares_runsD(6) [OF Sp up])
  with scan_reconcile_runs [OF assms(1,2) rec] assms(4) [OF Inr] show ?thesis by (auto intro: stay fire)
qed

lemma platform_Reconcile_runs:
  assumes "spares_runs (pl_Client P) view" and "platform_Reconcile P name w = Some (oc, w')"
  shows "same_view view w w'"
proof -
  have "w_cluster w1 = w_cluster w" if "platform_reconcile P p w = (oc1, p', w1)" for p oc1 p' w1
    using that by (auto simp: platform_reconcile_def plat_mark_def read_clock_def Let_def
        split: sum.splits option.splits if_splits prod.splits)
  with assms(2) show ?thesis
    by (fastforce simp: platform_Reconcile_def split: sum.splits prod.splits option.splits if_splits
        dest: spares_runsD(5) [OF assms(1)])
qed

lemma controller_runs_step:
  assumes "operator_ok Q view" and "runs_wf (op_meta Q) (view (w_cluster w))" and "controller_step Q w w'"
  shows "runs_step (op_meta Q) (stored_scan Q w) (view (w_cluster w)) (view (w_cluster w'))"
  using assms(3)
proof cases
  case (run_step ns name oc)
  with run_Reconcile_runs [of "op_run Q" view w] assms(1,2) show ?thesis by (auto simp: operator_ok_def)
next
  case (scan_step ns name oc)
  show ?thesis
    by (rule scan_Reconcile_runs [OF _ _ scan_step])
      (use assms(1) in \<open>auto simp: operator_ok_def stored_scan_def\<close>)
next
  case (platform_step name oc)
  have "same_view view w w'"
    by (rule platform_Reconcile_runs [OF _ platform_step]) (use assms(1) in \<open>simp add: operator_ok_def run_store_def\<close>)
  then show ?thesis by (simp add: runs_step.stay)
qed

section \<open>Invariants of the stored Runs\<close>

lemma runs_step_wf:
  assumes "sound_libs R" and "runs_step (rn_meta R) stored v v'" and "runs_wf (rn_meta R) v"
  shows "runs_wf (rn_meta R) v'"
  using assms(2)
proof cases
  case (fire scan run v1)
  have "runs_wf (rn_meta R) v1"
    using fire(2) assms(3) new_run_wf [OF assms(1)] by (auto simp: fires_def starts_def runs_wf_def)
  then show ?thesis using fire(3) unfolding runs_wf_def prunes_def by (metis option.distinct(1))
qed (use assms(3) in \<open>auto simp: runs_wf_def\<close>)

lemma runs_wf_empty: "runs_wf M Map.empty"
  by (simp add: runs_wf_def)

lemma map_le_wf: "v' \<subseteq>\<^sub>m v \<Longrightarrow> runs_wf M v \<Longrightarrow> runs_wf M v'"
  unfolding runs_wf_def map_le_def by (metis domI)

lemma system_step_wf:
  assumes "operator_ok Q view" and "runs_wf (op_meta Q) (view (w_cluster w))" and "system_step Q view w w'"
  shows "runs_wf (op_meta Q) (view (w_cluster w'))"
  using assms(3)
proof cases
  case controller
  have "sound_libs (op_run Q)" using assms(1) by (simp add: operator_ok_def)
  then show ?thesis using runs_step_wf controller_runs_step [OF assms(1,2) controller] assms(2) by blast
next
  case outside
  then show ?thesis using map_le_wf assms(2) by blast
qed

section \<open>The active Runs of a Scan\<close>

text \<open>The Runs that hold the lock of the Scan with UID \<open>u\<close>: those it owns that have not ended.\<close>

definition holders :: "string \<Rightarrow> run_view \<Rightarrow> (string \<times> string) set" where
  "holders u v = {k. \<exists>run. v k = Some run \<and> owned_by u run \<and> \<not> isTerminal (run_phase run)}"

lemma ownedByScan_uid: "ownedByScan run scan \<longleftrightarrow> owned_by (m_uid (scan_meta scan)) run"
  by (simp add: ownedByScan_def owned_by_def)

lemma same_object_owned: "same_object run run' \<Longrightarrow> owned_by u run' = owned_by u run"
  by (simp add: same_object_def owned_by_def)

lemma prunes_holders: "prunes scan v v' \<Longrightarrow> holders u v' \<subseteq> holders u v"
  using prunes_None [of scan v v'] prunes_stored [of scan v v'] unfolding holders_def
  by (auto split: option.splits) (metis not_Some_eq)

lemma terminal_edge: "phase_edge p q \<Longrightarrow> isTerminal p \<Longrightarrow> isTerminal q"
  by (auto simp: isTerminal_def)

text \<open>
  The lock is released: when the Job of a Running Run has ended or is gone, the next reconcile of that
  Run, if its status write is accepted, returns and leaves the Run ended, so that it holds no Scan's lock.
\<close>

theorem ended_job_releases_lock:
  assumes "operator_ok Q view" and "runs_wf (op_meta Q) (view (w_cluster w))"
    and "Get_Run (rn_Client (op_run Q)) ns name (w_cluster w) = Inr run" and "run_phase run = RunPhaseRunning"
    and "\<forall>ref. rst_workerJobRef (run_status run) = Some ref \<longrightarrow>
      job_over (Get_Job (rn_Client (op_run Q)) (or_namespace ref) (or_name ref) (w_cluster w))"
    and "\<forall>run'. same_object run run' \<longrightarrow> fst (StatusUpdate_Run (rn_Client (op_run Q)) run' (w_cluster w)) = None"
  shows "\<exists>oc w'. run_Reconcile (op_run Q) ns name w = Some (oc, w') \<and>
    (\<forall>u. holders u (view (w_cluster w')) = holders u (view (w_cluster w)) - {(ns, name)})"
proof -
  let ?R = "op_run Q" and ?v = "view (w_cluster w)"
  have store: "run_store (rn_Client ?R) view" and snd: "sound_libs ?R" using assms(1) by (simp_all add: operator_ok_def)
  have st: "?v (ns, name) = Some run" and key: "run_key run = (ns, name)"
    using store assms(3) unfolding run_store_def reads_runs_def by blast+
  obtain oc run' w1 where o: "observeJob ?R (observed run) w = (oc, run', w1)" by (metis prod_cases3)
  have rec: "run_reconcile ?R run w = Some (oc, run', w1)" using o assms(4) by (simp add: run_reconcile_eq)
  have ref: "rst_workerJobRef (run_status (observed run)) = rst_workerJobRef (run_status run)"
    by (simp add: observed_def Let_def)
  from observeJob_over [OF _ o] assms(5) have ended: "isTerminalPhase (run_phase run')" and w1: "w_cluster w1 = w_cluster w"
    unfolding ref by blast+
  have same: "same_object run run'" using run_reconcile_wf [OF snd runs_wfD [OF assms(2) st] rec] by blast
  then have key': "run_key run' = (ns, name)" using key by (simp add: same_object_def)
  from assms(6) same obtain s' where up: "StatusUpdate_Run (rn_Client ?R) run' (w_cluster w) = (None, s')"
    by (metis prod.collapse)
  have "view s' = ?v((ns, name) \<mapsto> run')"
    using store up st same key' unfolding run_store_def writes_runs_def by metis
  moreover have "run_Reconcile ?R ns name w = Some (oc, w1\<lparr>w_cluster := s'\<rparr>)"
    using rec up w1 by (intro run_shell.saved [OF assms(3) rec]) (simp add: on_cluster_def)
  moreover have "isTerminal (run_phase run')" using ended by (simp add: isTerminalPhase_def isTerminal_def)
  ultimately show ?thesis by (auto simp: holders_def)
qed

section \<open>Examples\<close>

text \<open>
  The in-memory API server as a store of Runs. Its lists show each name once, so that they agree with
  reading also on clusters that hold a name twice.
\<close>

definition sim_view :: "cluster \<Rightarrow> run_view" where
  "sim_view s k = List.find (is_at run_meta (fst k) (snd k)) (cl_runs s)"

definition store_client :: "cluster kclient" where
  "store_client = sim_client\<lparr>List_Runs := (\<lambda>ns s. Inr (filter
     (\<lambda>run. run_namespace run = ns \<and> sim_view s (run_key run) = Some run) (cl_runs s)))\<rparr>"

lemma sim_view_cong: "cl_runs s' = cl_runs s \<Longrightarrow> sim_view s' = sim_view s"
  by (simp add: sim_view_def fun_eq_iff)

lemma sim_viewD: "sim_view s k = Some run \<Longrightarrow> run_key run = k \<and> run \<in> set (cl_runs s)"
  by (auto simp: sim_view_def find_Some_iff is_at_def)

lemma store_reads: "reads_runs store_client sim_view"
proof -
  have "run_key run = k" if "sim_view s k = Some run" for s k run using sim_viewD [OF that] by simp
  moreover have "sim_view s (ns, name) = Some run" if "Get_Run store_client ns name s = Inr run" for s ns name run
    using that by (simp add: store_client_def sim_client_def sim_get_def sim_view_def split: option.splits)
  moreover have "set runs = {run. run_namespace run = ns \<and> sim_view s (run_key run) = Some run}"
    if "List_Runs store_client ns s = Inr runs" for s ns runs
  proof -
    have "runs = filter (\<lambda>run. run_namespace run = ns \<and> sim_view s (run_key run) = Some run) (cl_runs s)"
      using that by (simp add: store_client_def)
    then show ?thesis by (auto intro: sim_viewD [THEN conjunct2])
  qed
  ultimately show ?thesis by (simp add: reads_runs_def)
qed

lemma find_replaced:
  "List.find (is_at run_meta a b) (sim_replace run_meta ob obs) =
     (if (a, b) = run_key ob \<and> List.find (is_at run_meta a b) obs \<noteq> None then Some ob
      else List.find (is_at run_meta a b) obs)"
  by (induction obs) (auto simp: sim_replace_def is_at_def [abs_def])

lemma find_filtered:
  "List.find (is_at run_meta a b) (filter (\<lambda>r. \<not> is_at run_meta c d r) obs) =
     (if (a, b) = (c, d) then None else List.find (is_at run_meta a b) obs)"
  by (induction obs) (auto simp: is_at_def [abs_def])

lemma opt_or_case: "opt_or x y = (case x of None \<Rightarrow> y | Some z \<Rightarrow> Some z)"
  by (cases x) simp_all

lemma store_writes: "writes_runs store_client sim_view"
  unfolding writes_runs_def
proof (intro conjI allI impI)
  fix run s e s' assume "Create_Run store_client run s = (Inl e, s')"
  then show "sim_view s' = sim_view s"
    by (auto simp: store_client_def sim_client_def sim_create_def Let_def split: if_splits)
next
  fix run s run' s' assume c: "Create_Run store_client run s = (Inr run', s')"
  then have r': "run' = run_meta_update (stamp (cl_next s)) run" and s': "cl_runs s' = cl_runs s @ [run']"
    and no: "List.find (is_at run_meta (run_namespace run') (run_name run')) (cl_runs s) = None"
    by (auto simp: store_client_def sim_client_def sim_create_def Let_def split: if_splits)
  show "sim_view s (run_key run') = None" using no by (simp add: sim_view_def)
  show "sim_view s' = (sim_view s)(run_key run' \<mapsto> run')"
    using no by (auto simp: sim_view_def fun_eq_iff s' find_append opt_or_case is_at_def split: option.split)
  show "run_namespace run' = run_namespace run" "run_spec run' = run_spec run" "run_status run' = run_status run"
    "m_ownerReferences (run_meta run') = m_ownerReferences (run_meta run)"
    by (simp_all add: r' stamp_def)
next
  fix run s e s' assume "Delete_Run store_client run s = (e, s')"
  then have "cl_runs s' = filter (\<lambda>r. \<not> is_at run_meta (run_namespace run) (run_name run) r) (cl_runs s)"
    by (auto simp: store_client_def sim_client_def)
  then have "sim_view s' = (sim_view s)(run_key run := None)" by (auto simp: sim_view_def fun_eq_iff find_filtered)
  then show "sim_view s' = sim_view s \<or> sim_view s' = (sim_view s)(run_key run := None)" ..
next
  fix run s cur e s' assume v: "sim_view s (run_key run) = Some cur" and u: "StatusUpdate_Run store_client run s = (e, s')"
  then have "cl_runs s' = sim_replace run_meta run (cl_runs s)" by (auto simp: store_client_def sim_client_def)
  then have "sim_view s' = (sim_view s)(run_key run \<mapsto> run)"
    using v by (auto simp: sim_view_def fun_eq_iff find_replaced)
  then show "sim_view s' = (sim_view s)(run_key run \<mapsto> run)"
    "sim_view s' = sim_view s \<or> sim_view s' = (sim_view s)(run_key run \<mapsto> run)" by simp_all
qed

lemma store_spares: "spares_runs store_client sim_view"
  by (auto simp: spares_runs_def keeps_def store_client_def sim_client_def sim_create_def Let_def intro!: sim_view_cong)

definition ex_Q :: "(cluster, nat) operator" where
  "ex_Q = \<lparr>op_run = ex_R\<lparr>rn_Client := store_client\<rparr>, op_scan = ex_S\<lparr>sc_Client := store_client\<rparr>,
     op_platform = ex_P\<lparr>pl_Client := store_client\<rparr>\<rparr>"

lemma ex_Q_client [simp]: "sc_Client (op_scan ex_Q) = store_client"
  by (simp add: ex_Q_def)

lemma ex_operator_ok: "operator_ok ex_Q sim_view"
  using ex_sound ex_sort_law store_reads store_writes store_spares
  by (simp add: operator_ok_def ex_Q_def run_store_def sound_libs_def sort_law_def)

text \<open>A Scan with policy Forbid that has missed a fire, on a cluster without Runs: its reconcile creates one.\<close>

definition ex_forbid_scan :: RenovateScan where
  "ex_forbid_scan = ex_hourly_scan\<lparr>
     scan_spec := (scan_spec ex_hourly_scan)\<lparr>ss_concurrencyPolicy := ForbidConcurrent\<rparr>,
     scan_status := (scan_status ex_hourly_scan)\<lparr>sst_lastRunTime := Some \<lparr>wall = 1, zone = ''UTC''\<rparr>\<rparr>\<rparr>"

definition ex_quiet :: "(cluster, nat) world" where
  "ex_quiet = ex_scan_world\<lparr>w_cluster := ex_scan_cluster\<lparr>cl_scans := [ex_forbid_scan], cl_runs := []\<rparr>\<rparr>"

definition ex_forbid1 :: RenovateScan where
  "ex_forbid1 = on_sstatus (refreshed (scan_observed ex_forbid_scan) []) (scan_observed ex_forbid_scan)"

lemma ex_forbid1_simps [simp]:
  "sst_lastRunTime (scan_status ex_forbid1) = Some \<lparr>wall = 1, zone = ''UTC''\<rparr>"
  "sst_activeRuns (scan_status ex_forbid1) = []"
  by (simp_all add: ex_forbid1_def completions_def Let_def) (simp add: ex_forbid_scan_def)

lemma ex_quiet_passes:
  "scan_passes (op_scan ex_Q) ex_forbid_scan (w_cluster ex_quiet) ex_ready_platform ''UTC'' hourly ex_forbid1"
proof -
  have "refreshActiveRuns (op_scan ex_Q) (scan_observed ex_forbid_scan) (w_cluster ex_quiet) = Inr ex_forbid1"
    by (simp add: refreshActiveRuns_eq ex_forbid1_def ex_Q_def store_client_def ex_quiet_def)
  moreover have "Get_Platform (sc_Client (op_scan ex_Q)) (lor_name (ss_platformRef (scan_spec ex_forbid_scan)))
      (w_cluster ex_quiet) = Inr ex_ready_platform"
    by (simp add: ex_Q_def store_client_def sim_client_def sim_get_def ex_quiet_def ex_scan_cluster_def is_at_def
        ex_ready_platform_def ex_forbid_scan_def ex_hourly_scan_def empty_meta_def)
  moreover have "parseSchedule (ex_S\<lparr>sc_Client := c\<rparr>) = parseSchedule ex_S" for c
    by (simp add: parseSchedule_def fun_eq_iff Let_def split: sum.split)
  ultimately show ?thesis
    using ex_passes by (simp add: scan_passes_def ex_Q_def ex_forbid_scan_def)
qed

lemma ex_quiet_step:
  obtains w' run where "system_step ex_Q sim_view ex_quiet w'"
    and "sim_view (w_cluster w') (run_key run) = Some run" and "owned_by ''scan-uid'' run" and "new_run run"
    and "cl_secrets (w_cluster w') = []"
proof -
  let ?S = "op_scan ex_Q" and ?s = "w_cluster ex_quiet"
  obtain missed nextFire where cf: "computeFireTimes hourly (sst_lastRunTime (scan_status ex_forbid1))
      (scan_now ?S ex_quiet) ''UTC'' = Some (missed, nextFire)" and m: "\<not> IsZero missed"
  proof (rule ex_fire)
    fix missed nextFire assume "computeFireTimes hourly (sst_lastRunTime (scan_status ex_scan1))
        (scan_now ex_S ex_scan_world) ''UTC'' = Some (missed, nextFire)" "\<not> IsZero missed"
    then show thesis using that by (simp add: ex_Q_def ex_quiet_def)
  qed
  define run where "run = run_meta_update (stamp 7) (newRun ?S ex_forbid_scan ex_ready_platform missed)"
  define s1 where "s1 = ?s\<lparr>cl_runs := [run], cl_next := 8\<rparr>"
  have cr: "Create_Run (sc_Client ?S) (newRun ?S ex_forbid_scan ex_ready_platform missed) ?s = (Inr run, s1)"
    by (simp add: store_client_def sim_client_def sim_create_def run_def s1_def ex_quiet_def ex_scan_cluster_def Let_def)
  have new: "new_run run" using newRun_facts(1) by (simp add: run_def new_run_def)
  then have ph: "run_phase run = RunPhaseUnset" by (simp add: new_run_def fresh_status_def)
  have gc: "gcOldRuns ?S ex_forbid_scan s1 = (None, s1)"
    by (simp add: gcOldRuns_def store_client_def s1_def deleteOldest_def ph ex_forbid_scan_def
        ex_hourly_scan_def Let_def)
  have skip: "\<not> shouldSkipForConcurrency ex_forbid1" by (simp add: shouldSkip_active)
  from scan_reconcile_creates [OF ex_quiet_passes cf m skip cr gc] obtain oc scan' w1 where
    rec: "scan_reconcile ?S ex_forbid_scan ex_quiet = Some (oc, scan', w1)" and w1: "w_cluster w1 = s1" by blast
  obtain w' where save: "on_cluster (StatusUpdate_Scan (sc_Client ?S) scan') w1 = (None, w')"
    and runs: "cl_runs (w_cluster w') = [run]" and "cl_secrets (w_cluster w') = []"
    by (simp add: on_cluster_def store_client_def sim_client_def w1 s1_def ex_quiet_def ex_scan_cluster_def
        empty_cluster_def)
  have get: "Get_Scan (sc_Client ?S) ''team'' ''nightly'' ?s = Inr ex_forbid_scan"
    by (simp add: ex_Q_def store_client_def sim_client_def sim_get_def ex_quiet_def is_at_def ex_forbid_scan_def
        ex_hourly_scan_def)
  have "scan_Reconcile ?S ''team'' ''nightly'' ex_quiet = Some (oc, w')"
    by (rule scan_shell.saved [OF get rec save])
  then have st: "system_step ex_Q sim_view ex_quiet w'" by (blast intro: controller scan_step)
  note st
  moreover have "sim_view (w_cluster w') (run_key run) = Some run" by (simp add: sim_view_def runs is_at_def)
  moreover have "owned_by ''scan-uid'' run"
    by (simp add: run_def owned_by_def stamp_def newRun_def ex_forbid_scan_def ex_hourly_scan_def)
  ultimately show ?thesis using new \<open>cl_secrets (w_cluster w') = []\<close> by (rule that)
qed

lemma ex_quiet_empty: "sim_view (w_cluster ex_quiet) = Map.empty"
  by (simp add: sim_view_def ex_quiet_def fun_eq_iff)

lemma ex_quiet_invs:
  "runs_wf (op_meta ex_Q) (sim_view (w_cluster ex_quiet))"
  "holders u (sim_view (w_cluster ex_quiet)) = {}"
  by (simp_all add: ex_quiet_empty runs_wf_empty holders_def)

lemma new_run_active: "new_run run \<Longrightarrow> \<not> isTerminal (run_phase run)"
  by (simp add: new_run_def fresh_status_def isTerminal_def)

lemma ex_run_step:
  assumes "cl_secrets (w_cluster w) = []" and "Get_Run store_client ns name (w_cluster w) = Inr run" and "new_run run"
  obtains w' where "controller_step ex_Q w w'"
proof -
  have src: "\<exists>e. fetchSourceSecret (op_run ex_Q) r w1 = Inl e" if "w_cluster w1 = w_cluster w" for r w1
    using that assms(1) by (auto simp: fetchSourceSecret_def ex_Q_def store_client_def sim_client_def sim_get_def
        split: sum.split)
  have "\<exists>x. discoverAndDispatch (op_run ex_Q) r w = Some x" for r
  proof -
    obtain r1 w1 where adm: "admitRun (op_run ex_Q) r w = (r1, w1)" by fastforce
    from src [OF step_clusters(4) [OF adm]] obtain e where "fetchSourceSecret (op_run ex_Q) r1 w1 = Inl e" by blast
    with adm show ?thesis by (simp add: discoverAndDispatch_def del: split_paired_Ex)
  qed
  moreover have "run_phase (observed run) = RunPhasePending"
    using assms(3) by (simp add: new_run_def fresh_status_def)
  ultimately obtain oc run' w1 where "run_reconcile (op_run ex_Q) run w = Some (oc, run', w1)"
    by (simp add: run_reconcile_eq) (metis prod_cases3)
  then have "\<exists>oc w'. run_Reconcile (op_run ex_Q) ns name w = Some (oc, w')"
    using assms(2) by (auto simp: run_Reconcile_def ex_Q_def split: prod.split option.split)
  then show ?thesis using that by (auto intro: run_step)
qed

text \<open>A Running Run whose Job is gone.\<close>

definition ex_orphan :: RenovateRun where
  "ex_orphan = ex_run\<lparr>run_status := fresh_status\<lparr>rst_phase := RunPhaseRunning,
     rst_startTime := Some \<lparr>wall = 1, zone = ''UTC''\<rparr>, rst_discoveryCompletionTime := Some \<lparr>wall = 2, zone = ''UTC''\<rparr>,
     rst_workersStartTime := Some \<lparr>wall = 3, zone = ''UTC''\<rparr>, rst_actualWorkers := 1,
     rst_shardConfigMapRef := Some \<lparr>or_apiVersion = ''v1'', or_kind = ''ConfigMap'', or_name = ''nightly-1-shards'',
       or_namespace = ''team'', or_uid = ''''\<rparr>,
     rst_workerJobRef := Some \<lparr>or_apiVersion = ''batch/v1'', or_kind = ''Job'', or_name = ''nightly-1-worker'',
       or_namespace = ''team'', or_uid = ''''\<rparr>\<rparr>\<rparr>"

lemma ex_orphan_wf: "run_wf ref_meta ex_orphan"
proof -
  have "meta_conditions (rn_meta ex_R)" using ex_sound by (simp add: sound_libs_def)
  then have "\<not> IsTrue ref_meta [] ty" for ty using meta_conditions.nothing_true by (simp add: ex_R_def)
  then show ?thesis by (simp add: run_wf_def ex_orphan_def fresh_status_def Let_def)
qed

theorem ended_job_releases_lock_witness:
  "\<exists>oc w'. run_Reconcile (op_run ex_Q) ''team'' ''nightly-1'' (ex_world (empty_cluster\<lparr>cl_runs := [ex_orphan]\<rparr>)) = Some (oc, w') \<and>
     (\<forall>u. holders u (sim_view (w_cluster w')) = {})"
proof -
  let ?w = "ex_world (empty_cluster\<lparr>cl_runs := [ex_orphan]\<rparr>)"
  have key: "run_key ex_orphan = (''team'', ''nightly-1'')" by (simp add: ex_orphan_def ex_run_def)
  have only: "sim_view (w_cluster ?w) = [(''team'', ''nightly-1'') \<mapsto> ex_orphan]"
    using key by (auto simp: sim_view_def ex_world_def fun_eq_iff is_at_def)
  have "op_meta ex_Q = ref_meta" by (simp add: ex_Q_def ex_R_def)
  then have wf: "runs_wf (op_meta ex_Q) (sim_view (w_cluster ?w))" using ex_orphan_wf by (simp add: runs_wf_def only)
  have get: "Get_Run (rn_Client (op_run ex_Q)) ''team'' ''nightly-1'' (w_cluster ?w) = Inr ex_orphan"
    using key by (simp add: ex_Q_def store_client_def sim_client_def sim_get_def ex_world_def is_at_def)
  have gone: "job_over (Get_Job (rn_Client (op_run ex_Q)) ns name (w_cluster ?w))" for ns name
    by (simp add: job_over_def ex_Q_def store_client_def sim_client_def sim_get_def ex_world_def empty_cluster_def)
  have "run_phase ex_orphan = RunPhaseRunning" by (simp add: ex_orphan_def)
  moreover have "fst (StatusUpdate_Run (rn_Client (op_run ex_Q)) r s) = None" for r s
    by (simp add: ex_Q_def store_client_def sim_client_def)
  ultimately obtain oc w' where "run_Reconcile (op_run ex_Q) ''team'' ''nightly-1'' ?w = Some (oc, w')"
    and "\<forall>u. holders u (sim_view (w_cluster w')) = holders u (sim_view (w_cluster ?w)) - {(''team'', ''nightly-1'')}"
    using ended_job_releases_lock [OF ex_operator_ok wf get] gone by blast
  moreover have "holders u (sim_view (w_cluster ?w)) \<subseteq> {(''team'', ''nightly-1'')}" for u
    by (auto simp: holders_def only split: if_splits)
  ultimately show ?thesis by blast
qed

end
