(* ===== verification/RunResume.thy ===== *)
theory RunResume
  imports RunProperties
begin

text \<open>
  Crash safety of the Run controller: a step that stopped half-way, or whose status was never
  written, is repeated from the old status. The repeated step finds the objects of the first one and uses them.
\<close>

section \<open>What the API server promises for ConfigMaps and Jobs\<close>

text \<open>
  A created object can be read under the name it was created with, and operations on other resources do not
  change what is read.
\<close>

abbreviation jobs_of :: "'s kclient \<Rightarrow> 's \<Rightarrow> string \<Rightarrow> string \<Rightarrow> Job res" where
  "jobs_of K s ns name \<equiv> Get_Job K ns name s"

abbreviation cms_of :: "'s kclient \<Rightarrow> 's \<Rightarrow> string \<Rightarrow> string \<Rightarrow> ConfigMap res" where
  "cms_of K s ns name \<equiv> Get_ConfigMap K ns name s"

definition child_store :: "'s kclient \<Rightarrow> bool" where
  "child_store K =
     (keeps (jobs_of K) (Create_Secret K) \<and> keeps (jobs_of K) (Update_Secret K) \<and> keeps (jobs_of K) (Create_ConfigMap K) \<and>
      keeps (cms_of K) (Create_Secret K) \<and> keeps (cms_of K) (Update_Secret K) \<and> keeps (cms_of K) (Create_Job K) \<and>
      (\<forall>cm s cm' s'. Create_ConfigMap K cm s = (Inr cm', s') \<longrightarrow> m_name (cm_meta cm) \<noteq> [] \<longrightarrow>
         Get_ConfigMap K (m_namespace (cm_meta cm)) (m_name (cm_meta cm)) s' = Inr cm') \<and>
      (\<forall>job s job' s'. Create_Job K job s = (Inr job', s') \<longrightarrow> m_name (job_meta job) \<noteq> [] \<longrightarrow>
         Get_Job K (m_namespace (job_meta job)) (m_name (job_meta job)) s' = Inr job'))"

section \<open>The children a step leaves behind\<close>

abbreviation run_cm :: "('s, 'n) RenovateRunReconciler \<Rightarrow> RenovateRun \<Rightarrow> ('s, 'n) world \<Rightarrow> ConfigMap res" where
  "run_cm R run w \<equiv> Get_ConfigMap (rn_Client R) (run_namespace run) (run_name run @ ''-shards'') (w_cluster w)"

abbreviation run_job :: "('s, 'n) RenovateRunReconciler \<Rightarrow> RenovateRun \<Rightarrow> ('s, 'n) world \<Rightarrow> Job res" where
  "run_job R run w \<equiv> Get_Job (rn_Client R) (run_namespace run) (JobName (run_name run)) (w_cluster w)"

definition cm_ref :: "ConfigMap \<Rightarrow> ObjectReference" where
  "cm_ref cm = \<lparr>or_apiVersion = ''v1'', or_kind = ''ConfigMap'', or_name = m_name (cm_meta cm),
     or_namespace = m_namespace (cm_meta cm), or_uid = m_uid (cm_meta cm)\<rparr>"

definition job_ref :: "Job \<Rightarrow> ObjectReference" where
  "job_ref job = \<lparr>or_apiVersion = ''batch/v1'', or_kind = ''Job'', or_name = m_name (job_meta job),
     or_namespace = m_namespace (job_meta job), or_uid = m_uid (job_meta job)\<rparr>"

lemma ensureShardConfigMap_stored:
  assumes "child_store (rn_Client R)" and "ensureShardConfigMap R run repos w = (Inr (cm, k), w')"
  shows "run_cm R run w' = Inr cm"
proof -
  have law: "Create_ConfigMap (rn_Client R) (shardConfigMap run d) s = (Inr cm, s') \<Longrightarrow>
      Get_ConfigMap (rn_Client R) (run_namespace run) (run_name run @ ''-shards'') s' = Inr cm" for d s s'
    using assms(1) unfolding child_store_def
    by (metis (no_types, lifting) append_is_Nil_conv not_Cons_self2 shardConfigMap_meta list.distinct(1))
  from assms(2) show ?thesis
    by (auto simp: ensureShardConfigMap_def on_cluster_def Let_def split: sum.splits if_splits prod.splits dest: law)
qed

lemma ensureShardConfigMap_reuses:
  assumes "run_cm R run w = Inr cm" and "ensureShardConfigMap R run repos w = (r, w')"
  shows "w' = w" and "r = Inr (cm', k) \<Longrightarrow> cm' = cm"
  using assms by (auto simp: ensureShardConfigMap_def Let_def split: sum.splits)

lemma BuildWorkerJob_named:
  assumes "BuildWorkerJob un \<lparr>bi_Run = Some run, bi_ShardConfigMap = Some cm, bi_ActualWorkers = k, bi_Credential = c\<rparr> = Inr job"
  shows "m_name (job_meta job) = JobName (run_name run)" and "m_namespace (job_meta job) = run_namespace run"
  using assms by (auto simp: BuildWorkerJob_def Let_def split: sum.splits if_splits)

lemma ensureWorkerJob_stored:
  assumes "child_store (rn_Client R)" and "ensureWorkerJob R run m cm k w = (Inr job, w')"
  shows "run_job R run w' = Inr job"
proof -
  have "JobName (run_name run) \<noteq> []" by (simp add: JobName_def jobNameSuffix_def Let_def)
  then have law: "Create_Job (rn_Client R) j s = (Inr job, s') \<Longrightarrow> m_name (job_meta j) = JobName (run_name run) \<Longrightarrow>
      m_namespace (job_meta j) = run_namespace run \<Longrightarrow>
      Get_Job (rn_Client R) (run_namespace run) (JobName (run_name run)) s' = Inr job" for j s s'
    using assms(1) unfolding child_store_def by (metis (no_types, lifting))
  from assms(2) show ?thesis
    by (auto simp: ensureWorkerJob_def on_cluster_def Let_def BuildWorkerJob_named
        split: sum.splits if_splits prod.splits intro: law)
qed

lemma ensureWorkerJob_reuses:
  assumes "run_job R run w = Inr job" and "ensureWorkerJob R run m cm k w = (r, w')"
  shows "w' = w" and "r = Inr job' \<Longrightarrow> job' = job"
  using assms by (auto simp: ensureWorkerJob_def Let_def BuildWorkerJob_named split: sum.splits)

lemma child_storeD:
  assumes "child_store K"
  shows "on_cluster (Create_Secret K x1) w = (r1, w') \<Longrightarrow> jobs_of K (w_cluster w') = jobs_of K (w_cluster w)"
    and "on_cluster (Update_Secret K x1) w = (r1, w') \<Longrightarrow> jobs_of K (w_cluster w') = jobs_of K (w_cluster w)"
    and "on_cluster (Create_ConfigMap K x2) w = (r2, w') \<Longrightarrow> jobs_of K (w_cluster w') = jobs_of K (w_cluster w)"
    and "on_cluster (Create_Secret K x1) w = (r1, w') \<Longrightarrow> cms_of K (w_cluster w') = cms_of K (w_cluster w)"
    and "on_cluster (Update_Secret K x1) w = (r1, w') \<Longrightarrow> cms_of K (w_cluster w') = cms_of K (w_cluster w)"
    and "on_cluster (Create_Job K x3) w = (r3, w') \<Longrightarrow> cms_of K (w_cluster w') = cms_of K (w_cluster w)"
  using assms unfolding child_store_def by (blast dest: keepsD)+

lemma mirrorCredential_children:
  assumes "child_store (rn_Client R)" and "mirrorCredential R run tok w = (r, w')"
  shows "jobs_of (rn_Client R) (w_cluster w') = jobs_of (rn_Client R) (w_cluster w)"
    and "cms_of (rn_Client R) (w_cluster w') = cms_of (rn_Client R) (w_cluster w)"
  using assms(2)
  by (auto simp: mirrorCredential_def Let_def split: sum.splits if_splits prod.splits dest: child_storeD [OF assms(1)])

lemma ensureWorkerJob_cms:
  assumes "child_store (rn_Client R)" and "ensureWorkerJob R run m cm k w = (r, w')"
  shows "cms_of (rn_Client R) (w_cluster w') = cms_of (rn_Client R) (w_cluster w)"
  using assms(2)
  by (auto simp: ensureWorkerJob_def Let_def split: sum.splits if_splits prod.splits dest: child_storeD [OF assms(1)])

lemma startRun_refs:
  assumes "startRun R n k job run w = (oc, run', w')"
  shows "rst_workerJobRef (run_status run') = Some (job_ref job)"
    and "rst_shardConfigMapRef (run_status run') = rst_shardConfigMapRef (run_status run)"
  using assms by (auto simp: startRun_def run_mark_eq read_clock_def job_ref_def Let_def split: if_splits)

text \<open>What a step that reached Running refers to, and that it can be read.\<close>

definition refers_to_children :: "('s, 'n) RenovateRunReconciler \<Rightarrow> RenovateRun \<Rightarrow> ('s, 'n) world \<Rightarrow> bool" where
  "refers_to_children R run w =
     (case (run_cm R run w, run_job R run w) of
        (Inr cm, Inr job) \<Rightarrow> rst_shardConfigMapRef (run_status run) = Some (cm_ref cm) \<and>
          rst_workerJobRef (run_status run) = Some (job_ref job)
      | _ \<Rightarrow> False)"

definition same_children :: "('s, 'n) RenovateRunReconciler \<Rightarrow> ('s, 'n) world \<Rightarrow> ('s, 'n) world \<Rightarrow> bool" where
  "same_children R w w' = (jobs_of (rn_Client R) (w_cluster w') = jobs_of (rn_Client R) (w_cluster w) \<and>
     cms_of (rn_Client R) (w_cluster w') = cms_of (rn_Client R) (w_cluster w))"

lemma same_children_get:
  "same_children R w w' \<Longrightarrow> run_cm R run w' = run_cm R run w \<and> run_job R run w' = run_job R run w"
  unfolding same_children_def by (metis (no_types))

lemma same_children_cluster:
  "w_cluster w2 = w_cluster w1 \<Longrightarrow> same_children R w w2 \<longleftrightarrow> same_children R w w1"
  "w_cluster w2 = w_cluster w1 \<Longrightarrow> same_children R w2 w \<longleftrightarrow> same_children R w1 w"
  by (simp_all add: same_children_def)

lemma same_children_trans: "same_children R w w1 \<Longrightarrow> same_children R w1 w2 \<Longrightarrow> same_children R w w2"
  by (simp add: same_children_def)

inductive child_path ::
  "('s, 'n) RenovateRunReconciler \<Rightarrow> RenovateRun \<Rightarrow> ('s, 'n) world \<Rightarrow> ('s, 'n) run_step \<Rightarrow> bool" for R run w where
  failed: "same_children R w w1 \<Longrightarrow> child_path R run w (markFailed R msg run w1)"
| transient: "same_children R w w1 \<Longrightarrow> child_path R run w (markTransient R e reason run w1)"
| dispatched: "same_children R w w1 \<Longrightarrow> child_path R run w (dispatchRun R m repos run w1)"

lemma mirrorCredential_same:
  "child_store (rn_Client R) \<Longrightarrow> mirrorCredential R run tok w = (r, w') \<Longrightarrow> same_children R w w'"
  by (simp add: same_children_def mirrorCredential_children)

lemma discoverAndDispatch_path:
  assumes "child_store (rn_Client R)" and "discoverAndDispatch R run w = Some step"
  shows "child_path R (fst (admitRun R run w)) w step"
proof -
  obtain run1 w1 where adm: "admitRun R run w = (run1, w1)" by fastforce
  have w1: "w_cluster w1 = w_cluster w" by (rule step_clusters(4) [OF adm])
  from assms(2) adm w1 show ?thesis
    by (auto simp: discoverAndDispatch_def handleDiscoverErr_def Let_def read_clock_def same_children_def
        intro!: child_path.intros split: prod.splits sum.splits option.splits if_splits
        dest!: mirrorCredential_same [OF assms(1)] step_clusters(7))
qed

text \<open>A step that reached Running left its two children behind and refers to them.\<close>

lemma dispatchRun_children:
  assumes "child_store (rn_Client R)" and "dispatchRun R m repos run w = (oc, run', w')"
    and "run_phase run' = RunPhaseRunning" and "run_phase run = RunPhaseDiscovering"
  shows "refers_to_children R run' w'"
  using assms(2)
proof (cases rule: dispatchRun_path)
  case (started cm k w1 job w3)
  let ?run1 = "shards_noted (length repos) cm k run"
  have "run_cm R run w1 = Inr cm" by (rule ensureShardConfigMap_stored [OF assms(1) started(1)])
  then have "run_cm R run w3 = Inr cm"
    using ensureWorkerJob_cms [OF assms(1) started(2)] by (metis (no_types) sharded_cluster)
  moreover have "run_job R ?run1 w3 = Inr job" by (rule ensureWorkerJob_stored [OF assms(1) started(2)])
  moreover have "same_object run run'" by (rule dispatchRun_same [OF assms(2)])
  ultimately show ?thesis
    using startRun_refs [OF started(3)] step_clusters(3) [OF started(3)] by (simp add: refers_to_children_def same_object_def cm_ref_def)
qed (use assms(3,4) in \<open>auto dest: markFailed_run(2) markTransient_run(2)\<close>)

lemma dispatchRun_reuses:
  assumes "child_store (rn_Client R)" and "run_cm R run w = Inr cm" and "run_job R run w = Inr job"
    and "dispatchRun R m repos run w = (oc, run', w')"
  shows "same_children R w w'"
proof -
  have jobs: "w3 = sharded run k w1 \<and> w1 = w"
    if "ensureShardConfigMap R run repos w = (Inr (cm', k), w1)"
      and "ensureWorkerJob R (shards_noted (length repos) cm' k run) m cm' k (sharded run k w1) = (j, w3)" for cm' k w1 j w3
  proof -
    have w1: "w1 = w" by (rule ensureShardConfigMap_reuses(1) [OF assms(2) that(1)])
    then have "run_job R (shards_noted (length repos) cm' k run) (sharded run k w1) = Inr job" using assms(3) by simp
    from ensureWorkerJob_reuses(1) [OF this that(2)] w1 show ?thesis by simp
  qed
  from assms(4) show ?thesis
  proof (cases rule: dispatchRun_path)
    case (no_shards e w1)
    with ensureShardConfigMap_reuses(1) [OF assms(2) no_shards(1)] step_clusters(2) [OF no_shards(2)] show ?thesis
      by (simp add: same_children_def)
  next
    case (no_job cm' k w1 e w3)
    with jobs [OF no_job(1,2)] step_clusters(2) [OF no_job(3)] show ?thesis by (simp add: same_children_def)
  next
    case (started cm' k w1 job' w3)
    with jobs [OF started(1,2)] step_clusters(3) [OF started(3)] show ?thesis by (simp add: same_children_def)
  qed (simp add: same_children_def step_clusters(1))
qed

lemma discovering_step:
  assumes "child_store (rn_Client R)" and "run_phase run \<in> {RunPhaseUnset, RunPhasePending, RunPhaseDiscovering}"
    and "run_reconcile R run w = Some (oc, run', w')"
  obtains (early) "same_children R w w'" "run_phase run' \<noteq> RunPhaseRunning" "same_object run run'"
  | (dispatch) m repos run1 w1 where "dispatchRun R m repos run1 w1 = (oc, run', w')" "same_children R w w1"
      "same_object run run1" "run_phase run1 = RunPhaseDiscovering"
proof -
  have dd: "discoverAndDispatch R (observed run) w = Some (oc, run', w')"
    using assms(2,3) by (auto simp: run_reconcile_eq)
  obtain run1 wa where adm: "admitRun R (observed run) w = (run1, wa)" by fastforce
  have so: "same_object run run1" using admitRun_run(1) [OF adm] by (simp add: same_object_def)
  have ph: "run_phase run1 = RunPhaseDiscovering" by (rule admitRun_run(2) [OF adm])
  from discoverAndDispatch_path [OF assms(1) dd] have "child_path R run1 w (oc, run', w')" by (simp add: adm)
  then consider (fl) w1 msg where "markFailed R msg run1 w1 = (oc, run', w')" "same_children R w w1"
    | (tr) w1 e reason where "markTransient R e reason run1 w1 = (oc, run', w')" "same_children R w w1"
    | (di) w1 m repos where "dispatchRun R m repos run1 w1 = (oc, run', w')" "same_children R w w1"
    by (cases rule: child_path.cases) auto
  then show ?thesis
  proof cases
    case fl
    with markFailed_run(1,2) [OF fl(1)] step_clusters(1) [OF fl(1)] so show ?thesis
      by (intro early) (simp_all add: same_children_def same_object_def)
  next
    case tr
    with markTransient_run(1,2) [OF tr(1)] step_clusters(2) [OF tr(1)] so ph show ?thesis
      by (intro early) (simp_all add: same_children_def same_object_def)
  next
    case di
    from di so ph show ?thesis by (rule dispatch)
  qed
qed

lemma running_refers:
  assumes "child_store (rn_Client R)" and "run_phase run \<in> {RunPhaseUnset, RunPhasePending, RunPhaseDiscovering}"
    and "run_reconcile R run w = Some (oc, run', w')" and "run_phase run' = RunPhaseRunning"
  shows "refers_to_children R run' w'" and "same_object run run'"
proof -
  from assms(1-3) have "refers_to_children R run' w' \<and> same_object run run'"
  proof (cases rule: discovering_step)
    case early
    with assms(4) show ?thesis by simp
  next
    case (dispatch m repos run1 w1)
    from dispatchRun_children [OF assms(1) dispatch(1) assms(4) dispatch(4)] dispatchRun_same [OF dispatch(1)] dispatch(3)
    show ?thesis by (simp add: same_object_def)
  qed
  then show "refers_to_children R run' w'" and "same_object run run'" by simp_all
qed

text \<open>
  C4. Resuming after a crash starts no second Job. Suppose a reconcile took a Run to Running but its
  status was never written, so that the Run is reconciled again from the old status, on a cluster
  whose ConfigMaps and Jobs are as the first reconcile left them. However the second reconcile ends, it creates
  no ConfigMap and no Job; and if it reaches Running it refers to the very same two objects.
\<close>

theorem resume_starts_no_second_job:
  assumes "child_store (rn_Client R)" and "run_phase run \<in> {RunPhaseUnset, RunPhasePending, RunPhaseDiscovering}"
    and "run_reconcile R run w = Some (oc1, run1, w1)" and "run_phase run1 = RunPhaseRunning"
    and "same_children R w1 w2" and "run_reconcile R run w2 = Some (oc2, run2, w3)"
  shows "same_children R w1 w3 \<and> (run_phase run2 = RunPhaseRunning \<longrightarrow>
      rst_workerJobRef (run_status run2) = rst_workerJobRef (run_status run1) \<and>
      rst_shardConfigMapRef (run_status run2) = rst_shardConfigMapRef (run_status run1))"
proof -
  from running_refers [OF assms(1-4)] obtain cm job where ch: "run_cm R run w1 = Inr cm" "run_job R run w1 = Inr job"
    and r1: "rst_shardConfigMapRef (run_status run1) = Some (cm_ref cm)" "rst_workerJobRef (run_status run1) = Some (job_ref job)"
    by (auto simp: refers_to_children_def same_object_def split: sum.splits)
  from assms(1,2,6) show ?thesis
  proof (cases rule: discovering_step)
    case early
    then show ?thesis using same_children_trans [OF assms(5)] by blast
  next
    case (dispatch m repos runA wA)
    have sc: "same_children R w1 wA" by (rule same_children_trans [OF assms(5) dispatch(2)])
    have id: "run_namespace runA = run_namespace run" "run_name runA = run_name run"
      using dispatch(3) by (simp_all add: same_object_def)
    have "run_cm R runA wA = Inr cm" "run_job R runA wA = Inr job"
      using same_children_get [OF sc, of run] ch by (simp_all add: id)
    from dispatchRun_reuses [OF assms(1) this dispatch(1)] have sc3: "same_children R w1 w3"
      by (rule same_children_trans [OF sc])
    moreover have "rst_workerJobRef (run_status run2) = Some (job_ref job) \<and>
        rst_shardConfigMapRef (run_status run2) = Some (cm_ref cm)" if "run_phase run2 = RunPhaseRunning"
    proof -
      have "refers_to_children R run2 w3" by (rule dispatchRun_children [OF assms(1) dispatch(1) that dispatch(4)])
      moreover have "run_namespace run2 = run_namespace run" "run_name run2 = run_name run"
        using dispatchRun_same [OF dispatch(1)] id by (simp_all add: same_object_def)
      ultimately show ?thesis
        using same_children_get [OF sc3, of run] ch by (simp add: refers_to_children_def)
    qed
    ultimately show ?thesis using r1 by simp
  qed
qed

lemma sim_child_store: "child_store sim_client"
proof -
  have found: "List.find (is_at meta ns name) (obs @ [ob]) = Some ob"
    if "List.find (is_at meta ns name) obs = None" "is_at meta ns name ob" for meta ns name obs and ob :: 'o
    using that by (induction obs) (auto split: if_splits)
  have "Get_ConfigMap sim_client (m_namespace (cm_meta cm)) (m_name (cm_meta cm)) s' = Inr cm'"
    if "Create_ConfigMap sim_client cm s = (Inr cm', s')" "m_name (cm_meta cm) \<noteq> []" for cm s cm' s'
    using that by (auto simp: sim_client_def sim_create_def sim_get_def stamp_def Let_def found is_at_def split: if_splits)
  moreover have "Get_Job sim_client (m_namespace (job_meta job)) (m_name (job_meta job)) s' = Inr job'"
    if "Create_Job sim_client job s = (Inr job', s')" "m_name (job_meta job) \<noteq> []" for job s job' s'
    using that by (auto simp: sim_client_def sim_create_def sim_get_def stamp_def Let_def found is_at_def split: if_splits)
  ultimately show ?thesis
    unfolding child_store_def by (auto simp: keeps_def sim_client_def sim_create_def Let_def)
qed

lemma ex_returns: "\<exists>oc run' w'. run_reconcile ex_R ex_run w = Some (oc, run', w')"
proof -
  have disc: "discoverRepos ex_forge run w \<noteq> None" for run and w :: "(cluster, nat) world"
    by (simp add: discoverRepos_def ex_forge_def split: prod.split)
  have fac: "rn_PlatformClientFactory ex_R spec sec = Inr ex_forge" for spec sec by (simp add: ex_R_def)
  have "False" if "discoverAndDispatch ex_R run w = None" for run and w :: "(cluster, nat) world"
    using that
    by (auto simp: discoverAndDispatch_def fac Let_def split: prod.splits sum.splits option.splits dest: disc [THEN notE])
  then show ?thesis using ex_run_unset by (fastforce simp: run_reconcile_eq)
qed

theorem resume_starts_no_second_job_witness:
  "\<exists>oc1 run1 w1 oc2 run2 w2. run_reconcile ex_R ex_run (ex_world ex_start) = Some (oc1, run1, w1) \<and>
     run_phase run1 = RunPhaseRunning \<and> run_reconcile ex_R ex_run w1 = Some (oc2, run2, w2) \<and> same_children ex_R w1 w2"
proof -
  obtain res job s3 where "way_clear ex_R ex_run (ex_world ex_start) res job s3" by (rule ex_way_clear)
  then obtain oc1 run1 w1 where first: "run_reconcile ex_R ex_run (ex_world ex_start) = Some (oc1, run1, w1)"
    and ph: "run_phase run1 = RunPhaseRunning"
    using run_reaches [of ex_run ex_R "ex_world ex_start"] ex_run_unset by blast
  from ex_returns obtain oc2 run2 w2 where second: "run_reconcile ex_R ex_run w1 = Some (oc2, run2, w2)" by blast
  have "child_store (rn_Client ex_R)" "same_children ex_R w1 w1"
    by (simp_all add: ex_R_def sim_child_store same_children_def)
  from resume_starts_no_second_job [OF this(1) _ first ph this(2) second] first ph second show ?thesis
    by (auto simp: ex_run_unset)
qed

section \<open>A status write that fails\<close>

lemma terminal_count_cluster [simp]: "terminal_count (w\<lparr>w_cluster := s\<rparr>) = terminal_count w"
  by (simp add: terminal_count_def)

text \<open>
  C31. The terminal counter can count a Run twice: the counter is updated before the status is written. When
  the write of a terminal status meets a conflict, the Run is reconciled again from its stored,
  non-terminal status, and if it ends again, as it does when its Job has ended, \<open>runs_total\<close> has grown by two.
\<close>

theorem end_counted_again_after_conflict:
  assumes "Get_Run (rn_Client R) ns name (w_cluster w) = Inr run" and "\<not> isTerminalPhase (run_phase run)"
    and "run_reconcile R run w = Some (oc1, run1, w1)" and "isTerminalPhase (run_phase run1)"
    and "StatusUpdate_Run (rn_Client R) run1 (w_cluster w1) = (Some e, s1)" and "IsConflict e"
    and "Get_Run (rn_Client R) ns name s1 = Inr run'" and "\<not> isTerminalPhase (run_phase run')"
    and "run_reconcile R run' (w1\<lparr>w_cluster := s1\<rparr>) = Some (oc2, run2, w2)" and "isTerminalPhase (run_phase run2)"
  shows "\<exists>w1' oc w2'. run_Reconcile R ns name w = Some ((requeue_in requeueAfterStatusConflict, None), w1') \<and>
    run_Reconcile R ns name w1' = Some (oc, w2') \<and> terminal_count w2' = terminal_count w + 2"
proof -
  let ?w1 = "w1\<lparr>w_cluster := s1\<rparr>"
  have first: "run_Reconcile R ns name w = Some ((requeue_in requeueAfterStatusConflict, None), ?w1)"
    using assms(1,3,5,6) by (cases oc1) (simp add: run_Reconcile_def on_cluster_def)
  obtain ue s2 where up: "StatusUpdate_Run (rn_Client R) run2 (w_cluster w2) = (ue, s2)" by fastforce
  have "\<exists>oc. run_Reconcile R ns name ?w1 = Some (oc, w2\<lparr>w_cluster := s2\<rparr>)"
    using assms(7,9) up by (cases oc2) (auto simp: run_Reconcile_def on_cluster_def split: option.split)
  moreover have "terminal_count w2 = terminal_count w + 2"
    using run_end_count [OF assms(2,3)] run_end_count [OF assms(8,9)] assms(4,10) by simp
  ultimately show ?thesis using first by auto
qed

definition ex_conflict_R :: "(cluster, nat) RenovateRunReconciler" where
  "ex_conflict_R = ex_R\<lparr>rn_Client := sim_client\<lparr>StatusUpdate_Run := (\<lambda>run s. (Some (api_error StatusConflict), s))\<rparr>\<rparr>"

definition ex_running_run :: RenovateRun where
  "ex_running_run = ex_run\<lparr>run_status := fresh_status\<lparr>rst_phase := RunPhaseRunning,
     rst_workerJobRef := Some \<lparr>or_apiVersion = ''batch/v1'', or_kind = ''Job'', or_name = ''gone'',
       or_namespace = ''team'', or_uid = ''''\<rparr>\<rparr>\<rparr>"

lemma ex_vanished:
  assumes "cl_jobs (w_cluster w) = []"
  obtains oc run' w' where "run_reconcile ex_conflict_R ex_running_run w = Some (oc, run', w')"
    and "isTerminalPhase (run_phase run')" and "w_cluster w' = w_cluster w"
proof -
  have "run_reconcile ex_conflict_R ex_running_run w =
      Some (markFailed ex_conflict_R ''worker Job vanished before completion'' (observed ex_running_run) w)"
    using assms by (simp add: run_reconcile_eq observed_def observeJob_def ex_running_run_def ex_conflict_R_def sim_client_def
        sim_get_def Let_def)
  moreover obtain oc run' w' where
    mf: "markFailed ex_conflict_R ''worker Job vanished before completion'' (observed ex_running_run) w = (oc, run', w')"
    by (metis prod_cases3)
  ultimately have "run_reconcile ex_conflict_R ex_running_run w = Some (oc, run', w')" by simp
  moreover have "isTerminalPhase (run_phase run')" using markFailed_run(2) [OF mf] by simp
  ultimately show ?thesis using step_clusters(1) [OF mf] by (rule that)
qed

theorem end_counted_again_after_conflict_witness:
  "\<exists>w1 oc w2. run_Reconcile ex_conflict_R ''team'' ''nightly-1'' (ex_world (empty_cluster\<lparr>cl_runs := [ex_running_run]\<rparr>)) =
       Some ((requeue_in requeueAfterStatusConflict, None), w1) \<and>
     run_Reconcile ex_conflict_R ''team'' ''nightly-1'' w1 = Some (oc, w2) \<and> terminal_count w2 = 2"
proof -
  let ?s = "empty_cluster\<lparr>cl_runs := [ex_running_run]\<rparr>"
  have get: "Get_Run (rn_Client ex_conflict_R) ''team'' ''nightly-1'' ?s = Inr ex_running_run"
    by (simp add: ex_conflict_R_def sim_client_def sim_get_def is_at_def ex_running_run_def ex_run_def)
  have ph: "\<not> isTerminalPhase (run_phase ex_running_run)" by (simp add: ex_running_run_def)
  have up: "StatusUpdate_Run (rn_Client ex_conflict_R) run s = (Some (api_error StatusConflict), s)" for run s
    by (simp add: ex_conflict_R_def)
  have no_jobs: "cl_jobs (w_cluster (ex_world ?s)) = []" by (simp add: ex_world_def empty_cluster_def)
  obtain oc1 run1 w1 where one: "run_reconcile ex_conflict_R ex_running_run (ex_world ?s) = Some (oc1, run1, w1)"
    "isTerminalPhase (run_phase run1)" and w1: "w_cluster w1 = ?s"
    by (rule ex_vanished [OF no_jobs]) (simp add: ex_world_def)
  obtain oc2 run2 w2 where two: "run_reconcile ex_conflict_R ex_running_run (w1\<lparr>w_cluster := ?s\<rparr>) = Some (oc2, run2, w2)"
    "isTerminalPhase (run_phase run2)"
    by (rule ex_vanished [of "w1\<lparr>w_cluster := ?s\<rparr>"]) (simp add: empty_cluster_def)
  have "IsConflict (api_error StatusConflict)" by simp
  moreover have "StatusUpdate_Run (rn_Client ex_conflict_R) run1 (w_cluster w1) = (Some (api_error StatusConflict), ?s)"
    by (simp add: up w1)
  moreover have "Get_Run (rn_Client ex_conflict_R) ''team'' ''nightly-1'' (w_cluster (ex_world ?s)) = Inr ex_running_run"
    using get by (simp add: ex_world_def)
  moreover have "terminal_count (ex_world ?s) = 0" by (simp add: ex_world_def terminal_count_def)
  ultimately show ?thesis
    using end_counted_again_after_conflict [OF _ ph one _ _ get ph two] by (simp add: numeral_2_eq_2)
qed

end
