(* ===== verification/Progress.thy ===== *)
theory Progress
  imports System RunResume
begin

text \<open>
  Progress of the stored objects over several reconciles: a Run goes from its creation to Succeeded, and a
  Scan whose policy blocked it fires once its active Run has ended.
\<close>

section \<open>A Run to its end\<close>

text \<open>The API server stores the status it is sent for this Run.\<close>

definition status_stored :: "'s kclient \<Rightarrow> string \<Rightarrow> string \<Rightarrow> bool" where
  "status_stored K ns name = (\<forall>s cur run. Get_Run K ns name s = Inr cur \<longrightarrow> same_object cur run \<longrightarrow>
     (\<exists>s'. StatusUpdate_Run K run s = (None, s') \<and> Get_Run K ns name s' = Inr run))"

definition all_succeeded :: "Job res \<Rightarrow> bool" where
  "all_succeeded answer = (\<exists>job. answer = Inr job \<and>
     (case js_completions (job_spec job) of None \<Rightarrow> 1 | Some n \<Rightarrow> n) \<le>s jst_succeeded (job_status job))"

lemma observeJob_succeeds:
  assumes "rst_workerJobRef (run_status run) = Some ref"
    and "all_succeeded (Get_Job (rn_Client R) (or_namespace ref) (or_name ref) (w_cluster w))"
  obtains run' w' where "observeJob R run w = ((noRequeue, None), run', w')" and "run_phase run' = RunPhaseSucceeded"
    and "same_object run run'" and "w_cluster w' = w_cluster w"
proof -
  obtain job where "Get_Job (rn_Client R) (or_namespace ref) (or_name ref) (w_cluster w) = Inr job"
    and "(case js_completions (job_spec job) of None \<Rightarrow> 1 | Some n \<Rightarrow> n) \<le>s jst_succeeded (job_status job)"
    using assms(2) by (auto simp: all_succeeded_def)
  with assms(1) obtain run' w' where o: "observeJob R run w = ((noRequeue, None), run', w')"
    and "run_phase run' = RunPhaseSucceeded" "same_object run run'"
    by (simp add: observeJob_def Let_def run_mark_eq read_clock_def same_object_def)
  then show ?thesis using step_clusters(6) [OF o] by (intro that)
qed

lemma run_Reconcile_stored:
  assumes "Get_Run (rn_Client R) ns name (w_cluster w) = Inr run" and "run_reconcile R run w = Some (oc, run', w1)"
    and "status_stored (rn_Client R) ns name" and "same_object run run'"
    and "Get_Run (rn_Client R) ns name (w_cluster w1) = Inr run"
  obtains w' where "run_Reconcile R ns name w = Some (oc, w')"
    and "Get_Run (rn_Client R) ns name (w_cluster w') = Inr run'" and "terminal_count w' = terminal_count w1"
proof -
  from assms(3-5) obtain s' where up: "StatusUpdate_Run (rn_Client R) run' (w_cluster w1) = (None, s')"
    and rd: "Get_Run (rn_Client R) ns name s' = Inr run'"
    unfolding status_stored_def by blast
  have "run_Reconcile R ns name w = Some (oc, w1\<lparr>w_cluster := s'\<rparr>)"
    by (rule run_shell.saved [OF assms(1,2)]) (simp add: on_cluster_def up)
  with rd show ?thesis by (intro that [of "w1\<lparr>w_cluster := s'\<rparr>"]) simp_all
qed

text \<open>
  While a Run is Running: its reconciles, in any state of the rest of the world, and changes by others, which may
  do anything but edit the specification or the status of the stored Run or delete it.
\<close>

inductive watched ::
  "('s, 'n) RenovateRunReconciler \<Rightarrow> string \<Rightarrow> string \<Rightarrow> ('s, 'n) world \<Rightarrow> ('s, 'n) world \<Rightarrow> bool" for R ns name where
  polled: "run_Reconcile R ns name w = Some (oc, w') \<Longrightarrow> watched R ns name w w'"
| others: "Get_Run (rn_Client R) ns name (w_cluster w) = Inr cur \<Longrightarrow>
    Get_Run (rn_Client R) ns name (w_cluster w') = Inr (cur\<lparr>run_meta := m\<rparr>) \<Longrightarrow> watched R ns name w w'"

text \<open>The stored Run is Running, with its specification and Job as they were, or has ended.\<close>

definition on_course ::
  "('s, 'n) RenovateRunReconciler \<Rightarrow> string \<Rightarrow> string \<Rightarrow> RenovateRunSpec \<Rightarrow> ObjectReference \<Rightarrow> ('s, 'n) world \<Rightarrow> RenovateRun \<Rightarrow> bool" where
  "on_course R ns name spec ref w cur =
     (Get_Run (rn_Client R) ns name (w_cluster w) = Inr cur \<and> run_spec cur = spec \<and>
      (isTerminalPhase (run_phase cur) \<or>
       (run_phase cur = RunPhaseRunning \<and> rst_workerJobRef (run_status cur) = Some ref)))"

lemma observeJob_keeps:
  assumes "observeJob R run w = (oc, run', w')" and "run_phase run = RunPhaseRunning"
  shows "same_object run run'" and "w_cluster w' = w_cluster w"
    and "isTerminalPhase (run_phase run') \<or>
      (run_phase run' = RunPhaseRunning \<and> rst_workerJobRef (run_status run') = rst_workerJobRef (run_status run))"
proof -
  show "w_cluster w' = w_cluster w" using assms(1) by (rule step_clusters)
  from assms show "same_object run run'"
    by (auto simp: observeJob_def run_mark_eq read_clock_def same_object_def Let_def
        split: option.splits sum.splits if_splits prod.splits dest: markFailed_run(1))
  from assms show "isTerminalPhase (run_phase run') \<or>
      (run_phase run' = RunPhaseRunning \<and> rst_workerJobRef (run_status run') = rst_workerJobRef (run_status run))"
    by (auto simp: observeJob_def run_mark_eq read_clock_def isTerminalPhase_def Let_def
        split: option.splits sum.splits if_splits prod.splits dest: markFailed_run(2))
qed

lemma observed_running:
  assumes "run_phase run = RunPhaseRunning"
  shows "run_phase (observed run) = RunPhaseRunning" "rst_workerJobRef (run_status (observed run)) = rst_workerJobRef (run_status run)"
    "same_object run (observed run)" "run_reconcile R run w = Some (observeJob R (observed run) w)"
  using assms by (simp_all add: run_reconcile_eq observed_def same_object_def Let_def)

text \<open>One reconcile of a Run on course.\<close>

lemma on_course_polled:
  assumes "on_course R ns name spec ref w cur" and "status_stored (rn_Client R) ns name"
  obtains oc cur' w' where "run_Reconcile R ns name w = Some (oc, w')" and "on_course R ns name spec ref w' cur'"
proof -
  have get: "Get_Run (rn_Client R) ns name (w_cluster w) = Inr cur" and sp: "run_spec cur = spec"
    using assms(1) by (simp_all add: on_course_def)
  have "\<exists>oc cur' w1. run_reconcile R cur w = Some (oc, cur', w1) \<and> same_object cur cur' \<and> w_cluster w1 = w_cluster w \<and>
    (isTerminalPhase (run_phase cur') \<or> (run_phase cur' = RunPhaseRunning \<and> rst_workerJobRef (run_status cur') = Some ref))"
  proof (cases "isTerminalPhase (run_phase cur)")
    case True
    with ended_run_reconcile(2) [OF True] have "isTerminalPhase (run_phase (observed cur))" by metis
    with ended_run_reconcile(1) [OF True, of R w] show ?thesis
      by (intro exI [of _ "(noRequeue, None)"] exI [of _ "observed cur"] exI [of _ w]) (simp add: same_object_def)
  next
    case False
    then have ph: "run_phase cur = RunPhaseRunning" and rf: "rst_workerJobRef (run_status cur) = Some ref"
      using assms(1) by (simp_all add: on_course_def)
    note ob = observed_running(1-3) [OF ph] and step = observed_running(4) [OF ph, of R w]
    obtain oc cur' w1 where o: "observeJob R (observed cur) w = (oc, cur', w1)" by (metis prod_cases3)
    note k = observeJob_keeps [OF o ob(1)]
    have "run_reconcile R cur w = Some (oc, cur', w1)" using o step by simp
    moreover have "same_object cur cur'" using k(1) ob(3) by (simp add: same_object_def)
    ultimately show ?thesis using k(2,3) ob(2) rf by metis
  qed
  then obtain oc cur' w1 where rec: "run_reconcile R cur w = Some (oc, cur', w1)" and so: "same_object cur cur'"
    and cl: "w_cluster w1 = w_cluster w" and on: "isTerminalPhase (run_phase cur') \<or>
      (run_phase cur' = RunPhaseRunning \<and> rst_workerJobRef (run_status cur') = Some ref)" by blast
  obtain w' where "run_Reconcile R ns name w = Some (oc, w')" and "Get_Run (rn_Client R) ns name (w_cluster w') = Inr cur'"
    by (rule run_Reconcile_stored [OF get rec assms(2) so]) (simp add: cl get)
  moreover from this so sp on have "on_course R ns name spec ref w' cur'" by (simp add: on_course_def same_object_def)
  ultimately show ?thesis by (intro that)
qed

lemma on_course_watched:
  assumes "(watched R ns name)\<^sup>*\<^sup>* w w'" and "on_course R ns name spec ref w cur" and "status_stored (rn_Client R) ns name"
  shows "\<exists>cur'. on_course R ns name spec ref w' cur'"
  using assms(1)
proof (induction rule: rtranclp_induct)
  case base
  with assms(2) show ?case by blast
next
  case (step w1 w2)
  then obtain c1 where c1: "on_course R ns name spec ref w1 c1" by blast
  from step.hyps(2) show ?case
  proof cases
    case (polled oc)
    with on_course_polled [OF c1 assms(3)] show ?thesis by (metis option.inject prod.inject)
  next
    case (others cur m)
    with c1 have "on_course R ns name spec ref w2 (cur\<lparr>run_meta := m\<rparr>)" by (simp add: on_course_def)
    then show ?thesis ..
  qed
qed

lemma on_course_succeeds:
  assumes "on_course R ns name spec ref w cur" and "run_phase cur = RunPhaseRunning"
    and "status_stored (rn_Client R) ns name"
    and "all_succeeded (Get_Job (rn_Client R) (or_namespace ref) (or_name ref) (w_cluster w))"
  shows "\<exists>w' run'. run_Reconcile R ns name w = Some ((noRequeue, None), w') \<and>
    Get_Run (rn_Client R) ns name (w_cluster w') = Inr run' \<and> run_phase run' = RunPhaseSucceeded \<and>
    run_spec run' = spec \<and> terminal_count w' = Suc (terminal_count w)"
proof -
  have get: "Get_Run (rn_Client R) ns name (w_cluster w) = Inr cur" and sp: "run_spec cur = spec"
    and rf: "rst_workerJobRef (run_status (observed cur)) = Some ref"
    using assms(1,2) observed_running(2) [OF assms(2)] by (auto simp: on_course_def isTerminalPhase_def)
  obtain run' w1 where o: "observeJob R (observed cur) w = ((noRequeue, None), run', w1)"
    and ph: "run_phase run' = RunPhaseSucceeded" and so: "same_object (observed cur) run'" and cl: "w_cluster w1 = w_cluster w"
    by (rule observeJob_succeeds [OF rf assms(4)])
  have rec: "run_reconcile R cur w = Some ((noRequeue, None), run', w1)"
    using o observed_running(4) [OF assms(2), of R w] by simp
  have so': "same_object cur run'" using so observed_running(3) [OF assms(2)] by (simp add: same_object_def)
  obtain w' where "run_Reconcile R ns name w = Some ((noRequeue, None), w')"
    and "Get_Run (rn_Client R) ns name (w_cluster w') = Inr run'" and "terminal_count w' = terminal_count w1"
    by (rule run_Reconcile_stored [OF get rec assms(3) so']) (simp add: cl get)
  moreover have "terminal_count w1 = Suc (terminal_count w)" using run_end_count [OF _ rec] assms(2) ph by simp
  ultimately show ?thesis using ph so' sp by (auto simp: same_object_def)
qed

text \<open>
  C3. A Run to its end. When the way is clear and status writes are stored, the first reconcile of a
  new Run returns and leaves it stored as Running. From then on, after any number of further reconciles, which may have noted
  partial results, and whatever else has changed meanwhile except the Run's own specification and status, the Run is stored with its
  specification and is Running or has ended; and as long as it is Running, a reconcile that finds all completions of its Job succeeded returns,
  leaves it stored as Succeeded and counts its end once.
\<close>

theorem run_completes:
  assumes "Get_Run (rn_Client R) ns name (w_cluster w) = Inr run"
    and "run_phase run \<in> {RunPhaseUnset, RunPhasePending, RunPhaseDiscovering}"
    and "way_clear R run w res job s3" and "Get_Run (rn_Client R) ns name s3 = Inr run"
    and "sound_libs R" and "run_wf (rn_meta R) run" and "status_stored (rn_Client R) ns name"
  shows "\<exists>w1 run1 ref. run_Reconcile R ns name w = Some ((noRequeue, None), w1) \<and>
    Get_Run (rn_Client R) ns name (w_cluster w1) = Inr run1 \<and> run_phase run1 = RunPhaseRunning \<and>
    rst_actualWorkers (run_status run1) = ActualWorkers res \<and> rst_workerJobRef (run_status run1) = Some ref \<and>
    or_name ref = m_name (job_meta job) \<and> or_uid ref = m_uid (job_meta job) \<and>
    (\<forall>w2. (watched R ns name)\<^sup>*\<^sup>* w1 w2 \<longrightarrow>
      (\<exists>cur. Get_Run (rn_Client R) ns name (w_cluster w2) = Inr cur \<and> run_spec cur = run_spec run \<and>
        (isTerminalPhase (run_phase cur) \<or> run_phase cur = RunPhaseRunning) \<and>
        (run_phase cur = RunPhaseRunning \<longrightarrow>
         all_succeeded (Get_Job (rn_Client R) (or_namespace ref) (or_name ref) (w_cluster w2)) \<longrightarrow>
         (\<exists>w3 run2. run_Reconcile R ns name w2 = Some ((noRequeue, None), w3) \<and>
           Get_Run (rn_Client R) ns name (w_cluster w3) = Inr run2 \<and> run_phase run2 = RunPhaseSucceeded \<and>
           run_spec run2 = run_spec run \<and> terminal_count w3 = Suc (terminal_count w2)))))"
proof -
  from run_reaches [OF assms(2,3)] obtain run1 w' where rec: "run_reconcile R run w = Some ((noRequeue, None), run1, w')"
    and ph: "run_phase run1 = RunPhaseRunning" and k: "rst_actualWorkers (run_status run1) = ActualWorkers res"
    and w': "w_cluster w' = s3" and "map_option or_name (rst_workerJobRef (run_status run1)) = Some (m_name (job_meta job))"
    and "map_option or_uid (rst_workerJobRef (run_status run1)) = Some (m_uid (job_meta job))" by blast
  then obtain ref where ref: "rst_workerJobRef (run_status run1) = Some ref" "or_name ref = m_name (job_meta job)"
    "or_uid ref = m_uid (job_meta job)" by auto
  have same: "same_object run run1" using run_reconcile_wf [OF assms(5,6) rec] by blast
  obtain w1 where first: "run_Reconcile R ns name w = Some ((noRequeue, None), w1)"
    and stored: "Get_Run (rn_Client R) ns name (w_cluster w1) = Inr run1"
    by (rule run_Reconcile_stored [OF assms(1) rec assms(7) same]) (simp add: w' assms(4))
  have start: "on_course R ns name (run_spec run) ref w1 run1"
    using stored ph ref(1) same by (simp add: on_course_def same_object_def)
  have "\<exists>cur. Get_Run (rn_Client R) ns name (w_cluster w2) = Inr cur \<and> run_spec cur = run_spec run \<and>
      (isTerminalPhase (run_phase cur) \<or> run_phase cur = RunPhaseRunning) \<and>
      (run_phase cur = RunPhaseRunning \<longrightarrow>
       all_succeeded (Get_Job (rn_Client R) (or_namespace ref) (or_name ref) (w_cluster w2)) \<longrightarrow>
       (\<exists>w3 run2. run_Reconcile R ns name w2 = Some ((noRequeue, None), w3) \<and>
         Get_Run (rn_Client R) ns name (w_cluster w3) = Inr run2 \<and> run_phase run2 = RunPhaseSucceeded \<and>
         run_spec run2 = run_spec run \<and> terminal_count w3 = Suc (terminal_count w2)))"
    if reach: "(watched R ns name)\<^sup>*\<^sup>* w1 w2" for w2
  proof -
    from on_course_watched [OF reach start assms(7)] obtain cur where c: "on_course R ns name (run_spec run) ref w2 cur" ..
    then show ?thesis using on_course_succeeds [OF c _ assms(7)] unfolding on_course_def by blast
  qed
  with first stored ph k ref show ?thesis by blast
qed

lemma sim_status_stored: "status_stored sim_client ns name"
  unfolding status_stored_def
proof (intro allI impI)
  fix s cur run
  assume get: "Get_Run sim_client ns name s = Inr cur" and "same_object cur run"
  then have f: "List.find (is_at run_meta ns name) (cl_runs s) = Some cur"
    by (simp add: sim_client_def sim_get_def split: option.splits)
  then have "is_at run_meta ns name cur" by (auto simp: find_Some_iff)
  with \<open>same_object cur run\<close> have "run_key run = (ns, name)" by (auto simp: is_at_def same_object_def)
  with f have "List.find (is_at run_meta ns name) (sim_replace run_meta run (cl_runs s)) = Some run"
    by (simp add: find_replaced)
  then show "\<exists>s'. StatusUpdate_Run sim_client run s = (None, s') \<and> Get_Run sim_client ns name s' = Inr run"
    by (simp add: sim_client_def sim_get_def)
qed

text \<open>The example with two shards: one reconcile notes the first of them, the next one the second.\<close>

theorem run_completes_witness:
  "\<exists>w1 w2 oc w3 w4 w5 run3 run5. run_Reconcile ex_R ''team'' ''nightly-1'' (ex_world ex_start) = Some ((noRequeue, None), w1) \<and>
     run_Reconcile ex_R ''team'' ''nightly-1'' w2 = Some (oc, w3) \<and>
     Get_Run sim_client ''team'' ''nightly-1'' (w_cluster w3) = Inr run3 \<and> rst_succeededShards (run_status run3) = 1 \<and>
     run_Reconcile ex_R ''team'' ''nightly-1'' w4 = Some ((noRequeue, None), w5) \<and>
     Get_Run sim_client ''team'' ''nightly-1'' (w_cluster w5) = Inr run5 \<and> run_phase run5 = RunPhaseSucceeded"
proof -
  obtain res job s3 where clear: "way_clear ex_R ex_run (ex_world ex_start) res job s3" and "cl_runs s3 = [ex_run]"
    by (rule ex_way_clear)
  have K: "rn_Client ex_R = sim_client" by (simp add: ex_R_def)
  have at: "Get_Run (rn_Client ex_R) ''team'' ''nightly-1'' s = Inr ex_run" if "cl_runs s = [ex_run]" for s
    using that by (simp add: K sim_client_def sim_get_def is_at_def ex_run_def)
  have "new_run ex_run" by (simp add: new_run_def ex_run_def)
  then have wf: "run_wf (rn_meta ex_R) ex_run" by (rule new_run_wf [OF ex_sound])
  have get0: "Get_Run (rn_Client ex_R) ''team'' ''nightly-1'' (w_cluster (ex_world ex_start)) = Inr ex_run"
    by (rule at) (simp add: ex_world_def ex_start_def)
  have ph: "run_phase ex_run \<in> {RunPhaseUnset, RunPhasePending, RunPhaseDiscovering}" by (simp add: ex_run_unset)
  have st: "status_stored (rn_Client ex_R) ''team'' ''nightly-1''" by (simp add: K sim_status_stored)
  obtain w1 run1 and ref :: ObjectReference where
    first: "run_Reconcile ex_R ''team'' ''nightly-1'' (ex_world ex_start) = Some ((noRequeue, None), w1)"
    and get1: "Get_Run sim_client ''team'' ''nightly-1'' (w_cluster w1) = Inr run1" and ph1: "run_phase run1 = RunPhaseRunning"
    and ref1: "rst_workerJobRef (run_status run1) = Some ref"
    and later: "\<forall>w2. (watched ex_R ''team'' ''nightly-1'')\<^sup>*\<^sup>* w1 w2 \<longrightarrow>
      (\<exists>cur. Get_Run sim_client ''team'' ''nightly-1'' (w_cluster w2) = Inr cur \<and> run_spec cur = run_spec ex_run \<and>
        (isTerminalPhase (run_phase cur) \<or> run_phase cur = RunPhaseRunning) \<and>
        (run_phase cur = RunPhaseRunning \<longrightarrow>
         all_succeeded (Get_Job sim_client (or_namespace ref) (or_name ref) (w_cluster w2)) \<longrightarrow>
         (\<exists>w3 run2. run_Reconcile ex_R ''team'' ''nightly-1'' w2 = Some ((noRequeue, None), w3) \<and>
           Get_Run sim_client ''team'' ''nightly-1'' (w_cluster w3) = Inr run2 \<and> run_phase run2 = RunPhaseSucceeded \<and>
           run_spec run2 = run_spec ex_run \<and> terminal_count w3 = Suc (terminal_count w2))))"
    using run_completes [OF get0 ph clear at [OF \<open>cl_runs s3 = [ex_run]\<close>] ex_sound wf st, unfolded K]
    by blast
  define jb where "jb n = job_meta_update (\<lambda>m. m\<lparr>m_name := or_name ref, m_namespace := or_namespace ref\<rparr>) (ex_job n)" for n
  define jobbed where "jobbed n w = w\<lparr>w_cluster := (w_cluster w)\<lparr>cl_jobs := [jb n]\<rparr>\<rparr>" for n and w :: "(cluster, nat) world"
  have job: "Get_Job sim_client (or_namespace ref) (or_name ref) (w_cluster (jobbed n w)) = Inr (jb n)" for n w
    by (simp add: sim_client_def sim_get_def is_at_def jb_def jobbed_def ex_job_meta)
  have jobs: "js_completions (job_spec (jb n)) = Some 2" "jst_succeeded (job_status (jb n)) = n"
    "jst_conditions (job_status (jb n)) = []" for n
    by (simp_all add: jb_def ex_job_meta) (simp add: ex_job_def)
  have same: "Get_Run sim_client a b (w_cluster (jobbed n w)) = Get_Run sim_client a b (w_cluster w)" for a b n w
    by (simp add: sim_client_def jobbed_def)
  have move: "watched ex_R ''team'' ''nightly-1'' w (jobbed n w)"
    if "Get_Run sim_client ''team'' ''nightly-1'' (w_cluster w) = Inr r" for w r n
    by (rule others [where cur = r and m = "run_meta r"]) (use that in \<open>simp_all add: K same\<close>)
  let ?w2 = "jobbed 1 w1"
  note ob = observed_running [OF ph1] and again = observed_running(4) [OF ph1, of ex_R ?w2]
  obtain oc run3 w' where o: "observeJob ex_R (observed run1) ?w2 = (oc, run3, w')"
    and run3: "run_phase run3 = RunPhaseRunning" "rst_succeededShards (run_status run3) = 1" "same_object run1 run3"
    and w': "w_cluster w' = w_cluster ?w2"
    using job [of 1 w1] ref1 ob(1-3)
    by (simp add: observeJob_def K Let_def jobs same_object_def word_sle_eq)
  have rec: "run_reconcile ex_R run1 ?w2 = Some (oc, run3, w')" using o again by simp
  have get2: "Get_Run (rn_Client ex_R) ''team'' ''nightly-1'' (w_cluster ?w2) = Inr run1" using get1 by (simp add: K same)
  obtain w3 where second: "run_Reconcile ex_R ''team'' ''nightly-1'' ?w2 = Some (oc, w3)"
    and get3: "Get_Run sim_client ''team'' ''nightly-1'' (w_cluster w3) = Inr run3"
    by (rule run_Reconcile_stored [OF get2 rec st run3(3)]) (use get2 w' in \<open>simp_all add: K\<close>)
  let ?w4 = "jobbed 2 w3"
  have "(watched ex_R ''team'' ''nightly-1'')\<^sup>*\<^sup>* w1 ?w4"
    using move [OF get1, of 1] polled [OF second] move [OF get3, of 2]
    by (meson converse_rtranclp_into_rtranclp r_into_rtranclp)
  moreover have "all_succeeded (Get_Job sim_client (or_namespace ref) (or_name ref) (w_cluster ?w4))"
    by (simp add: all_succeeded_def job jobs)
  moreover have "Get_Run sim_client ''team'' ''nightly-1'' (w_cluster ?w4) = Inr run3" using get3 by (simp add: same)
  ultimately obtain w5 run5 where "run_Reconcile ex_R ''team'' ''nightly-1'' ?w4 = Some ((noRequeue, None), w5)"
    "Get_Run sim_client ''team'' ''nightly-1'' (w_cluster w5) = Inr run5" "run_phase run5 = RunPhaseSucceeded"
    using later run3(1) by (metis sum.inject(2))
  with first second get3 run3(2) show ?thesis by blast
qed

section \<open>A blocked Scan\<close>

text \<open>The Scan passes its gates, has missed a fire, and the API server accepts the Run and the pruning.\<close>

inductive scan_due ::
  "'s RenovateScanReconciler \<Rightarrow> RenovateScan \<Rightarrow> ('s, 'n) world \<Rightarrow> gotime \<Rightarrow> RenovateRun \<Rightarrow> 's \<Rightarrow> bool" for S scan w where
  due: "scan_passes S scan (w_cluster w) platform loc sched scan1 \<Longrightarrow>
    computeFireTimes sched (sst_lastRunTime (scan_status scan1)) (scan_now S w) loc = Some (missed, nextFire) \<Longrightarrow>
    \<not> IsZero missed \<Longrightarrow> Create_Run (sc_Client S) (newRun S scan platform missed) (w_cluster w) = (Inr run, s1) \<Longrightarrow>
    gcOldRuns S scan s1 = (None, s2) \<Longrightarrow> scan_due S scan w missed run s2"

lemma no_holder_not_skipped:
  assumes "reads_runs (sc_Client S) view" and "scan_passes S scan (w_cluster w) platform loc sched scan1"
    and "holders (m_uid (scan_meta scan)) (view (w_cluster w)) = {}"
  shows "\<not> shouldSkipForConcurrency scan1"
proof -
  have rf: "refreshActiveRuns S (scan_observed scan) (w_cluster w) = Inr scan1" using assms(2) by (simp add: scan_passes_def)
  obtain runs where l: "List_Runs (sc_Client S) (m_namespace (scan_meta scan)) (w_cluster w) = Inr runs"
    using refreshActiveRuns_frame(4) [OF rf] by auto
  have "isTerminal (run_phase r)" if "r \<in> set runs" "ownedByScan r scan" for r
  proof -
    have "view (w_cluster w) (run_key r) = Some r" using assms(1) l that(1) unfolding reads_runs_def by blast
    moreover have "owned_by (m_uid (scan_meta scan)) r" using that(2) by (simp add: ownedByScan_uid)
    ultimately show ?thesis using assms(3) unfolding holders_def by blast
  qed
  then have "sst_activeRuns (scan_status scan1) = []"
    using refreshActiveRuns_status(1) [OF _ rf] l by (auto simp: filter_empty_conv ownedByScan_def)
  then show ?thesis by (simp add: shouldSkip_active)
qed

lemma fired_holds:
  assumes "run_store (sc_Client S) view" and "sort_law S" and "scan_due S scan w missed run s2"
    and "holders (m_uid (scan_meta scan)) (view (w_cluster w)) = {}"
  obtains oc scan' w' where "scan_reconcile S scan w = Some (oc, scan', w')" and "w_cluster w' = s2"
    and "sst_lastRunTime (scan_status scan') = Some missed"
    and "holders (m_uid (scan_meta scan)) (view s2) = {run_key run}"
  using assms(3)
proof cases
  case (due platform loc sched scan1 nextFire s1)
  let ?u = "m_uid (scan_meta scan)"
  have Rd: "reads_runs (sc_Client S) view" and W: "writes_runs (sc_Client S) view"
    using assms(1) by (simp_all add: run_store_def)
  have skip: "\<not> shouldSkipForConcurrency scan1" by (rule no_holder_not_skipped [OF Rd due(1) assms(4)])
  have "idle scan (view (w_cluster w))"
    using assms(4) unfolding idle_def holders_def ownedByScan_uid by blast
  then have f: "fires scan run (view (w_cluster w)) (view s1)" by (blast intro: created_fires [OF W due(4)])
  have v1: "view s1 = (view (w_cluster w))(run_key run \<mapsto> run)" and own: "owned_by ?u run" and new: "new_run run"
    using f unfolding fires_def starts_def by blast+
  have act: "\<not> isTerminal (run_phase run)" using new by (simp add: new_run_def fresh_status_def isTerminal_def)
  have p: "prunes scan (view s1) (view s2)" by (rule gcOldRuns_prunes [OF assms(1,2) due(5)])
  then have "view s2 (run_key run) = Some run" using v1 act unfolding prunes_def by (metis fun_upd_same option.inject)
  then have "run_key run \<in> holders ?u (view s2)" using own act unfolding holders_def by blast
  moreover have "holders ?u (view s1) \<subseteq> {run_key run}" using assms(4) by (auto simp: holders_def v1 split: if_splits)
  ultimately have "holders ?u (view s2) = {run_key run}" using prunes_holders [OF p, of ?u] by blast
  with scan_reconcile_creates [OF due(1-3) skip due(4,5)] show ?thesis using that by blast
qed

text \<open>
  C12. A blocked Scan fires next. Let the only active Run of a Scan be Running, with its Job ended or gone. Then one
  reconcile of that Run returns, and in every later state with the same stored Runs in which the Scan is due, its
  reconcile returns, records the missed fire, and leaves the new Run as the Scan's only active one, whatever its policy.
\<close>

theorem blocked_scan_fires_next:
  assumes "operator_ok Q view" and "runs_wf (op_meta Q) (view (w_cluster w))"
    and "Get_Run (rn_Client (op_run Q)) ns name (w_cluster w) = Inr run" and "run_phase run = RunPhaseRunning"
    and "\<forall>ref. rst_workerJobRef (run_status run) = Some ref \<longrightarrow>
      job_over (Get_Job (rn_Client (op_run Q)) (or_namespace ref) (or_name ref) (w_cluster w))"
    and "\<forall>run'. same_object run run' \<longrightarrow> fst (StatusUpdate_Run (rn_Client (op_run Q)) run' (w_cluster w)) = None"
    and "holders (m_uid (scan_meta scan)) (view (w_cluster w)) = {(ns, name)}"
  shows "\<exists>oc w1. run_Reconcile (op_run Q) ns name w = Some (oc, w1) \<and>
    (\<forall>w2 missed new s2. view (w_cluster w2) = view (w_cluster w1) \<longrightarrow> scan_due (op_scan Q) scan w2 missed new s2 \<longrightarrow>
      (\<exists>oc' scan' w3. scan_reconcile (op_scan Q) scan w2 = Some (oc', scan', w3) \<and> w_cluster w3 = s2 \<and>
        sst_lastRunTime (scan_status scan') = Some missed \<and> holders (m_uid (scan_meta scan)) (view s2) = {run_key new}))"
proof -
  let ?u = "m_uid (scan_meta scan)"
  have S: "run_store (sc_Client (op_scan Q)) view" "sort_law (op_scan Q)" using assms(1) by (simp_all add: operator_ok_def)
  obtain oc w1 where first: "run_Reconcile (op_run Q) ns name w = Some (oc, w1)"
    and "holders ?u (view (w_cluster w1)) = {}"
    using ended_job_releases_lock [OF assms(1-6)] assms(7) by auto
  then have "\<exists>oc' scan' w3. scan_reconcile (op_scan Q) scan w2 = Some (oc', scan', w3) \<and> w_cluster w3 = s2 \<and>
      sst_lastRunTime (scan_status scan') = Some missed \<and> holders ?u (view s2) = {run_key new}"
    if "view (w_cluster w2) = view (w_cluster w1)" and "scan_due (op_scan Q) scan w2 missed new s2" for w2 missed new s2
    using fired_holds [OF S that(2)] that(1) by (metis (no_types, lifting))
  with first show ?thesis by blast
qed

text \<open>The blocked Scan of the example: its only Run is Running, and the Job of that Run is gone.\<close>

definition ex_blocking :: RenovateRun where
  "ex_blocking = run_meta_update (\<lambda>m. m\<lparr>m_ownerReferences := m_ownerReferences (run_meta ex_active)\<rparr>) ex_orphan"

definition ex_blocked :: "RenovateRun \<Rightarrow> (cluster, nat) world" where
  "ex_blocked run = ex_quiet\<lparr>w_cluster := (w_cluster ex_quiet)\<lparr>cl_runs := [run]\<rparr>, w_ticks := 1\<rparr>"

lemma ex_blocked_simps [simp]:
  "cl_runs (w_cluster (ex_blocked run)) = [run]" "w_ticks (ex_blocked run) = 1"
  "cl_jobs (w_cluster (ex_blocked run)) = []" "cl_next (w_cluster (ex_blocked run)) = 7"
  by (simp_all add: ex_blocked_def ex_quiet_def ex_scan_world_def ex_scan_cluster_def empty_cluster_def)

lemma ex_blocked_view: "sim_view (w_cluster (ex_blocked run)) = [run_key run \<mapsto> run]"
  by (auto simp: sim_view_def fun_eq_iff is_at_def)

lemma ex_freed_due:
  assumes "run_key run = (''team'', ''nightly-1'')" and "owned_by ''scan-uid'' run" and "run_phase run = RunPhaseFailed"
    and "rst_completionTime (run_status run) = Some (ex_clock 1)"
  obtains missed new s2 where "scan_due (op_scan ex_Q) ex_forbid_scan (ex_blocked run) missed new s2"
proof -
  let ?S = "op_scan ex_Q" and ?w = "ex_blocked run"
  define scan1 where "scan1 = on_sstatus (refreshed (scan_observed ex_forbid_scan) [run]) (scan_observed ex_forbid_scan)"
  have own: "ownedByScan run ex_forbid_scan" "ownedByScan run (scan_observed ex_forbid_scan)"
    using assms(2) by (simp_all add: ownedByScan_uid ex_forbid_scan_def ex_hourly_scan_def)
  have ns: "m_namespace (scan_meta ex_forbid_scan) = ''team''" by (simp add: ex_forbid_scan_def ex_hourly_scan_def)
  have list: "List_Runs (sc_Client ?S) ''team'' (w_cluster ?w) = Inr [run]"
    using assms(1) by (simp add: store_client_def ex_blocked_view)
  have rf: "refreshActiveRuns ?S (scan_observed ex_forbid_scan) (w_cluster ?w) = Inr scan1"
    using list by (simp add: refreshActiveRuns_eq scan1_def ns)
  have pass: "scan_passes ?S ex_forbid_scan (w_cluster ?w) ex_ready_platform ''UTC'' hourly scan1"
    using ex_quiet_passes rf
    by (simp add: scan_passes_def ex_blocked_def store_client_def sim_client_def sim_get_def)
  have last: "sst_lastRunTime (scan_status scan1) = Some (ex_clock 1)"
    using own assms(3,4) by (simp add: scan1_def completions_def isTerminal_def later_def Let_def)
  let ?now = "scan_now ?S ?w"
  have now: "wall ?now = nanos_per_hour + 2" by (simp add: ex_Q_def ex_S_def ex_scan_clock_def)
  have win: "window_start (Some (ex_clock 1)) ?now = nanos_per_second" by (simp add: window_start_def ex_clock_def)
  have big: "window_start (Some (ex_clock 1)) ?now \<le> wall ?now"
    unfolding win now by (simp add: nanos_per_hour_def nanos_per_second_def)
  obtain m n where cf: "computeFireTimes hourly (Some (ex_clock 1)) ?now ''UTC'' = Some (m, n)"
    and lf: "last_fire hours nanos_per_second (nanos_per_hour + 2) m"
    using computeFireTimes_returns [OF hourly_law big hourly_keeps_firing, of "''UTC''"] unfolding win now by blast
  have "wall m = nanos_per_hour"
    by (rule last_fire_eq [OF lf]) (use next_hour(2) [of _ nanos_per_hour] in
      \<open>fastforce simp: ticks_def nanos_per_hour_def nanos_per_second_def\<close>)+
  then have mz: "\<not> IsZero m" by (simp add: IsZero_def zero_wall_def nanos_per_hour_def nanos_per_second_def)
  define new where "new = run_meta_update (stamp 7) (newRun ?S ex_forbid_scan ex_ready_platform m)"
  define s1 where "s1 = (w_cluster ?w)\<lparr>cl_runs := [run, new], cl_next := 8\<rparr>"
  have cr: "Create_Run (sc_Client ?S) (newRun ?S ex_forbid_scan ex_ready_platform m) (w_cluster ?w) = (Inr new, s1)"
    using assms(1) by (simp add: store_client_def sim_client_def sim_create_def new_def s1_def is_at_def Let_def
        stamp_def newRun_def ex_forbid_scan_def ex_hourly_scan_def empty_meta_def itoa_nat.simps digit_char_def
        char_of_def)
  have new_ph: "run_phase new = RunPhaseUnset"
  proof -
    have "new_run new" using newRun_facts(1) by (simp add: new_def new_run_def)
    then show ?thesis by (simp add: new_run_def fresh_status_def)
  qed
  have gc: "gcOldRuns ?S ex_forbid_scan s1 = (None, s1)"
    using assms(3) new_ph by (simp add: gcOldRuns_def store_client_def s1_def deleteOldest_def ex_forbid_scan_def
        ex_hourly_scan_def Let_def)
  have "computeFireTimes hourly (sst_lastRunTime (scan_status scan1)) ?now ''UTC'' = Some (m, n)" using cf by (simp only: last)
  from that [OF scan_due.due [OF pass this mz cr gc]] show thesis .
qed

lemma ex_blocking_facts:
  "run_key ex_blocking = (''team'', ''nightly-1'')" "run_phase ex_blocking = RunPhaseRunning"
  "owned_by ''scan-uid'' ex_blocking" "run_wf ref_meta ex_blocking"
  using ex_orphan_wf by (simp_all add: ex_blocking_def ex_orphan_def ex_run_def run_wf_def owned_by_def ex_active_def
      ex_owned_run_def)

lemma ex_freed:
  obtains run w1 where
    "run_Reconcile (op_run ex_Q) ''team'' ''nightly-1'' (ex_blocked ex_blocking) = Some ((noRequeue, None), w1)"
    and "cl_runs (w_cluster w1) = [run]" and "run_key run = (''team'', ''nightly-1'')" and "owned_by ''scan-uid'' run"
    and "run_phase run = RunPhaseFailed" and "rst_completionTime (run_status run) = Some (ex_clock 1)"
proof -
  let ?R = "op_run ex_Q" and ?w = "ex_blocked ex_blocking" and ?run = "observed ex_blocking"
  have K: "rn_Client ?R = store_client" "rn_Clock ?R = ex_clock" by (simp_all add: ex_Q_def ex_R_def)
  have ph: "run_phase ex_blocking = RunPhaseRunning" by (simp add: ex_blocking_facts)
  obtain run w1 where o: "markFailed ?R ''worker Job vanished before completion'' ?run ?w = ((noRequeue, None), run, w1)"
    and "run_phase run = RunPhaseFailed" and ct: "rst_completionTime (run_status run) = Some (ex_clock 1)"
    and same: "same_object ?run run"
    by (simp add: markFailed_def run_mark_eq read_clock_def same_object_def Let_def K)
  have key: "run_key run = (''team'', ''nightly-1'')" and own: "owned_by ''scan-uid'' run"
    using same ex_blocking_facts by (auto simp: same_object_def observed_def owned_by_def Let_def split: if_splits)
  have "rst_workerJobRef (run_status ?run) \<noteq> None" by (simp add: ex_blocking_def ex_orphan_def observed_def Let_def)
  then have "observeJob ?R ?run ?w = ((noRequeue, None), run, w1)"
    using o by (auto simp: observeJob_def K store_client_def sim_client_def sim_get_def split: option.split)
  then have rec: "run_reconcile ?R ex_blocking ?w = Some ((noRequeue, None), run, w1)" by (simp add: run_reconcile_eq ph)
  have get: "Get_Run (rn_Client ?R) ''team'' ''nightly-1'' (w_cluster ?w) = Inr ex_blocking"
    using ex_blocking_facts(1) by (simp add: K store_client_def sim_client_def sim_get_def is_at_def)
  have w1: "w_cluster w1 = w_cluster ?w" by (rule step_clusters(1) [OF o])
  obtain w2 where up: "on_cluster (StatusUpdate_Run (rn_Client ?R) run) w1 = (None, w2)" and "cl_runs (w_cluster w2) = [run]"
    using key ex_blocking_facts(1)
    by (simp add: on_cluster_def K store_client_def sim_client_def w1 sim_replace_def is_at_def)
  with run_shell.saved [OF get rec up] key own \<open>run_phase run = _\<close> ct show ?thesis by (intro that)
qed

theorem blocked_scan_fires_next_witness:
  "\<exists>oc w1 (w2 :: (cluster, nat) world) missed new s2 oc' scan' w3. run_Reconcile (op_run ex_Q) ''team'' ''nightly-1'' (ex_blocked ex_blocking) = Some (oc, w1) \<and>
     sim_view (w_cluster w2) = sim_view (w_cluster w1) \<and> scan_due (op_scan ex_Q) ex_forbid_scan w2 missed new s2 \<and>
     scan_reconcile (op_scan ex_Q) ex_forbid_scan w2 = Some (oc', scan', w3) \<and>
     holders ''scan-uid'' (sim_view (w_cluster w3)) = {run_key new}"
proof -
  let ?w = "ex_blocked ex_blocking"
  obtain run w1 where first: "run_Reconcile (op_run ex_Q) ''team'' ''nightly-1'' ?w = Some ((noRequeue, None), w1)"
    and runs: "cl_runs (w_cluster w1) = [run]" and r: "run_key run = (''team'', ''nightly-1'')" "owned_by ''scan-uid'' run"
      "run_phase run = RunPhaseFailed" "rst_completionTime (run_status run) = Some (ex_clock 1)" by (rule ex_freed)
  obtain missed new s2 where due: "scan_due (op_scan ex_Q) ex_forbid_scan (ex_blocked run) missed new s2"
    by (rule ex_freed_due [OF r])
  have same: "sim_view (w_cluster (ex_blocked run)) = sim_view (w_cluster w1)" by (rule sim_view_cong) (simp add: runs)
  have u: "m_uid (scan_meta ex_forbid_scan) = ''scan-uid''" by (simp add: ex_forbid_scan_def ex_hourly_scan_def)
  have "op_meta ex_Q = ref_meta" by (simp add: ex_Q_def ex_R_def)
  then have wf: "runs_wf (op_meta ex_Q) (sim_view (w_cluster ?w))"
    using ex_blocking_facts by (simp add: runs_wf_def ex_blocked_view)
  have K: "rn_Client (op_run ex_Q) = store_client" by (simp add: ex_Q_def)
  have get: "Get_Run (rn_Client (op_run ex_Q)) ''team'' ''nightly-1'' (w_cluster ?w) = Inr ex_blocking"
    using ex_blocking_facts(1) by (simp add: K store_client_def sim_client_def sim_get_def is_at_def)
  have gone: "\<forall>ref. rst_workerJobRef (run_status ex_blocking) = Some ref \<longrightarrow>
      job_over (Get_Job (rn_Client (op_run ex_Q)) (or_namespace ref) (or_name ref) (w_cluster ?w))"
    by (simp add: job_over_def K store_client_def sim_client_def sim_get_def)
  have up: "\<forall>run'. same_object ex_blocking run' \<longrightarrow>
      fst (StatusUpdate_Run (rn_Client (op_run ex_Q)) run' (w_cluster ?w)) = None"
    by (simp add: K store_client_def sim_client_def)
  have held: "holders (m_uid (scan_meta ex_forbid_scan)) (sim_view (w_cluster ?w)) = {(''team'', ''nightly-1'')}"
    using ex_blocking_facts by (auto simp: holders_def ex_blocked_view u isTerminal_def)
  obtain oc w1' where first': "run_Reconcile (op_run ex_Q) ''team'' ''nightly-1'' ?w = Some (oc, w1')"
    and later: "\<forall>(w2 :: (cluster, nat) world) missed new s2. sim_view (w_cluster w2) = sim_view (w_cluster w1') \<longrightarrow>
      scan_due (op_scan ex_Q) ex_forbid_scan w2 missed new s2 \<longrightarrow>
      (\<exists>oc' scan' w3. scan_reconcile (op_scan ex_Q) ex_forbid_scan w2 = Some (oc', scan', w3) \<and> w_cluster w3 = s2 \<and>
        sst_lastRunTime (scan_status scan') = Some missed \<and> holders ''scan-uid'' (sim_view s2) = {run_key new})"
    using blocked_scan_fires_next [OF ex_operator_ok wf get ex_blocking_facts(2) gone up held, unfolded u]
    by (elim exE conjE) (rule that)
  have "w1' = w1" using first first' by simp
  with same have "sim_view (w_cluster (ex_blocked run)) = sim_view (w_cluster w1')" by simp
  from later [rule_format, OF this due] obtain oc' scan' w3 where
    second: "scan_reconcile (op_scan ex_Q) ex_forbid_scan (ex_blocked run) = Some (oc', scan', w3)" and "w_cluster w3 = s2"
    and "holders ''scan-uid'' (sim_view s2) = {run_key new}" by (elim exE conjE) (rule that)
  then have held': "holders ''scan-uid'' (sim_view (w_cluster w3)) = {run_key new}" by simp
  show ?thesis by (intro exI conjI, rule first, rule same, rule due, rule second, rule held')
qed

end
