(* ===== verification/Production.thy ===== *)
theory Production
  imports System Wiring
begin

text \<open>
  The operator as the binary puts it together: the scheme \<open>cmd/main.go\<close> and \<open>api/v1alpha1\<close> fill, the
  fields that \<open>SetupWithManager\<close> gives their production values, and the three reconcilers \<open>main\<close> creates;
  and what follows for the credentials the Platform and the Run controller share.
\<close>

section \<open>The scheme\<close>

text \<open>
  A scheme is a list of registered API versions and kinds, and controller-runtime's builder collects kinds in the
  order they are given to it. The \<open>init\<close> functions of the three type files run in the order of the file names;
  \<open>clientgoscheme\<close> is what client-go registers.
\<close>

type_synonym runtime_scheme = "(string \<times> string) list"

definition Register :: "string list \<Rightarrow> string list \<Rightarrow> string list" where
  "Register kinds builder = builder @ kinds"

definition init_platform_types :: "string list \<Rightarrow> string list" where
  "init_platform_types = Register [''RenovatePlatform'', ''RenovatePlatformList'']"

definition init_run_types :: "string list \<Rightarrow> string list" where
  "init_run_types = Register [''RenovateRun'', ''RenovateRunList'']"

definition init_scan_types :: "string list \<Rightarrow> string list" where
  "init_scan_types = Register [''RenovateScan'', ''RenovateScanList'']"

definition SchemeBuilder :: "string list" where
  "SchemeBuilder = init_scan_types (init_run_types (init_platform_types []))"

definition AddToScheme :: "runtime_scheme \<Rightarrow> runtime_scheme" where
  "AddToScheme scheme = scheme @ map (Pair GroupVersion) SchemeBuilder"

definition main_scheme :: "runtime_scheme \<Rightarrow> runtime_scheme" where
  "main_scheme clientgoscheme = AddToScheme clientgoscheme"

fun watched_kind :: "watched \<Rightarrow> string \<times> string" where
  "watched_kind (ObjPlatform p) = (GroupVersion, ''RenovatePlatform'')"
| "watched_kind (ObjScan scan) = (GroupVersion, ''RenovateScan'')"
| "watched_kind (ObjRun run) = (GroupVersion, ''RenovateRun'')"
| "watched_kind (ObjSecret secret) = (''v1'', ''Secret'')"
| "watched_kind (ObjConfigMap cm) = (''v1'', ''ConfigMap'')"
| "watched_kind (ObjJob job) = (''batch/v1'', ''Job'')"

text \<open>Every kind a controller watches is registered, so no watch fails for an unknown kind.\<close>

lemma watched_registered:
  assumes "{(''v1'', ''Secret''), (''v1'', ''ConfigMap''), (''batch/v1'', ''Job'')} \<subseteq> set clientgoscheme"
  shows "watched_kind obj \<in> set (main_scheme clientgoscheme)"
  using assms by (cases obj) (auto simp: main_scheme_def AddToScheme_def SchemeBuilder_def init_platform_types_def
      init_run_types_def init_scan_types_def Register_def)

section \<open>The reconcilers of the binary\<close>

text \<open>
  What the binary links: the helpers of \<open>apimachinery\<close>, the clock of the operating system, the time zone data, the cron parser,
  the compressor, the key parsers and the two forge SDKs.
\<close>

record 'n libraries =
  lib_meta :: meta_api
  lib_metaNow :: "nat \<Rightarrow> gotime"
  lib_osClock :: "nat \<Rightarrow> gotime"
  lib_LoadLocation :: "string \<Rightarrow> string res"
  lib_cronParse :: "string \<Rightarrow> schedule res"
  lib_RFC3339 :: "gotime \<Rightarrow> string"
  lib_sortSlice :: "(RenovateRun \<Rightarrow> RenovateRun \<Rightarrow> bool) \<Rightarrow> RenovateRun list \<Rightarrow> RenovateRun list"
  lib_gzip :: "string \<Rightarrow> string res"
  lib_unmarshal :: "string \<Rightarrow> (string \<times> json) list res"
  lib_pemDecode :: "string \<Rightarrow> string option"
  lib_parsePKCS1 :: "string \<Rightarrow> bool"
  lib_parsePKCS8 :: "string \<Rightarrow> bool"
  lib_github :: "'n gh_lib"
  lib_forgejo :: "'n fj_lib"

text \<open>A clock is the sequence of the instants it shows; the production clock is the operating system's.\<close>

type_synonym Clock = "nat \<Rightarrow> gotime"

definition RealClock :: "'n libraries \<Rightarrow> Clock" where
  "RealClock L = lib_osClock L"

text \<open>The fields \<open>SetupWithManager\<close> fills when they are nil.\<close>

definition RenovateRunReconciler_SetupWithManager ::
  "'n libraries \<Rightarrow> Clock option \<Rightarrow> (RenovatePlatformSpec \<Rightarrow> Secret \<Rightarrow> 'n PlatformClient res) option
   \<Rightarrow> Clock \<times> (RenovatePlatformSpec \<Rightarrow> Secret \<Rightarrow> 'n PlatformClient res)" where
  "RenovateRunReconciler_SetupWithManager L clock factory =
     (case clock of None \<Rightarrow> RealClock L | Some c \<Rightarrow> c,
      case factory of None \<Rightarrow> DefaultPlatformClientFactory (lib_github L) (lib_forgejo L) | Some f \<Rightarrow> f)"

definition RenovateScanReconciler_SetupWithManager :: "'n libraries \<Rightarrow> Clock option \<Rightarrow> Clock" where
  "RenovateScanReconciler_SetupWithManager L clock = (case clock of None \<Rightarrow> RealClock L | Some c \<Rightarrow> c)"

text \<open>The reconcilers \<open>main\<close> creates, on the manager's client, with the clock and the factory left nil.\<close>

definition main_operator :: "'n libraries \<Rightarrow> 's kclient \<Rightarrow> main_flags \<Rightarrow> ('s, 'n) operator" where
  "main_operator L K f =
     \<lparr>op_run = (case RenovateRunReconciler_SetupWithManager L None None of (clock, factory) \<Rightarrow>
        \<lparr>rn_Client = K, rn_Clock = clock, rn_OperatorNamespace = operatorNamespace f,
          rn_PlatformClientFactory = factory, rn_meta = lib_meta L, rn_metaNow = lib_metaNow L,
          rn_gzip = lib_gzip L, rn_unmarshal = lib_unmarshal L\<rparr>),
      op_scan = \<lparr>sc_Client = K, sc_Clock = RenovateScanReconciler_SetupWithManager L None, sc_meta = lib_meta L,
          sc_metaNow = lib_metaNow L, sc_LoadLocation = lib_LoadLocation L, sc_cronParse = lib_cronParse L,
          sc_RFC3339 = lib_RFC3339 L, sc_sortSlice = lib_sortSlice L\<rparr>,
      op_platform = \<lparr>pl_Client = K, pl_OperatorNamespace = operatorNamespace f, pl_meta = lib_meta L,
          pl_metaNow = lib_metaNow L, pl_pemDecode = lib_pemDecode L, pl_parsePKCS1 = lib_parsePKCS1 L,
          pl_parsePKCS8 = lib_parsePKCS8 L\<rparr>\<rparr>"

lemma main_operator_simps [simp]:
  "rn_Client (op_run (main_operator L K f)) = K" "sc_Client (op_scan (main_operator L K f)) = K"
  "pl_Client (op_platform (main_operator L K f)) = K"
  "rn_OperatorNamespace (op_run (main_operator L K f)) = operatorNamespace f"
  "pl_OperatorNamespace (op_platform (main_operator L K f)) = operatorNamespace f"
  "rn_PlatformClientFactory (op_run (main_operator L K f)) = DefaultPlatformClientFactory (lib_github L) (lib_forgejo L)"
  "rn_meta (op_run (main_operator L K f)) = lib_meta L" "rn_metaNow (op_run (main_operator L K f)) = lib_metaNow L"
  "sc_sortSlice (op_scan (main_operator L K f)) = lib_sortSlice L"
  by (simp_all add: main_operator_def RenovateRunReconciler_SetupWithManager_def)

text \<open>The properties of the system hold for the binary's operator over a sound API server and sound libraries.\<close>

lemma main_operator_ok:
  assumes "run_store K view" and "meta_conditions (lib_meta L)" and "\<forall>t. \<not> IsZero (lib_metaNow L t)"
    and "sort_law (op_scan (main_operator L K f))"
  shows "operator_ok (main_operator L K f) view"
  using assms by (simp add: operator_ok_def sound_libs_def)

section \<open>Credentials from the check to their use\<close>

text \<open>
  What the API server admits, by the validation rules on the types: a known platform type, exactly one kind of auth, for Forgejo a
  token and a base URL, positive App identifiers, named Secrets.
\<close>

definition admitted_type :: "PlatformType \<Rightarrow> bool" where
  "admitted_type ty = (ty = PlatformTypeGitHub \<or> ty = PlatformTypeForgejo)"

definition admitted_ref :: "SecretKeyReference \<Rightarrow> bool" where
  "admitted_ref ref = (skr_name ref \<noteq> '''')"

definition admitted_app :: "GitHubAppAuth \<Rightarrow> bool" where
  "admitted_app app = (1 \<le> gha_appID app \<and> 1 \<le> gha_installationID app \<and> admitted_ref (gha_privateKeyRef app))"

definition admitted_auth :: "PlatformAuth \<Rightarrow> bool" where
  "admitted_auth auth =
     (case (pa_githubApp auth, pa_token auth) of
        (Some app, None) \<Rightarrow> admitted_app app
      | (None, Some tok) \<Rightarrow> admitted_ref (ta_secretRef tok)
      | _ \<Rightarrow> False)"

definition admitted :: "RenovatePlatformSpec \<Rightarrow> bool" where
  "admitted spec =
     (admitted_type (ps_platformType spec) \<and> admitted_auth (ps_auth spec) \<and>
      (ps_platformType spec \<noteq> PlatformTypeForgejo \<or> pa_token (ps_auth spec) \<noteq> None) \<and>
      (ps_platformType spec \<noteq> PlatformTypeForgejo \<or> ps_baseURL spec \<noteq> ''''))"

lemmas admitted_defs = admitted_def admitted_auth_def admitted_app_def admitted_ref_def admitted_type_def

text \<open>Whether the SDK of the forge refuses the credential \<open>v\<close> or the base URL.\<close>

definition sdk_refuses :: "'n gh_lib \<Rightarrow> 'n fj_lib \<Rightarrow> RenovatePlatformSpec \<Rightarrow> string \<Rightarrow> bool" where
  "sdk_refuses lib fjlib spec v =
     (case pa_githubApp (ps_auth spec) of
        None \<Rightarrow> isl (gitea_NewClient fjlib (TrimRight (ps_baseURL spec) CHR ''/'') v None)
      | Some app \<Rightarrow>
        (case ghinstallation_New lib DefaultTransport (gha_appID app) (gha_installationID app) v of
           Inl e \<Rightarrow> True
         | Inr tr \<Rightarrow> ps_baseURL spec \<noteq> '''' \<and> \<not> isPublicGitHub (ps_baseURL spec) \<and>
             isl (WithEnterpriseURLs lib (gogithub_NewClient lib
               \<lparr>hc_Transport = Some (AppTransport (tr\<lparr>tr_BaseURL := ps_baseURL spec\<rparr>))\<rparr>) (ps_baseURL spec))))"

definition github_with_token :: "RenovatePlatformSpec \<Rightarrow> bool" where
  "github_with_token spec = (ps_platformType spec = PlatformTypeGitHub \<and> pa_githubApp (ps_auth spec) = None)"

lemma resolved_source:
  assumes "resolveAuthRef p = Inr (name, key)" and "rs_platformSnapshot (run_spec run) = plat_spec p"
  shows "SourceSecretName (Some run) = Inr name"
  using assms by (auto simp: resolveAuthRef_def SourceSecretName_def Let_def split: option.splits if_splits)

lemma factory_refuses_iff:
  assumes "admitted (plat_spec p)" and "resolveAuthRef p = Inr (name, key)"
    and "map_of (sec_data secret) key = Some v" and "v \<noteq> ''''"
  shows "isl (DefaultPlatformClientFactory lib fjlib (plat_spec p) secret) \<longleftrightarrow>
    github_with_token (plat_spec p) \<or> sdk_refuses lib fjlib (plat_spec p) v"
proof (cases "pa_githubApp (ps_auth (plat_spec p))")
  case None
  then obtain tok where tok: "pa_token (ps_auth (plat_spec p)) = Some tok"
    using assms(1) by (auto simp: admitted_defs split: option.splits)
  then have key: "key = (if skr_key (ta_secretRef tok) = '''' then defaultTokenKey else skr_key (ta_secretRef tok))"
    using assms(2) None by (auto simp: resolveAuthRef_def Let_def split: if_splits)
  show ?thesis
  proof (cases "ps_platformType (plat_spec p)")
    case PlatformTypeGitHub
    with None show ?thesis by (simp add: DefaultPlatformClientFactory_def github_with_token_def)
  next
    case PlatformTypeForgejo
    moreover have "ps_baseURL (plat_spec p) \<noteq> ''''" using assms(1) PlatformTypeForgejo by (simp add: admitted_defs)
    moreover have "secretValue secret (skr_key (ta_secretRef tok)) defaultTokenKey = Inr v"
      using assms(3) by (simp add: secretValue_def key Let_def)
    ultimately show ?thesis
      using None tok assms(4) by (simp add: DefaultPlatformClientFactory_def github_with_token_def sdk_refuses_def fj_New_def
          Let_def split: sum.split)
  next
    case (OtherPlatformType t)
    with assms(1) show ?thesis by (simp add: admitted_defs)
  qed
next
  case (Some app)
  then have ty: "ps_platformType (plat_spec p) = PlatformTypeGitHub" and ids: "gha_appID app \<noteq> 0" "gha_installationID app \<noteq> 0"
    using assms(1) by (auto simp: admitted_defs split: option.splits)
  have key: "key = (if skr_key (gha_privateKeyRef app) = '''' then defaultGitHubAppPEMKey else skr_key (gha_privateKeyRef app))"
    using assms(2) Some by (auto simp: resolveAuthRef_def Let_def split: if_splits)
  have "secretValue secret (skr_key (gha_privateKeyRef app)) defaultGitHubAppPEMKey = Inr v"
    using assms(3) by (simp add: secretValue_def key Let_def)
  with Some ty ids assms(4) show ?thesis
    by (simp add: DefaultPlatformClientFactory_def github_with_token_def sdk_refuses_def NewWithApp_def gh_configure_def
        buildGoGitHubClient_def Let_def split: sum.split)
qed

text \<open>
  The entry of a Secret that holds a Platform's credential: the Secret its auth names, and the key it names there or,
  when it names none, \<open>private-key.pem\<close> for a GitHub App and \<open>token\<close> for a token. And the client that is made of the value \<open>v\<close> of that
  entry: the SDK's App client with \<open>v\<close> as private key, or the SDK's token client with \<open>v\<close> as token.
\<close>

definition named_or :: "string \<Rightarrow> string \<Rightarrow> string" where
  "named_or deflt key = (if key = '''' then deflt else key)"

definition credential_entry :: "RenovatePlatformSpec \<Rightarrow> (string \<times> string) option" where
  "credential_entry spec =
     (case (pa_githubApp (ps_auth spec), pa_token (ps_auth spec)) of
        (Some app, _) \<Rightarrow> Some (skr_name (gha_privateKeyRef app), named_or ''private-key.pem'' (skr_key (gha_privateKeyRef app)))
      | (None, Some tok) \<Rightarrow> Some (skr_name (ta_secretRef tok), named_or ''token'' (skr_key (ta_secretRef tok)))
      | (None, None) \<Rightarrow> None)"

definition client_of :: "'n gh_lib \<Rightarrow> 'n fj_lib \<Rightarrow> RenovatePlatformSpec \<Rightarrow> string \<Rightarrow> 'n PlatformClient res" where
  "client_of lib fjlib spec v =
     (case pa_githubApp (ps_auth spec) of
        Some app \<Rightarrow> map_sum id github_client (NewWithApp lib \<lparr>aa_appID = gha_appID app,
          aa_installationID = gha_installationID app, aa_pem = v, aa_baseURL = ps_baseURL spec\<rparr> [])
      | None \<Rightarrow> map_sum id forgejo_client (fj_New fjlib \<lparr>fa_baseURL = ps_baseURL spec, fa_token = v\<rparr> []))"

lemma resolved_entry: "resolveAuthRef p = Inr (name, key) \<Longrightarrow> credential_entry (plat_spec p) = Some (name, key)"
  by (auto simp: resolveAuthRef_def credential_entry_def named_or_def defaultGitHubAppPEMKey_def defaultTokenKey_def Let_def
      split: option.splits if_splits)

lemma factory_client_of:
  assumes "admitted spec" and "credential_entry spec = Some (name, key)" and "map_of (sec_data secret) key = Some v"
    and "\<not> github_with_token spec"
  shows "DefaultPlatformClientFactory lib fjlib spec secret = client_of lib fjlib spec v"
proof (cases "pa_githubApp (ps_auth spec)")
  case None
  then obtain tok where tok: "pa_token (ps_auth spec) = Some tok" and ty: "ps_platformType spec = PlatformTypeForgejo"
    using assms(1,4) by (auto simp: admitted_defs github_with_token_def split: option.splits)
  have "secretValue secret (skr_key (ta_secretRef tok)) defaultTokenKey = Inr v"
    using assms(2,3) None tok by (simp add: credential_entry_def named_or_def secretValue_def defaultTokenKey_def Let_def)
  with None tok ty show ?thesis
    by (simp add: DefaultPlatformClientFactory_def client_of_def split: sum.split)
next
  case (Some app)
  then have ty: "ps_platformType spec = PlatformTypeGitHub" using assms(1) by (auto simp: admitted_defs split: option.splits)
  have "secretValue secret (skr_key (gha_privateKeyRef app)) defaultGitHubAppPEMKey = Inr v"
    using assms(2,3) Some by (simp add: credential_entry_def named_or_def secretValue_def defaultGitHubAppPEMKey_def Let_def
        split: option.splits)
  with Some ty show ?thesis
    by (simp add: DefaultPlatformClientFactory_def client_of_def split: sum.split)
qed

text \<open>
  C9. The credential a Platform was found Ready with is the one its Runs use. In the binary, when the specification of a
  Platform is one the API server admits and its credential resolves, the reconcile of a Run with that specification reads the same Secret of the
  operator's namespace as the Platform controller, and the value under the configured key, or the default key of the kind of auth, is the one
  the Platform controller checked and the one the client is made of: for a GitHub App the SDK's App client with that private key, for Forgejo the
  SDK's client with that token. The client is refused exactly when the SDK refuses that value or the base URL, or for a GitHub Platform with token auth.
\<close>

theorem ready_platform_serves_runs:
  assumes "admitted (plat_spec p)" and "credentials_ok (op_platform (main_operator L K f)) p (w_cluster w)"
    and "rs_platformSnapshot (run_spec run) = plat_spec p"
  shows "\<exists>name key secret v. credential_entry (plat_spec p) = Some (name, key) \<and>
    Get_Secret K (operatorNamespace f) name (w_cluster w) = Inr secret \<and>
    fetchSourceSecret (op_run (main_operator L K f)) run w = Inr secret \<and>
    map_of (sec_data secret) key = Some v \<and> v \<noteq> '''' \<and> validateAuthMaterial (op_platform (main_operator L K f)) p v = None \<and>
    (if github_with_token (plat_spec p)
     then isl (rn_PlatformClientFactory (op_run (main_operator L K f)) (rs_platformSnapshot (run_spec run)) secret)
     else rn_PlatformClientFactory (op_run (main_operator L K f)) (rs_platformSnapshot (run_spec run)) secret =
        client_of (lib_github L) (lib_forgejo L) (plat_spec p) v \<and>
       (isl (client_of (lib_github L) (lib_forgejo L) (plat_spec p) v) \<longleftrightarrow>
        sdk_refuses (lib_github L) (lib_forgejo L) (plat_spec p) v))"
  using assms(2)
proof (rule credentials_okE)
  fix name key secret v
  assume r: "resolveAuthRef p = Inr (name, key)"
    and g: "Get_Secret (pl_Client (op_platform (main_operator L K f)))
      (pl_OperatorNamespace (op_platform (main_operator L K f))) name (w_cluster w) = Inr secret"
    and v: "map_of (sec_data secret) key = Some v" "v \<noteq> []"
    and ok: "validateAuthMaterial (op_platform (main_operator L K f)) p v = None"
  have "fetchSourceSecret (op_run (main_operator L K f)) run w = Inr secret"
    using g by (simp add: fetchSourceSecret_def resolved_source [OF r assms(3)])
  with g ok v resolved_entry [OF r] factory_refuses_iff [OF assms(1) r v, where lib = "lib_github L" and fjlib = "lib_forgejo L"]
    factory_client_of [OF assms(1) resolved_entry [OF r] v(1), where lib = "lib_github L" and fjlib = "lib_forgejo L"]
  show ?thesis
    by - (rule exI [of _ name], rule exI [of _ key], rule exI [of _ secret], rule exI [of _ v], auto simp: assms(3))
qed

definition ex_libs :: "nat libraries" where
  "ex_libs = \<lparr>lib_meta = ref_meta, lib_metaNow = ex_clock, lib_osClock = ex_clock, lib_LoadLocation = Inr,
     lib_cronParse = (\<lambda>expr. Inr hourly), lib_RFC3339 = (\<lambda>t. itoa (wall t)),
     lib_sortSlice = (\<lambda>less. sort_key (\<lambda>run. - wall (completionOrCreation run))), lib_gzip = (\<lambda>raw. Inr raw),
     lib_unmarshal = ex_unmarshal, lib_pemDecode = (\<lambda>s. None), lib_parsePKCS1 = (\<lambda>s. False),
     lib_parsePKCS8 = (\<lambda>s. False), lib_github = ex_gh_lib,
     lib_forgejo = \<lparr>fj_NewLimiter = (\<lambda>r burst n. (None, n)), gitea_NewClient = (\<lambda>url tok hc. Inr ex_fj_sdk)\<rparr>\<rparr>"

theorem ready_platform_serves_runs_witness:
  "\<exists>run. fetchSourceSecret (op_run (main_operator ex_libs sim_client (default_flags ''ops''))) run ex_plat_world = Inr ex_creds \<and>
     rn_PlatformClientFactory (op_run (main_operator ex_libs sim_client (default_flags ''ops'')))
       (rs_platformSnapshot (run_spec run)) ex_creds =
       client_of (lib_github ex_libs) (lib_forgejo ex_libs) (rs_platformSnapshot (run_spec run)) ''tok'' \<and>
     \<not> isl (client_of (lib_github ex_libs) (lib_forgejo ex_libs) (rs_platformSnapshot (run_spec run)) ''tok'')"
proof -
  let ?p = "ex_token_platform PlatformTypeForgejo" and ?Q = "main_operator ex_libs sim_client (default_flags ''ops'')"
  define run where "run = ex_run\<lparr>run_spec := (run_spec ex_run)\<lparr>rs_platformSnapshot := plat_spec ?p\<rparr>\<rparr>"
  have adm: "admitted (plat_spec ?p)" by (simp add: admitted_defs ex_token_platform_def)
  have ok: "credentials_ok (op_platform ?Q) ?p (w_cluster ex_plat_world)"
    by (simp add: credentials_ok_def resolveAuthRef_def ex_token_platform_def operatorNamespace_def default_flags_def
        sim_client_def sim_get_def ex_plat_world_def is_at_def ex_creds_def defaultTokenKey_def validateAuthMaterial_def Let_def)
  have snap: "rs_platformSnapshot (run_spec run) = plat_spec ?p" by (simp add: run_def)
  have entry: "credential_entry (plat_spec ?p) = Some (''creds'', ''token'')"
    by (simp add: credential_entry_def named_or_def ex_token_platform_def)
  have sec: "Get_Secret sim_client (operatorNamespace (default_flags ''ops'')) ''creds'' (w_cluster ex_plat_world) = Inr ex_creds"
    by (simp add: operatorNamespace_def default_flags_def sim_client_def sim_get_def ex_plat_world_def is_at_def ex_creds_def)
  have val: "map_of (sec_data ex_creds) ''token'' = Some ''tok''" by (simp add: ex_creds_def)
  have no: "\<not> github_with_token (plat_spec ?p)" "\<not> sdk_refuses (lib_github ex_libs) (lib_forgejo ex_libs) (plat_spec ?p) v" for v
    by (simp_all add: github_with_token_def sdk_refuses_def ex_token_platform_def ex_libs_def)
  from ready_platform_serves_runs [OF adm ok snap] entry sec val no snap show ?thesis
    by (intro exI [of _ run]) auto
qed

text \<open>The binary of the example is an operator in the sense of the system's properties.\<close>

lemma ex_binary_ok: "operator_ok (main_operator ex_libs store_client f) sim_view"
proof (rule main_operator_ok)
  show "run_store store_client sim_view" by (simp add: run_store_def store_reads store_writes store_spares)
  show "meta_conditions (lib_meta ex_libs)" by (simp add: ex_libs_def ref.meta_conditions_axioms)
  show "\<forall>t. \<not> IsZero (lib_metaNow ex_libs t)" using ex_sound by (simp add: sound_libs_def ex_libs_def ex_R_def)
  show "sort_law (op_scan (main_operator ex_libs store_client f))" using ex_sort_law by (simp add: sort_law_def ex_libs_def ex_S_def)
qed

end
