(* ===== verification/ScanLock.thy ===== *)
theory ScanLock
  imports Production
begin

text \<open>
  The system on the client that the manager hands to the controllers: it reads from a cache that watches keep up to date, and writes to the API
  server. What the controllers keep of the stored Runs, the consistency of all stored Runs, and the concurrency policies as a lock that a Scan's
  active Runs hold. The lock is kept as long as the cache shows a Scan's active Runs whenever that Scan is reconciled; \<open>StaleReads\<close> shows what
  happens otherwise.
\<close>

section \<open>A cached client\<close>

text \<open>
  The state is the pair of the cached and the live cluster. A write leaves the cache as it is; the watches that refresh it are changes from
  outside. A status update carries the version the object was read in, the cached one, and is refused with a conflict when it is not the live one.
\<close>

definition live :: "('s \<Rightarrow> 'a \<times> 's) \<Rightarrow> 's \<times> 's \<Rightarrow> 'a \<times> 's \<times> 's" where
  "live f s = (let (r, s') = f (snd s) in (r, fst s, s'))"

definition versioned :: "('s \<Rightarrow> 'o res) \<Rightarrow> ('s \<Rightarrow> goerror option \<times> 's) \<Rightarrow> 's \<times> 's \<Rightarrow> goerror option \<times> 's \<times> 's" where
  "versioned get update s =
     (case (get (fst s), get (snd s)) of
        (Inr a, Inr b) \<Rightarrow> if a = b then live update s else (Some (api_error StatusConflict), s)
      | _ \<Rightarrow> (Some (api_error StatusNotFound), s))"

definition cached :: "'s kclient \<Rightarrow> ('s \<times> 's) kclient" where
  "cached K = \<lparr>Get_Platform = \<lambda>name s. Get_Platform K name (fst s), Get_Scan = \<lambda>ns name s. Get_Scan K ns name (fst s),
     Get_Run = \<lambda>ns name s. Get_Run K ns name (fst s), Get_Secret = \<lambda>ns name s. Get_Secret K ns name (fst s),
     Get_ConfigMap = \<lambda>ns name s. Get_ConfigMap K ns name (fst s), Get_Job = \<lambda>ns name s. Get_Job K ns name (fst s),
     List_Platforms = \<lambda>s. List_Platforms K (fst s), List_Scans = \<lambda>s. List_Scans K (fst s),
     List_Runs = \<lambda>ns s. List_Runs K ns (fst s),
     Create_Run = \<lambda>run. live (Create_Run K run), Create_Secret = \<lambda>sec. live (Create_Secret K sec),
     Create_ConfigMap = \<lambda>cm. live (Create_ConfigMap K cm), Create_Job = \<lambda>job. live (Create_Job K job),
     Update_Secret = \<lambda>sec. live (Update_Secret K sec), Delete_Run = \<lambda>run. live (Delete_Run K run),
     StatusUpdate_Platform = \<lambda>p. versioned (Get_Platform K (plat_name p)) (StatusUpdate_Platform K p),
     StatusUpdate_Scan = \<lambda>scan. versioned (Get_Scan K (m_namespace (scan_meta scan)) (scan_name scan)) (StatusUpdate_Scan K scan),
     StatusUpdate_Run = \<lambda>run. versioned (Get_Run K (run_namespace run) (run_name run)) (StatusUpdate_Run K run)\<rparr>"

lemma live_eq: "live f s = (r, s') \<longleftrightarrow> fst s' = fst s \<and> f (snd s) = (r, snd s')"
  by (auto simp: live_def prod_eq_iff split: prod.splits)

lemma versionedE:
  assumes "versioned get update s = (e, s')"
  obtains (stale) "s' = s" "e \<noteq> None"
    | (current) a where "get (fst s) = Inr a" and "get (snd s) = Inr a" and "fst s' = fst s" and "update (snd s) = (e, snd s')"
  using assms by (auto simp: versioned_def live_eq split: sum.splits if_splits)

lemma cached_reads: "reads_runs K view \<Longrightarrow> reads_runs (cached K) (\<lambda>s. view (fst s))"
  by (auto simp: reads_runs_def cached_def)

lemma cached_client:
  "Create_Run (cached K) run s = (r, s') \<longleftrightarrow> fst s' = fst s \<and> Create_Run K run (snd s) = (r, snd s')"
  "Delete_Run (cached K) run s = (e, s') \<longleftrightarrow> fst s' = fst s \<and> Delete_Run K run (snd s) = (e, snd s')"
  "StatusUpdate_Run (cached K) run = versioned (Get_Run K (run_namespace run) (run_name run)) (StatusUpdate_Run K run)"
  by (simp_all add: cached_def live_eq)

lemma cached_writes:
  assumes "writes_runs K view"
  shows "writes_runs (cached K) (\<lambda>s. view (snd s))"
proof -
  note W = assms [unfolded writes_runs_def]
  note create = W [THEN conjunct2, THEN conjunct1, rule_format]
  note update = W [THEN conjunct2, THEN conjunct2, THEN conjunct2, rule_format]
  show ?thesis
    unfolding writes_runs_def cached_client
  proof (intro conjI allI impI)
    show "view (snd s') = view (snd s)" if "fst s' = fst s \<and> Create_Run K run (snd s) = (Inl e, snd s')" for run s e s'
      by (rule W [THEN conjunct1, rule_format, OF that [THEN conjunct2]])
    show "view (snd s) (run_key run') = None" "view (snd s') = (view (snd s))(run_key run' \<mapsto> run')"
      "run_namespace run' = run_namespace run" "run_spec run' = run_spec run" "run_status run' = run_status run"
      "m_ownerReferences (run_meta run') = m_ownerReferences (run_meta run)"
      if "fst s' = fst s \<and> Create_Run K run (snd s) = (Inr run', snd s')" for run s run' s'
      using create [OF that [THEN conjunct2]] by - (elim conjE, assumption)+
    show "view (snd s') = view (snd s) \<or> view (snd s') = (view (snd s))(run_key run := None)"
      if "fst s' = fst s \<and> Delete_Run K run (snd s) = (e, snd s')" for run s e s'
      by (rule W [THEN conjunct2, THEN conjunct2, THEN conjunct1, rule_format, OF that [THEN conjunct2]])
    fix run s cur e s'
    assume cur: "view (snd s) (run_key run) = Some cur" "same_object cur run"
      and up: "versioned (Get_Run K (run_namespace run) (run_name run)) (StatusUpdate_Run K run) s = (e, s')"
    have new: "view (snd s') = (view (snd s))(run_key run \<mapsto> run)" if "StatusUpdate_Run K run (snd s) = (None, snd s')"
      using update [OF cur that] by simp
    have some: "view (snd s') = view (snd s) \<or> view (snd s') = (view (snd s))(run_key run \<mapsto> run)"
      if "StatusUpdate_Run K run (snd s) = (e, snd s')"
      using update [OF cur that] by simp
    show "view (snd s') = (view (snd s))(run_key run \<mapsto> run)" if "e = None"
      using up by (rule versionedE) (use that new in simp_all)
    show "view (snd s') = view (snd s) \<or> view (snd s') = (view (snd s))(run_key run \<mapsto> run)"
      using up by (rule versionedE) (use some in simp_all)
  qed
qed

lemma cached_versioned:
  assumes "reads_runs K view"
  shows "writes_versioned (cached K) (\<lambda>s. view (fst s)) (\<lambda>s. view (snd s))"
  unfolding writes_versioned_def cached_client
proof (intro allI impI)
  fix run s e s'
  assume differ: "view (fst s) (run_key run) \<noteq> view (snd s) (run_key run)"
    and up: "versioned (Get_Run K (run_namespace run) (run_name run)) (StatusUpdate_Run K run) s = (e, s')"
  from up show "view (snd s') = view (snd s)"
  proof (rule versionedE)
    fix a assume "Get_Run K (run_namespace run) (run_name run) (fst s) = Inr a"
      and "Get_Run K (run_namespace run) (run_name run) (snd s) = Inr a"
    then have "view (fst s) (run_key run) = Some a" "view (snd s) (run_key run) = Some a"
      using assms unfolding reads_runs_def by blast+
    with differ show ?thesis by simp
  qed simp
qed

lemma keeps_live: "keeps (\<lambda>s. view (fst s)) (\<lambda>x. live (f x))" "keeps view f \<Longrightarrow> keeps (\<lambda>s. view (snd s)) (\<lambda>x. live (f x))"
  by (auto simp: keeps_def live_def Let_def split: prod.split) (metis snd_conv)

lemma keeps_versioned:
  "keeps (\<lambda>s. view (fst s)) (\<lambda>x. versioned (g x) (f x))" "keeps view f \<Longrightarrow> keeps (\<lambda>s. view (snd s)) (\<lambda>x. versioned (g x) (f x))"
  by (auto simp: keeps_def versioned_def live_def Let_def split: prod.split sum.split) (metis snd_conv)

lemma cached_spares:
  "spares_runs (cached K) (\<lambda>s. view (fst s))"
  "spares_runs K view \<Longrightarrow> spares_runs (cached K) (\<lambda>s. view (snd s))"
  by (auto simp: spares_runs_def cached_def intro!: keeps_live keeps_versioned)

text \<open>So the cached client of a store keeps what is asked of a client, with the cache as the view it reads.\<close>

lemma cached_store_ok:
  assumes "run_store K view"
  shows "cached_store (cached K) (\<lambda>s. view (fst s)) (\<lambda>s. view (snd s))"
  using assms
  by (simp add: run_store_def cached_store_def cached_reads cached_writes cached_versioned cached_spares shows_created_def cached_client)

section \<open>The operator\<close>

text \<open>The operator on such a client: its three reconcilers share it.\<close>

definition cached_operator_ok :: "('s, 'n) operator \<Rightarrow> ('s \<Rightarrow> run_view) \<Rightarrow> ('s \<Rightarrow> run_view) \<Rightarrow> bool" where
  "cached_operator_ok Q rv view =
     (sc_Client (op_scan Q) = rn_Client (op_run Q) \<and> pl_Client (op_platform Q) = rn_Client (op_run Q) \<and>
      cached_store (rn_Client (op_run Q)) rv view \<and> sound_libs (op_run Q))"

lemma operator_ok_current: "operator_ok Q view \<Longrightarrow> cached_operator_ok Q view view"
  by (simp add: operator_ok_def cached_operator_ok_def run_store_current)

section \<open>What the controllers keep\<close>

text \<open>Pruning deletes only what the reads show as ended.\<close>

definition drops :: "(string \<times> string) set \<Rightarrow> run_view \<Rightarrow> run_view \<Rightarrow> bool" where
  "drops D v v' = (\<forall>k. v' k = v k \<or> k \<in> D \<and> v' k = None)"

lemma drops_refl [simp]: "drops D v v"
  by (simp add: drops_def)

lemma drops_trans: "drops D v v1 \<Longrightarrow> drops D v1 v2 \<Longrightarrow> drops D v v2"
  unfolding drops_def by metis

definition read_ended :: "run_view \<Rightarrow> (string \<times> string) set" where
  "read_ended r = {k. \<exists>old. r k = Some old \<and> isTerminal (run_phase old)}"

lemma deleteRuns_drops:
  assumes "writes_runs K view" and "deleteRuns K runs s = (e, s')" and "run_key ` set runs \<subseteq> D"
  shows "drops D (view s) (view s')"
  using assms(2,3)
proof (induction runs arbitrary: s)
  case (Cons run runs)
  obtain d s1 where d: "Delete_Run K run s = (d, s1)" by fastforce
  have "view s1 = view s \<or> view s1 = (view s)(run_key run := None)"
    using assms(1) d unfolding writes_runs_def by blast
  then have "drops D (view s) (view s1)" using Cons.prems(2) by (elim disjE) (simp_all add: drops_def)
  moreover from Cons.prems(1) d consider "s' = s1" | "deleteRuns K runs s1 = (e, s')"
    by (auto split: option.splits if_splits)
  then have "drops D (view s1) (view s')" by cases (use Cons.IH Cons.prems(2) in auto)
  ultimately show ?case by (rule drops_trans)
qed simp

lemma deleteOldest_drops:
  assumes "writes_runs (sc_Client S) view" and "sort_law S" and "deleteOldest S runs keep s = (e, s')" and "run_key ` set runs \<subseteq> D"
  shows "drops D (view s) (view s')"
proof -
  have "set (sc_sortSlice S moreRecent runs) = set runs" using assms(2) by (metis sort_law_def set_mset_mset)
  then have sub: "run_key ` set (drop n (sc_sortSlice S moreRecent runs)) \<subseteq> D" for n
    using assms(4) set_drop_subset [of n "sc_sortSlice S moreRecent runs"] by blast
  show ?thesis
    using assms(3) deleteRuns_drops [OF assms(1) _ sub] by (auto simp: deleteOldest_def split: if_splits)
qed

lemma gcOldRuns_drops:
  assumes "reads_runs (sc_Client S) rv" and "writes_runs (sc_Client S) view" and "sort_law S" and "gcOldRuns S scan s = (e, s')"
  shows "drops (read_ended (rv s)) (view s) (view s')"
proof (cases "List_Runs (sc_Client S) (m_namespace (scan_meta scan)) s")
  case (Inl a)
  with assms(4) show ?thesis by (auto simp: gcOldRuns_def)
next
  case (Inr runs)
  let ?ended = "\<lambda>p. filter (\<lambda>run. run_phase run = p) (filter (\<lambda>run. ownedByScan run scan) runs)"
  have shown: "rv s (run_key r) = Some r" if "r \<in> set runs" for r
    using assms(1) Inr that unfolding reads_runs_def by blast
  have sub: "run_key ` set (?ended p) \<subseteq> read_ended (rv s)" if "isTerminal p" for p
    using shown that by (auto simp: read_ended_def)
  note del = deleteOldest_drops [OF assms(2,3) _ sub]
  obtain l1 l2 e1 s1 where d1: "deleteOldest S (?ended RunPhaseSucceeded) l1 s = (e1, s1)"
    and d2: "(e1 \<noteq> None \<and> s' = s1) \<or> deleteOldest S (?ended RunPhaseFailed) l2 s1 = (e, s')"
    using assms(4) Inr by (auto simp: gcOldRuns_def Let_def split: prod.splits option.splits)
  have "drops (read_ended (rv s)) (view s) (view s1)" by (rule del [OF d1]) (simp add: isTerminal_def)
  moreover have "drops (read_ended (rv s)) (view s1) (view s')"
    using d2 del [of RunPhaseFailed l2 s1 e s'] by (auto simp: isTerminal_def)
  ultimately show ?thesis by (rule drops_trans)
qed

lemma scan_Reconcile_keeps:
  assumes "cached_store (sc_Client S) rv view" and "sort_law S" and "scan_Reconcile S ns name w = Some (oc, w')"
    and "view (w_cluster w) k = Some run" and "k \<in> read_ended (rv (w_cluster w)) \<longrightarrow> isTerminal (run_phase run)"
  shows "view (w_cluster w') k = Some run \<or> view (w_cluster w') k = None \<and> isTerminal (run_phase run)"
proof (cases "Get_Scan (sc_Client S) ns name (w_cluster w)")
  case (Inl e)
  with assms(3,4) show ?thesis by (auto simp: scan_Reconcile_def)
next
  case (Inr scan)
  have Rd: "reads_runs (sc_Client S) rv" and W: "writes_runs (sc_Client S) view" and Sp: "spares_runs (sc_Client S) view"
    and Sh: "shows_created (sc_Client S) rv view"
    using assms(1) by (simp_all add: cached_store_def)
  from assms(3) Inr obtain oc1 scan' w1 ue where rec: "scan_reconcile S scan w = Some (oc1, scan', w1)"
    and up: "on_cluster (StatusUpdate_Scan (sc_Client S) scan') w1 = (ue, w')"
    by (auto simp: scan_Reconcile_def split: option.splits prod.splits if_splits)
  have same: "view (w_cluster w') = view (w_cluster w1)" by (rule spares_runsD(6) [OF Sp up])
  from scan_reconcile_starts [OF Rd W rec] consider "same_view view w w1"
    | new s1 ge sent where "starts scan new (view (w_cluster w)) (view s1)"
      and "Create_Run (sc_Client S) sent (w_cluster w) = (Inr new, s1)" and "gcOldRuns S scan s1 = (ge, w_cluster w1)"
    by blast
  then show ?thesis
  proof cases
    case 1
    with same assms(4) show ?thesis by simp
  next
    case (2 new s1 ge sent)
    note st = 2(1) and cr = 2(2) and gc = 2(3)
    from st have "view (w_cluster w) (run_key new) = None" and "view s1 = (view (w_cluster w))(run_key new \<mapsto> new)"
      unfolding starts_def by blast+
    with assms(4) have s1: "view s1 k = Some run" by (metis fun_upd_other option.distinct(1))
    from cr Sh have "rv s1 = rv (w_cluster w) \<or> rv s1 = view s1" unfolding shows_created_def by blast
    then have "k \<in> read_ended (rv s1) \<longrightarrow> isTerminal (run_phase run)" using assms(5) s1 by (auto simp: read_ended_def)
    moreover have "view (w_cluster w1) k = Some run \<or> k \<in> read_ended (rv s1) \<and> view (w_cluster w1) k = None"
      using gcOldRuns_drops [OF Rd W assms(2) gc, unfolded drops_def, rule_format, of k] s1 by simp
    ultimately show ?thesis unfolding same by blast
  qed
qed

text \<open>
  C5. No controller deletes a Run in flight, edits what a Run was created with, or moves it off the state
  machine: after a reconcile of any controller, a stored Run is still there under its name with its
  metadata and specification, and its phase unchanged or moved along an edge; only a Run that had
  ended may be gone. The reads may be behind, but when they show the Run as ended, it has: an ended Run stays one.
\<close>

theorem controllers_keep_runs:
  assumes "cached_operator_ok Q rv view" and "sort_law (op_scan Q)" and "runs_wf (op_meta Q) (view (w_cluster w))"
    and "controller_step Q w w'" and "view (w_cluster w) k = Some run"
    and "\<And>old. rv (w_cluster w) k = Some old \<Longrightarrow> isTerminal (run_phase old) \<Longrightarrow> isTerminal (run_phase run)"
  shows "(\<exists>run'. view (w_cluster w') k = Some run' \<and> same_object run run' \<and>
      (run' = run \<or> phase_edge (run_phase run) (run_phase run'))) \<or>
    (view (w_cluster w') k = None \<and> isTerminal (run_phase run))"
proof -
  have K: "sc_Client (op_scan Q) = rn_Client (op_run Q)" "pl_Client (op_platform Q) = rn_Client (op_run Q)"
    and st: "cached_store (rn_Client (op_run Q)) rv view" and snd: "sound_libs (op_run Q)"
    using assms(1) by (simp_all add: cached_operator_ok_def)
  have "view (w_cluster w') k = Some run \<or> (\<exists>run'. view (w_cluster w') k = Some run' \<and> same_object run run' \<and>
      phase_edge (run_phase run) (run_phase run')) \<or> view (w_cluster w') k = None \<and> isTerminal (run_phase run)"
    using assms(4)
  proof cases
    case (run_step ns name oc)
    from run_Reconcile_advances [OF st snd assms(3) run_step] assms(5) show ?thesis
      unfolding advances_def by (elim disjE exE conjE) (auto simp: fun_upd_apply split: if_splits)
  next
    case (scan_step ns name oc)
    have "k \<in> read_ended (rv (w_cluster w)) \<longrightarrow> isTerminal (run_phase run)" using assms(6) by (auto simp: read_ended_def)
    moreover have "cached_store (sc_Client (op_scan Q)) rv view" using st K by simp
    ultimately show ?thesis
      using scan_Reconcile_keeps [where view = view and rv = rv and w = w and k = k, OF _ assms(2) scan_step assms(5)] by blast
  next
    case (platform_step name oc)
    have "spares_runs (pl_Client (op_platform Q)) view" using st K by (simp add: cached_store_def)
    from platform_Reconcile_runs [OF this platform_step] assms(5) show ?thesis by simp
  qed
  then show ?thesis by (elim disjE) (auto simp: same_object_def)
qed

section \<open>The lock\<close>

text \<open>
  The concurrency policies other than Allow as a lock that the Scan's active Runs hold: it is
  acquired by one Run when nobody holds it, and released by any number of holders.
\<close>

inductive lock_step :: "'k set \<Rightarrow> 'k set \<Rightarrow> bool" where
  acquire: "lock_step {} {k}"
| release: "H' \<subseteq> H \<Longrightarrow> lock_step H H'"


text \<open>
  The Scan with UID \<open>u\<close> lives in namespace \<open>N\<close> and its policy is not Allow; and the reads show every active Run of
  that Scan, in whatever version, as active.
\<close>

definition exclusive :: "string \<Rightarrow> string \<Rightarrow> RenovateScan \<Rightarrow> bool" where
  "exclusive u N scan = (m_uid (scan_meta scan) = u \<longrightarrow>
     m_namespace (scan_meta scan) = N \<and> ss_concurrencyPolicy (scan_spec scan) \<noteq> AllowConcurrent)"

definition shows_active :: "string \<Rightarrow> run_view \<Rightarrow> run_view \<Rightarrow> bool" where
  "shows_active u r v = (holders u v \<subseteq> holders u r)"

text \<open>
  The steps of a system in which the Scan stays exclusive and is reconciled only when the reads show its active Runs. The cache may be
  behind in anything else, and in this too between the reconciles of that Scan; a change from outside also covers its refresh.
\<close>

inductive fresh_step ::
  "string \<Rightarrow> string \<Rightarrow> ('s, 'n) operator \<Rightarrow> ('s \<Rightarrow> run_view) \<Rightarrow> ('s \<Rightarrow> run_view) \<Rightarrow> ('s, 'n) world \<Rightarrow> ('s, 'n) world \<Rightarrow> bool"
  for u N Q rv view where
  fresh_run: "run_Reconcile (op_run Q) ns name w = Some (oc, w') \<Longrightarrow> fresh_step u N Q rv view w w'"
| fresh_scan: "scan_Reconcile (op_scan Q) ns name w = Some (oc, w') \<Longrightarrow>
    (\<And>scan. Get_Scan (sc_Client (op_scan Q)) ns name (w_cluster w) = Inr scan \<Longrightarrow> m_uid (scan_meta scan) = u \<Longrightarrow>
      exclusive u N scan \<and> shows_active u (rv (w_cluster w)) (view (w_cluster w))) \<Longrightarrow> fresh_step u N Q rv view w w'"
| fresh_platform: "platform_Reconcile (op_platform Q) name w = Some (oc, w') \<Longrightarrow> fresh_step u N Q rv view w w'"
| fresh_outside: "view (w_cluster w') \<subseteq>\<^sub>m view (w_cluster w) \<Longrightarrow> fresh_step u N Q rv view w w'"

inductive_cases fresh_stepE: "fresh_step u N Q rv view w w'"

lemma fresh_step_system: "fresh_step u N Q rv view w w' \<Longrightarrow> system_step Q view w w'"
  by (erule fresh_stepE) (auto intro: controller outside controller_step.intros)

definition runs_home :: "string \<Rightarrow> string \<Rightarrow> run_view \<Rightarrow> bool" where
  "runs_home u N v = (\<forall>k run. v k = Some run \<longrightarrow> owned_by u run \<longrightarrow> run_key run = k \<and> run_namespace run = N)"


text \<open>A Scan's reconcile under cached reads: a Run starts if the reads show no active one; pruning, whatever it reads, only removes Runs.\<close>

lemma map_le_delete: "v(k := None) \<subseteq>\<^sub>m v"
  by (auto simp: map_le_def)

lemma deleteRuns_shrinks:
  assumes "writes_runs K view" and "deleteRuns K runs s = (e, s')"
  shows "view s' \<subseteq>\<^sub>m view s"
  using assms(2)
proof (induction runs arbitrary: s)
  case (Cons run runs)
  obtain d s1 where d: "Delete_Run K run s = (d, s1)" by fastforce
  have "view s1 = view s \<or> view s1 = (view s)(run_key run := None)"
    using assms(1) d unfolding writes_runs_def by blast
  then have "view s1 \<subseteq>\<^sub>m view s" using map_le_delete by auto
  moreover from Cons.prems d consider "s' = s1" | "deleteRuns K runs s1 = (e, s')"
    by (auto split: option.splits if_splits)
  then have "view s' \<subseteq>\<^sub>m view s1" by cases (use Cons.IH in auto)
  ultimately show ?case by (rule map_le_trans [rotated])
qed simp

lemma gcOldRuns_shrinks:
  assumes "writes_runs (sc_Client S) view" and "gcOldRuns S scan s = (e, s')"
  shows "view s' \<subseteq>\<^sub>m view s"
proof -
  have del: "view s2 \<subseteq>\<^sub>m view s1" if "deleteOldest S runs keep s1 = (e', s2)" for runs keep s1 e' s2
    using that deleteRuns_shrinks [OF assms(1)] by (auto simp: deleteOldest_def split: if_splits)
  then show ?thesis using assms(2) map_le_trans
    by (auto simp: gcOldRuns_def Let_def split: sum.splits prod.splits option.splits) blast+
qed

inductive cached_scan_step :: "RenovateScan \<Rightarrow> run_view \<Rightarrow> run_view \<Rightarrow> run_view \<Rightarrow> bool" for scan r where
  rests: "cached_scan_step scan r v v"
| begins: "starts scan run v v1 \<Longrightarrow> ss_concurrencyPolicy (scan_spec scan) = AllowConcurrent \<or> idle scan r \<Longrightarrow>
    v' \<subseteq>\<^sub>m v1 \<Longrightarrow> cached_scan_step scan r v v'"

lemma scan_Reconcile_cached:
  assumes "cached_store (sc_Client S) rv view" and "scan_Reconcile S ns name w = Some (oc, w')"
  obtains (absent) "same_view view w w'"
    | (read) scan where "Get_Scan (sc_Client S) ns name (w_cluster w) = Inr scan"
        and "cached_scan_step scan (rv (w_cluster w)) (view (w_cluster w)) (view (w_cluster w'))"
proof (cases "Get_Scan (sc_Client S) ns name (w_cluster w)")
  case (Inl e)
  with assms(2) show ?thesis by (intro absent) (auto simp: scan_Reconcile_def)
next
  case (Inr scan)
  have Rd: "reads_runs (sc_Client S) rv" and W: "writes_runs (sc_Client S) view" and Sp: "spares_runs (sc_Client S) view"
    using assms(1) by (simp_all add: cached_store_def)
  from assms(2) Inr obtain oc1 scan' w1 ue where rec: "scan_reconcile S scan w = Some (oc1, scan', w1)"
    and up: "on_cluster (StatusUpdate_Scan (sc_Client S) scan') w1 = (ue, w')"
    by (auto simp: scan_Reconcile_def split: option.splits prod.splits if_splits)
  have "view (w_cluster w') = view (w_cluster w1)" by (rule spares_runsD(6) [OF Sp up])
  with scan_reconcile_starts [OF Rd W rec] gcOldRuns_shrinks [OF W]
  have "cached_scan_step scan (rv (w_cluster w)) (view (w_cluster w)) (view (w_cluster w'))"
    by (auto intro: cached_scan_step.intros)
  with Inr show ?thesis by (rule read)
qed

text \<open>Every step keeps the stored Runs consistent, also when the reads are behind.\<close>

lemma starts_wf: "sound_libs R \<Longrightarrow> starts scan run v v' \<Longrightarrow> runs_wf (rn_meta R) v \<Longrightarrow> runs_wf (rn_meta R) v'"
  using new_run_wf by (auto simp: starts_def runs_wf_def)

lemma cached_scan_step_wf:
  "cached_scan_step scan r v v' \<Longrightarrow> sound_libs R \<Longrightarrow> runs_wf (rn_meta R) v \<Longrightarrow> runs_wf (rn_meta R) v'"
  by (erule cached_scan_step.cases) (auto intro: map_le_wf starts_wf)

lemma advances_wf: "advances M v v' \<Longrightarrow> runs_wf M v \<Longrightarrow> runs_wf M v'"
  unfolding advances_def runs_wf_def by (auto simp del: split_paired_All split_paired_Ex split: if_splits)

lemma cached_step_wf:
  assumes "cached_operator_ok Q rv view" and "runs_wf (op_meta Q) (view (w_cluster w))" and "system_step Q view w w'"
  shows "runs_wf (op_meta Q) (view (w_cluster w'))"
  using assms(3)
proof cases
  case outside
  then show ?thesis using map_le_wf assms(2) by blast
next
  case controller
  have K: "sc_Client (op_scan Q) = rn_Client (op_run Q)" "pl_Client (op_platform Q) = rn_Client (op_run Q)"
    and st: "cached_store (rn_Client (op_run Q)) rv view" and snd: "sound_libs (op_run Q)"
    using assms(1) by (simp_all add: cached_operator_ok_def)
  from controller show ?thesis
  proof cases
    case (run_step ns name oc)
    from advances_wf [OF run_Reconcile_advances [OF st snd assms(2) run_step] assms(2)] show ?thesis .
  next
    case (scan_step ns name oc)
    from st K have "cached_store (sc_Client (op_scan Q)) rv view" by simp
    then show ?thesis using scan_step
      by (cases rule: scan_Reconcile_cached) (use assms(2) cached_scan_step_wf [OF _ snd] in auto)
  next
    case (platform_step name oc)
    have "spares_runs (pl_Client (op_platform Q)) view" using st K by (simp add: cached_store_def)
    from platform_Reconcile_runs [OF this platform_step] assms(2) show ?thesis by simp
  qed
qed

interpretation operator_system: invariant_system
  "\<lambda>w. cached_operator_ok Q rv view \<and> view (w_cluster w) = Map.empty"
  "\<lambda>w w'. cached_operator_ok Q rv view \<and> system_step Q view w w'"
  "\<lambda>w. cached_operator_ok Q rv view \<and> runs_wf (op_meta Q) (view (w_cluster w))"
  for Q :: "('s, 'n) operator" and rv view
  by unfold_locales (auto simp: runs_wf_empty intro: cached_step_wf)

lemma sound_steps: "P \<Longrightarrow> r\<^sup>*\<^sup>* a b \<Longrightarrow> (\<lambda>x y. P \<and> r x y)\<^sup>*\<^sup>* a b"
  by simp

text \<open>
  C6. Started on a cluster without Runs, and whatever the order in which the controllers reconcile and the outside interferes, every Run
  the API server ever stores has a consistent status. The reads may be behind in anything: what is decided on an outdated Run is
  refused when its status is written.
\<close>

theorem stored_runs_consistent:
  assumes "cached_operator_ok Q rv view" and "view (w_cluster w) = Map.empty" and "(system_step Q view)\<^sup>*\<^sup>* w w'"
    and "view (w_cluster w') k = Some run"
  shows "run_wf (op_meta Q) run"
proof -
  have "runs_wf (op_meta Q) (view (w_cluster w'))"
    using operator_system.reachable_inv [OF _ sound_steps [OF assms(1,3)]] assms(1,2) by blast
  from runs_wfD [OF this assms(4)] show ?thesis .
qed

text \<open>And every fresh step is one of the lock.\<close>

lemma advances_lock:
  assumes "advances M v v'" and "runs_home u N v"
  shows "lock_step\<^sup>*\<^sup>* (holders u v) (holders u v') \<and> runs_home u N v'"
  using assms(1) unfolding advances_def
proof (elim disjE exE conjE)
  fix k run run' assume a: "v k = Some run" "same_object run run'" "phase_edge (run_phase run) (run_phase run')"
    and v': "v' = v(k \<mapsto> run')"
  note own = same_object_owned [OF a(2), of u]
  have "holders u v' \<subseteq> holders u v"
    using a own terminal_edge [OF a(3)] by (auto simp: holders_def v' split: if_splits)
  moreover have "runs_home u N v'"
    using assms(2) a own by (auto simp: runs_home_def v' same_object_def split: if_splits)
  ultimately show ?thesis by (blast intro: release)
qed (use assms(2) in simp)

lemma shrinks_lock:
  assumes "v' \<subseteq>\<^sub>m v" and "runs_home u N v"
  shows "lock_step (holders u v) (holders u v')" and "runs_home u N v'"
proof -
  have old: "v k = Some run" if "v' k = Some run" for k run using assms(1) that unfolding map_le_def by (metis domI)
  then have "holders u v' \<subseteq> holders u v" unfolding holders_def by blast
  then show "lock_step (holders u v) (holders u v')" by (rule release)
  show "runs_home u N v'" using assms(2) old unfolding runs_home_def by blast
qed

lemma starts_lock:
  assumes "starts scan run v v'" and "exclusive u N scan" and "runs_home u N v"
    and "m_uid (scan_meta scan) = u \<longrightarrow> holders u v = {}"
  shows "lock_step (holders u v) (holders u v')" and "runs_home u N v'"
proof -
  have v': "v' = v(run_key run \<mapsto> run)" and fresh: "v (run_key run) = None" and new: "new_run run"
    and own: "owned_by u run \<longleftrightarrow> u = m_uid (scan_meta scan)"
    and ns: "run_namespace run = m_namespace (scan_meta scan)"
    using assms(1) unfolding starts_def by blast+
  show "runs_home u N v'"
    using assms(2,3) own ns by (auto simp: runs_home_def v' exclusive_def split: if_splits)
  show "lock_step (holders u v) (holders u v')"
  proof (cases "owned_by u run")
    case True
    have "\<not> isTerminal (run_phase run)" using new by (simp add: new_run_def fresh_status_def isTerminal_def)
    then have "holders u v' = insert (run_key run) (holders u v)" using fresh True by (auto simp: holders_def v')
    with assms(4) own True show ?thesis by (simp add: acquire)
  next
    case False
    then have "holders u v' \<subseteq> holders u v" by (auto simp: holders_def v' split: if_splits)
    then show ?thesis by (rule release)
  qed
qed

definition reads_keyed :: "run_view \<Rightarrow> bool" where
  "reads_keyed r = (\<forall>k run. r k = Some run \<longrightarrow> run_key run = k)"

lemma cached_scan_step_lock:
  assumes "cached_scan_step scan r v v'" and "exclusive u N scan" and "runs_home u N v" and "reads_keyed r"
    and "m_uid (scan_meta scan) = u \<longrightarrow> shows_active u r v"
  shows "lock_step\<^sup>*\<^sup>* (holders u v) (holders u v') \<and> runs_home u N v'"
  using assms(1)
proof cases
  case rests
  with assms(3) show ?thesis by simp
next
  case (begins run v1)
  have free: "holders u v = {}" if own: "m_uid (scan_meta scan) = u"
  proof (rule ccontr)
    assume "holders u v \<noteq> {}"
    then obtain k run where v: "v k = Some run" "owned_by u run" "k \<in> holders u v" by (auto simp: holders_def)
    with assms(5) own have "k \<in> holders u r" unfolding shows_active_def by blast
    then obtain old where r: "r k = Some old" "owned_by u old" "\<not> isTerminal (run_phase old)" by (auto simp: holders_def)
    have "run_key old = k" using assms(4) r(1) unfolding reads_keyed_def by blast
    moreover have "run_key run = k" "run_namespace run = N" using assms(3) v unfolding runs_home_def by blast+
    moreover have "m_namespace (scan_meta scan) = N" "ss_concurrencyPolicy (scan_spec scan) \<noteq> AllowConcurrent"
      using assms(2) own by (simp_all add: exclusive_def)
    ultimately show False using begins(2) r own by (auto simp: idle_def ownedByScan_uid)
  qed
  note lock = starts_lock [OF begins(1) assms(2,3)] and shr = shrinks_lock [OF begins(3)]
  from lock free have "lock_step (holders u v) (holders u v1)" "runs_home u N v1" by blast+
  with shr show ?thesis by (meson converse_rtranclp_into_rtranclp r_into_rtranclp)
qed

lemma fresh_step_lock:
  assumes "cached_operator_ok Q rv view" and "runs_wf (op_meta Q) (view (w_cluster w))" and "runs_home u N (view (w_cluster w))"
    and "fresh_step u N Q rv view w w'"
  shows "lock_step\<^sup>*\<^sup>* (holders u (view (w_cluster w))) (holders u (view (w_cluster w'))) \<and>
    runs_home u N (view (w_cluster w'))"
proof -
  have K: "sc_Client (op_scan Q) = rn_Client (op_run Q)" "pl_Client (op_platform Q) = rn_Client (op_run Q)"
    and st: "cached_store (rn_Client (op_run Q)) rv view" and snd: "sound_libs (op_run Q)"
    using assms(1) by (simp_all add: cached_operator_ok_def)
  from assms(4) show ?thesis
  proof cases
    case (fresh_run ns name oc)
    from advances_lock [OF run_Reconcile_advances [OF st snd assms(2) fresh_run] assms(3)] show ?thesis .
  next
    case (fresh_scan ns name oc)
    have keyed: "reads_keyed (rv (w_cluster w))"
      using st unfolding cached_store_def reads_runs_def reads_keyed_def by blast
    from st K have "cached_store (sc_Client (op_scan Q)) rv view" by simp
    then show ?thesis using fresh_scan(1)
    proof (cases rule: scan_Reconcile_cached)
      case absent
      with assms(3) show ?thesis by simp
    next
      case (read scan)
      have "exclusive u N scan" using fresh_scan(2) [OF read(1)] by (auto simp: exclusive_def)
      with fresh_scan(2) [OF read(1)] show ?thesis by (intro cached_scan_step_lock [OF read(2) _ assms(3) keyed]) auto
    qed
  next
    case (fresh_platform name oc)
    have "spares_runs (pl_Client (op_platform Q)) view" using st K by (simp add: cached_store_def)
    from platform_Reconcile_runs [OF this fresh_platform] assms(3) show ?thesis by simp
  next
    case fresh_outside
    from shrinks_lock [OF fresh_outside assms(3)] show ?thesis by blast
  qed
qed

interpretation scan_lock: simulation
  "\<lambda>w. cached_operator_ok Q rv view \<and> view (w_cluster w) = Map.empty"
  "\<lambda>w w'. cached_operator_ok Q rv view \<and> fresh_step u N Q rv view w w'"
  "\<lambda>w. cached_operator_ok Q rv view \<and> runs_wf (op_meta Q) (view (w_cluster w)) \<and> runs_home u N (view (w_cluster w))"
  lock_step "\<lambda>w. holders u (view (w_cluster w))"
  for Q :: "('s, 'n) operator" and rv view u N
proof unfold_locales
  fix w w'
  assume inv: "cached_operator_ok Q rv view \<and> runs_wf (op_meta Q) (view (w_cluster w)) \<and> runs_home u N (view (w_cluster w))"
    and st: "cached_operator_ok Q rv view \<and> fresh_step u N Q rv view w w'"
  then show "lock_step\<^sup>*\<^sup>* (holders u (view (w_cluster w))) (holders u (view (w_cluster w')))"
    using fresh_step_lock by blast
  have "system_step Q view w w'" using st fresh_step_system by blast
  then show "cached_operator_ok Q rv view \<and> runs_wf (op_meta Q) (view (w_cluster w')) \<and> runs_home u N (view (w_cluster w'))"
    using inv st fresh_step_lock cached_step_wf by blast
qed (simp add: runs_wf_empty runs_home_def)

lemma lock_exclusive:
  assumes "card H \<le> 1 \<and> finite H" and "lock_step H H'"
  shows "card H' \<le> 1 \<and> finite H'"
  using assms(2)
proof cases
  case release
  with assms(1) show ?thesis by (meson card_mono finite_subset order_trans)
qed simp

text \<open>
  C11. The concurrency policy is a lock, on a client that reads a cache. As long as the Scan with UID \<open>u\<close> keeps a policy other than Allow and
  its namespace, and the cache shows its active Runs whenever it is reconciled, every execution of the system is one of the abstract
  lock: the set of its active Runs only grows from empty to a single Run, and otherwise shrinks.
\<close>

theorem forbid_refines_lock:
  assumes "cached_operator_ok Q rv view" and "runs_wf (op_meta Q) (view (w_cluster w))" and "runs_home u N (view (w_cluster w))"
    and "(fresh_step u N Q rv view)\<^sup>*\<^sup>* w w'"
  shows "lock_step\<^sup>*\<^sup>* (holders u (view (w_cluster w))) (holders u (view (w_cluster w')))"
  using scan_lock.steps_simulated [OF sound_steps [OF assms(1,4)]] assms(1-3) by blast

text \<open>
  C1. At most one active Run, on a client that reads a cache: started on a cluster without Runs, two stored Runs that the Scan with UID \<open>u\<close> owns
  and that have not ended are the same Run, whatever the order of reconciles, restarts, cache refreshes and outside
  changes, as long as its policy is not Allow and the cache shows its active Runs whenever it is reconciled. The condition on the
  cache is needed: without it a second Run starts (\<open>StaleReads\<close>).
\<close>

theorem at_most_one_active_run:
  assumes "cached_operator_ok Q rv view" and "view (w_cluster w) = Map.empty" and "(fresh_step u N Q rv view)\<^sup>*\<^sup>* w w'"
    and "view (w_cluster w') k = Some run" and "owned_by u run" and "\<not> isTerminal (run_phase run)"
    and "view (w_cluster w') k' = Some run'" and "owned_by u run'" and "\<not> isTerminal (run_phase run')"
  shows "k = k' \<and> run = run'"
proof -
  have "card (holders u (view (w_cluster w'))) \<le> 1 \<and> finite (holders u (view (w_cluster w')))"
    by (rule scan_lock.transfers [OF sound_steps [OF assms(1,3)] _ _ lock_exclusive])
      (use assms(1,2) in \<open>simp_all add: runs_wf_empty runs_home_def holders_def\<close>)
  moreover have "k \<in> holders u (view (w_cluster w'))" "k' \<in> holders u (view (w_cluster w'))"
    using assms(4-9) unfolding holders_def by blast+
  ultimately have "k = k'" by (auto simp: card_le_Suc0_iff_eq)
  with assms(4,7) show ?thesis by simp
qed

section \<open>The binary\<close>

text \<open>
  The operator \<open>main\<close> creates works on the manager's client. Over a sound API server and sound libraries it is one for which the lock is proved, and one
  whose stored Runs stay consistent.
\<close>

lemma main_cached_ok:
  assumes "run_store K view" and "meta_conditions (lib_meta L)" and "\<forall>t. \<not> IsZero (lib_metaNow L t)"
  shows "cached_operator_ok (main_operator L (cached K) f) (\<lambda>s. view (fst s)) (\<lambda>s. view (snd s))"
  using assms by (simp add: cached_operator_ok_def sound_libs_def cached_store_ok)

theorem controllers_keep_runs_witness:
  "\<exists>w w' k run run'. controller_step ex_Q w w' \<and> sim_view (w_cluster w) k = Some run \<and>
     sim_view (w_cluster w') k = Some run' \<and> same_object run run'"
proof -
  obtain w run where st: "system_step ex_Q sim_view ex_quiet w"
    and run: "sim_view (w_cluster w) (run_key run) = Some run" "new_run run" and sec: "cl_secrets (w_cluster w) = []"
    by (rule ex_quiet_step)
  have "Get_Run store_client (run_namespace run) (run_name run) (w_cluster w) = Inr run"
    using run(1) by (simp add: store_client_def sim_client_def sim_get_def sim_view_def)
  then obtain w' where step: "controller_step ex_Q w w'" using ex_run_step [OF sec _ run(2)] by blast
  have "runs_wf (op_meta ex_Q) (sim_view (w_cluster w))"
    using st system_step_wf [OF ex_operator_ok ex_quiet_invs(1)] by simp
  moreover have "sort_law (op_scan ex_Q)" using ex_operator_ok by (simp add: operator_ok_def)
  ultimately have "(\<exists>run'. sim_view (w_cluster w') (run_key run) = Some run' \<and> same_object run run' \<and>
      (run' = run \<or> phase_edge (run_phase run) (run_phase run'))) \<or>
    (sim_view (w_cluster w') (run_key run) = None \<and> isTerminal (run_phase run))"
    using controllers_keep_runs [OF operator_ok_current [OF ex_operator_ok] _ _ step run(1)] run(1) by simp
  with new_run_active [OF run(2)] run(1) step show ?thesis by blast
qed

text \<open>The binary of the example, its cache one step behind: it has not seen the Run that the Scan has just started.\<close>

definition ex_lag :: "(cluster \<times> cluster, nat) operator" where
  "ex_lag = main_operator (ex_libs\<lparr>lib_osClock := ex_scan_clock, lib_metaNow := ex_scan_clock\<rparr>) (cached store_client)
     (default_flags ''ops'')"

definition ex_cached :: "(cluster \<times> cluster) RenovateScanReconciler" where
  "ex_cached = \<lparr>sc_Client = cached store_client, sc_Clock = ex_scan_clock, sc_meta = ref_meta, sc_metaNow = ex_scan_clock,
     sc_LoadLocation = Inr, sc_cronParse = (\<lambda>expr. Inr hourly), sc_RFC3339 = (\<lambda>t. itoa (wall t)),
     sc_sortSlice = (\<lambda>less. sort_key (\<lambda>run. - wall (completionOrCreation run)))\<rparr>"

lemma ex_lag_scan [simp]: "op_scan ex_lag = ex_cached"
  by (simp add: ex_lag_def main_operator_def ex_libs_def ex_cached_def RenovateScanReconciler_SetupWithManager_def RealClock_def
      split: prod.split)

abbreviation cache_view :: "cluster \<times> cluster \<Rightarrow> run_view" where
  "cache_view s \<equiv> sim_view (fst s)"

abbreviation live_view :: "cluster \<times> cluster \<Rightarrow> run_view" where
  "live_view s \<equiv> sim_view (snd s)"

lemma ex_lag_ok: "cached_operator_ok ex_lag cache_view live_view"
  unfolding ex_lag_def
  by (rule main_cached_ok) (simp_all add: run_store_def store_reads store_writes store_spares ex_libs_def
      ref.meta_conditions_axioms ex_scan_clock_def IsZero_def zero_wall_def nanos_per_hour_def nanos_per_second_def)

lemma ex_cached_passes:
  "scan_passes ex_cached ex_forbid_scan (w_cluster ex_quiet, s) ex_ready_platform ''UTC'' hourly ex_forbid1"
  using ex_quiet_passes
  by (simp add: scan_passes_def ex_cached_def cached_def refreshActiveRuns_eq parseSchedule_def ex_Q_def ex_S_def Let_def)

lemma ex_cached_fire:
  assumes "w_ticks w = 0"
  obtains missed nextFire where "computeFireTimes hourly (sst_lastRunTime (scan_status ex_forbid1)) (scan_now ex_cached w) ''UTC'' =
      Some (missed, nextFire)" and "\<not> IsZero missed"
proof (rule ex_fire)
  fix missed nextFire
  assume "computeFireTimes hourly (sst_lastRunTime (scan_status ex_scan1)) (scan_now ex_S ex_scan_world) ''UTC'' =
      Some (missed, nextFire)" and "\<not> IsZero missed"
  then show thesis using that assms by (simp add: ex_cached_def ex_S_def ex_scan_world_def)
qed

definition ex_twin :: "(cluster \<times> cluster, nat) world" where
  "ex_twin = \<lparr>w_cluster = (w_cluster ex_quiet, w_cluster ex_quiet), w_net = 0, w_ticks = 0, w_metrics = []\<rparr>"

lemma ex_lag_step:
  obtains w' run where "fresh_step ''scan-uid'' ''team'' ex_lag cache_view live_view ex_twin w'"
    and "live_view (w_cluster w') (run_key run) = Some run" and "owned_by ''scan-uid'' run" and "new_run run"
    and "cache_view (w_cluster w') = Map.empty"
proof -
  let ?c = "w_cluster ex_quiet"
  obtain missed nextFire where cf: "computeFireTimes hourly (sst_lastRunTime (scan_status ex_forbid1))
      (scan_now ex_cached ex_twin) ''UTC'' = Some (missed, nextFire)" and m: "\<not> IsZero missed"
    by (rule ex_cached_fire [of ex_twin]) (simp add: ex_twin_def)
  define run where "run = run_meta_update (stamp 7) (newRun ex_cached ex_forbid_scan ex_ready_platform missed)"
  define s1 where "s1 = ?c\<lparr>cl_runs := [run], cl_next := 8\<rparr>"
  have cr: "Create_Run (sc_Client ex_cached) (newRun ex_cached ex_forbid_scan ex_ready_platform missed) (w_cluster ex_twin) =
      (Inr run, (?c, s1))"
    by (simp add: ex_cached_def cached_def live_def store_client_def sim_client_def sim_create_def run_def s1_def ex_twin_def
        ex_quiet_def ex_scan_cluster_def Let_def)
  have new: "new_run run" using newRun_facts(1) by (simp add: run_def new_run_def)
  have gc: "gcOldRuns ex_cached ex_forbid_scan (?c, s1) = (None, (?c, s1))"
    by (simp add: gcOldRuns_def ex_cached_def cached_def store_client_def deleteOldest_def ex_quiet_def
        ex_forbid_scan_def ex_hourly_scan_def Let_def)
  have skip: "\<not> shouldSkipForConcurrency ex_forbid1" by (simp add: shouldSkip_active)
  have pass: "scan_passes ex_cached ex_forbid_scan (w_cluster ex_twin) ex_ready_platform ''UTC'' hourly ex_forbid1"
    using ex_cached_passes by (simp add: ex_twin_def)
  from scan_reconcile_creates [OF pass cf m skip cr gc] obtain oc scan' w1 where
    rec: "scan_reconcile ex_cached ex_forbid_scan ex_twin = Some (oc, scan', w1)" and w1: "w_cluster w1 = (?c, s1)" by blast
  have get: "Get_Scan (sc_Client ex_cached) ''team'' ''nightly'' (w_cluster ex_twin) = Inr ex_forbid_scan"
    by (simp add: ex_cached_def cached_def store_client_def sim_client_def sim_get_def ex_twin_def ex_quiet_def is_at_def
        ex_forbid_scan_def ex_hourly_scan_def)
  obtain ue w' where save: "on_cluster (StatusUpdate_Scan (sc_Client ex_cached) scan') w1 = (ue, w')" by fastforce
  have sp: "spares_runs (sc_Client ex_cached) cache_view" "spares_runs (sc_Client ex_cached) live_view"
    using ex_lag_ok ex_lag_scan by (simp_all add: cached_operator_ok_def cached_store_def)
  have same: "cache_view (w_cluster w') = sim_view ?c" "live_view (w_cluster w') = sim_view s1"
    using spares_runsD(6) [OF sp(1) save] spares_runsD(6) [OF sp(2) save] by (simp_all add: w1)
  have "\<exists>oc'. scan_Reconcile (op_scan ex_lag) ''team'' ''nightly'' ex_twin = Some (oc', w')"
    using get rec save by (cases oc) (simp add: scan_Reconcile_def split: option.split)
  moreover have "exclusive ''scan-uid'' ''team'' scan \<and> shows_active ''scan-uid'' (cache_view (w_cluster ex_twin)) (live_view (w_cluster ex_twin))"
    if "Get_Scan (sc_Client (op_scan ex_lag)) ''team'' ''nightly'' (w_cluster ex_twin) = Inr scan" for scan
    using that get by (auto simp: exclusive_def ex_forbid_scan_def ex_hourly_scan_def shows_active_def ex_twin_def)
  ultimately have "fresh_step ''scan-uid'' ''team'' ex_lag cache_view live_view ex_twin w'"
    by (blast intro: fresh_scan)
  moreover have "live_view (w_cluster w') (run_key run) = Some run" by (simp add: same sim_view_def s1_def is_at_def)
  moreover have "owned_by ''scan-uid'' run"
    by (simp add: run_def owned_by_def stamp_def newRun_def ex_forbid_scan_def ex_hourly_scan_def)
  ultimately show ?thesis using new same(1) by (intro that) (simp_all add: ex_quiet_empty)
qed

lemma ex_twin_empty: "live_view (w_cluster ex_twin) = Map.empty"
  by (simp add: ex_twin_def ex_quiet_empty)

theorem stored_runs_consistent_witness:
  "\<exists>w' k run. (system_step ex_lag live_view)\<^sup>*\<^sup>* ex_twin w' \<and> live_view (w_cluster w') k = Some run \<and>
     cache_view (w_cluster w') k = None \<and> run_wf ref_meta run"
proof -
  obtain w' run where st: "fresh_step ''scan-uid'' ''team'' ex_lag cache_view live_view ex_twin w'"
    and run: "live_view (w_cluster w') (run_key run) = Some run" and lag: "cache_view (w_cluster w') = Map.empty" by (rule ex_lag_step)
  have steps: "(system_step ex_lag live_view)\<^sup>*\<^sup>* ex_twin w'" using fresh_step_system [OF st] by (simp add: r_into_rtranclp)
  have "op_meta ex_lag = ref_meta"
    by (simp add: ex_lag_def main_operator_def ex_libs_def RenovateRunReconciler_SetupWithManager_def split: prod.split)
  with stored_runs_consistent [OF ex_lag_ok ex_twin_empty steps run] have "run_wf ref_meta run" by simp
  moreover have "cache_view (w_cluster w') (run_key run) = None" by (simp only: lag)
  ultimately show ?thesis using steps run by (intro exI conjI)
qed

theorem forbid_refines_lock_witness:
  "\<exists>w'. (fresh_step ''scan-uid'' ''team'' ex_lag cache_view live_view)\<^sup>*\<^sup>* ex_twin w' \<and>
     lock_step\<^sup>*\<^sup>* {} (holders ''scan-uid'' (live_view (w_cluster w'))) \<and>
     holders ''scan-uid'' (live_view (w_cluster w')) \<noteq> {} \<and> cache_view (w_cluster w') = Map.empty"
proof -
  obtain w' run where "fresh_step ''scan-uid'' ''team'' ex_lag cache_view live_view ex_twin w'"
    and "live_view (w_cluster w') (run_key run) = Some run" "owned_by ''scan-uid'' run" "new_run run"
    and lag: "cache_view (w_cluster w') = Map.empty" by (rule ex_lag_step)
  then have steps: "(fresh_step ''scan-uid'' ''team'' ex_lag cache_view live_view)\<^sup>*\<^sup>* ex_twin w'"
    and held: "holders ''scan-uid'' (live_view (w_cluster w')) \<noteq> {}"
    by (auto simp: holders_def dest: new_run_active)
  have "runs_wf (op_meta ex_lag) (live_view (w_cluster ex_twin))" "runs_home u N (live_view (w_cluster ex_twin))"
    "holders u (live_view (w_cluster ex_twin)) = {}" for u N
    by (simp_all add: ex_twin_empty runs_wf_empty runs_home_def holders_def)
  with forbid_refines_lock [OF ex_lag_ok this(1,2) steps] steps held lag show ?thesis by auto
qed

theorem at_most_one_active_run_witness:
  "\<exists>w' k. (fresh_step ''scan-uid'' ''team'' ex_lag cache_view live_view)\<^sup>*\<^sup>* ex_twin w' \<and>
     holders ''scan-uid'' (live_view (w_cluster w')) = {k} \<and> cache_view (w_cluster w') = Map.empty"
proof -
  obtain w' run where "fresh_step ''scan-uid'' ''team'' ex_lag cache_view live_view ex_twin w'"
    and run: "live_view (w_cluster w') (run_key run) = Some run" "owned_by ''scan-uid'' run" "new_run run"
    and lag: "cache_view (w_cluster w') = Map.empty" by (rule ex_lag_step)
  then have steps: "(fresh_step ''scan-uid'' ''team'' ex_lag cache_view live_view)\<^sup>*\<^sup>* ex_twin w'" by blast
  note one = at_most_one_active_run [OF ex_lag_ok ex_twin_empty steps run(1,2) new_run_active [OF run(3)]]
  have "holders ''scan-uid'' (live_view (w_cluster w')) = {run_key run}"
    using run one new_run_active [OF run(3)] unfolding holders_def by blast
  with steps lag show ?thesis by blast
qed

end
