(* ===== verification/StaleReads.thy ===== *)
theory StaleReads
  imports Progress ScanLock
begin

text \<open>
  What the lock of a Scan is worth when the cache is behind in the Runs of that Scan as it is reconciled: the condition
  that \<open>ScanLock\<close> puts on the cache cannot be dropped.
\<close>

section \<open>What is left of the lock\<close>

lemma prunes_holders_eq:
  assumes "prunes scan v v'"
  shows "holders u v' = holders u v"
proof -
  have "k \<in> holders u v' \<longleftrightarrow> k \<in> holders u v" for k
    using assms [unfolded prunes_def, rule_format, of k] by (elim disjE) (auto simp: holders_def)
  then show ?thesis by blast
qed

text \<open>
  C15. A cache that is behind lets a second Run start. Let a due Scan whose policy is not Allow be reconciled with a
  cached client, and let everything the cache shows still be stored, but the cache show no active Run of the Scan. Then the reconcile
  creates a Run beside all those that are active on the API server.
\<close>

theorem stale_reads_break_lock:
  assumes "run_store K view" and "sc_Client S = cached K" and "sort_law S"
    and "w_cluster w = (cache, server)" and "view cache \<subseteq>\<^sub>m view server" and "scan_due S scan w missed run s2"
    and "holders (m_uid (scan_meta scan)) (view cache) = {}"
    and "holders (m_uid (scan_meta scan)) (view server) = {k}"
  shows "\<exists>oc scan' w'. scan_reconcile S scan w = Some (oc, scan', w') \<and> run_key run \<noteq> k \<and>
    holders (m_uid (scan_meta scan)) (view (snd (w_cluster w'))) = {k, run_key run}"
  using assms(6)
proof cases
  case (due platform loc sched scan1 nextFire s1)
  let ?u = "m_uid (scan_meta scan)"
  have Rd: "reads_runs (sc_Client S) (\<lambda>s. view (fst s))" and W: "writes_runs (sc_Client S) (\<lambda>s. view (snd s))"
    using assms(1,2) cached_reads [of K view] cached_writes [of K view] by (simp_all add: run_store_def)
  have skip: "\<not> shouldSkipForConcurrency scan1"
    by (rule no_holder_not_skipped [OF Rd due(1)]) (simp add: assms(4,7))
  have none: "view server (run_key run) = None" and v1: "view (snd s1) = (view server)(run_key run \<mapsto> run)"
    and run: "run_status run = fresh_status" "owned_by ?u run"
  proof -
    note c = W [unfolded writes_runs_def, THEN conjunct2, THEN conjunct1, rule_format, OF due(4), unfolded assms(4) snd_conv]
    show "view server (run_key run) = None" "view (snd s1) = (view server)(run_key run \<mapsto> run)"
      using c by - (elim conjE, assumption)+
    show "run_status run = fresh_status" "owned_by ?u run"
      using c by (simp_all add: newRun_facts [unfolded new_run_def owned_by_def] owned_by_def)
  qed
  have "fst s1 = cache" using due(4) by (simp add: assms(2,4) cached_def live_eq)
  have stored: "view (snd s1) (run_key r) = Some r"
    if "List_Runs (sc_Client S) (m_namespace (scan_meta scan)) s1 = Inr runs" and "r \<in> set runs" for runs r
  proof -
    have "view cache (run_key r) = Some r" using Rd that \<open>fst s1 = cache\<close> unfolding reads_runs_def by blast
    with assms(5) have "view server (run_key r) = Some r" by (metis domI map_le_def)
    with none v1 show ?thesis by auto
  qed
  have "prunes scan (view (snd s1)) (view (snd s2))" by (rule gcOldRuns_prunes_listed [OF W assms(3) due(5) stored])
  then have "holders ?u (view (snd s2)) = holders ?u (view (snd s1))" by (rule prunes_holders_eq)
  also have "\<dots> = {k, run_key run}"
    using run none assms(8) by (auto simp: holders_def v1 fresh_status_def isTerminal_def)
  finally have "holders ?u (view (snd s2)) = {k, run_key run}" .
  moreover have "run_key run \<notin> holders ?u (view server)" using none by (simp add: holders_def)
  then have "run_key run \<noteq> k" using assms(8) by blast
  ultimately show ?thesis using scan_reconcile_creates [OF due(1-3) skip due(4,5)] by blast
qed


text \<open>An example: the cache has not seen the only Run yet.\<close>

definition ex_behind :: "(cluster \<times> cluster, nat) world" where
  "ex_behind = \<lparr>w_cluster = (w_cluster ex_quiet, w_cluster (ex_blocked ex_blocking)), w_net = 0, w_ticks = 0,
     w_metrics = []\<rparr>"

lemma ex_behind_due:
  obtains missed run s2 where "scan_due ex_cached ex_forbid_scan ex_behind missed run s2"
proof -
  obtain missed nextFire where cf: "computeFireTimes hourly (sst_lastRunTime (scan_status ex_forbid1))
      (scan_now ex_cached ex_behind) ''UTC'' = Some (missed, nextFire)" and m: "\<not> IsZero missed"
    by (rule ex_cached_fire [of ex_behind]) (simp add: ex_behind_def)
  have pass: "scan_passes ex_cached ex_forbid_scan (w_cluster ex_behind) ex_ready_platform ''UTC'' hourly ex_forbid1"
    using ex_cached_passes by (simp add: ex_behind_def)
  define run where "run = run_meta_update (stamp 7) (newRun ex_cached ex_forbid_scan ex_ready_platform missed)"
  let ?s = "snd (w_cluster ex_behind)"
  define s1 where "s1 = (w_cluster ex_quiet, ?s\<lparr>cl_runs := [ex_blocking, run], cl_next := 8\<rparr>)"
  have cr: "Create_Run (sc_Client ex_cached) (newRun ex_cached ex_forbid_scan ex_ready_platform missed) (w_cluster ex_behind)
      = (Inr run, s1)"
    using ex_blocking_facts(1) by (simp add: ex_cached_def cached_def live_def store_client_def sim_client_def sim_create_def
        run_def s1_def ex_behind_def is_at_def Let_def stamp_def newRun_def ex_forbid_scan_def ex_hourly_scan_def
        empty_meta_def itoa_nat.simps digit_char_def char_of_def)
  have gc: "gcOldRuns ex_cached ex_forbid_scan s1 = (None, s1)"
    by (simp add: gcOldRuns_def ex_cached_def cached_def store_client_def s1_def deleteOldest_def ex_quiet_def
        ex_forbid_scan_def ex_hourly_scan_def Let_def)
  from that [OF scan_due.due [OF pass cf m cr gc]] show thesis .
qed

theorem stale_reads_break_lock_witness:
  "\<exists>oc scan' w' run. scan_reconcile ex_cached ex_forbid_scan ex_behind = Some (oc, scan', w') \<and>
     run_key run \<noteq> (''team'', ''nightly-1'') \<and>
     holders ''scan-uid'' (sim_view (snd (w_cluster w'))) = {(''team'', ''nightly-1''), run_key run}"
proof -
  obtain missed run s2 where due: "scan_due ex_cached ex_forbid_scan ex_behind missed run s2" by (rule ex_behind_due)
  have u: "m_uid (scan_meta ex_forbid_scan) = ''scan-uid''" by (simp add: ex_forbid_scan_def ex_hourly_scan_def)
  have K: "sc_Client ex_cached = cached store_client" by (simp add: ex_cached_def)
  have sort: "sort_law ex_cached" using ex_sort_law by (simp add: sort_law_def ex_cached_def ex_S_def)
  have store: "run_store store_client sim_view" by (simp add: run_store_def store_reads store_writes store_spares)
  have w: "w_cluster ex_behind = (w_cluster ex_quiet, w_cluster (ex_blocked ex_blocking))" by (simp add: ex_behind_def)
  have behind: "sim_view (w_cluster ex_quiet) \<subseteq>\<^sub>m sim_view (w_cluster (ex_blocked ex_blocking))" by (simp add: ex_quiet_empty)
  have held: "holders (m_uid (scan_meta ex_forbid_scan)) (sim_view (w_cluster (ex_blocked ex_blocking))) = {(''team'', ''nightly-1'')}"
    using ex_blocking_facts by (auto simp: holders_def ex_blocked_view u isTerminal_def)
  from stale_reads_break_lock [OF store K sort w behind due ex_quiet_invs(2) held] show ?thesis unfolding u by blast
qed

end
