(* ===== verification/LongNames.thy ===== *)
theory LongNames
  imports Progress
begin

text \<open>
  Long names: \<open>JobName\<close> cuts the name of a Run to 56 characters, and with it the suffix the API server generated.
  Two Runs of a Scan with a long name then share a Job.
\<close>

lemma ensureShardConfigMap_jobs:
  assumes "child_store (rn_Client R)" and "ensureShardConfigMap R run repos w = (r, w')"
  shows "jobs_of (rn_Client R) (w_cluster w') = jobs_of (rn_Client R) (w_cluster w)"
  using assms(2)
  by (auto simp: ensureShardConfigMap_def Let_def split: sum.splits if_splits prod.splits dest: child_storeD [OF assms(1)])

lemma dispatchRun_keeps_jobs:
  assumes "child_store (rn_Client R)" and "run_job R run w = Inr job" and "dispatchRun R m repos run w = (oc, run', w')"
  shows "jobs_of (rn_Client R) (w_cluster w') = jobs_of (rn_Client R) (w_cluster w)"
proof -
  have kept: "w3 = sharded run k w1 \<and> jobs_of (rn_Client R) (w_cluster w1) = jobs_of (rn_Client R) (w_cluster w)"
    if "ensureShardConfigMap R run repos w = (Inr (cm', k), w1)"
      and "ensureWorkerJob R (shards_noted (length repos) cm' k run) m cm' k (sharded run k w1) = (j, w3)" for cm' k w1 j w3
  proof -
    have w1: "jobs_of (rn_Client R) (w_cluster w1) = jobs_of (rn_Client R) (w_cluster w)"
      by (rule ensureShardConfigMap_jobs [OF assms(1) that(1)])
    then have "run_job R (shards_noted (length repos) cm' k run) (sharded run k w1) = Inr job"
      using assms(2) by (simp add: fun_eq_iff)
    from ensureWorkerJob_reuses(1) [OF this that(2)] w1 show ?thesis by blast
  qed
  from assms(3) show ?thesis
  proof (cases rule: dispatchRun_path)
    case (no_shards e w1)
    with ensureShardConfigMap_jobs [OF assms(1) no_shards(1)] step_clusters(2) [OF no_shards(2)] show ?thesis by simp
  next
    case (no_job cm' k w1 e w3)
    with kept [OF no_job(1,2)] step_clusters(2) [OF no_job(3)] show ?thesis by simp
  next
    case (started cm' k w1 job' w3)
    with kept [OF started(1,2)] step_clusters(3) [OF started(3)] show ?thesis by simp
  qed (simp add: step_clusters(1))
qed

lemma shared_job_name:
  "take 56 (run_name run) = take 56 (run_name old) \<Longrightarrow> JobName (run_name run) = JobName (run_name old)"
  by (simp add: jobname.mk_eq_iff)

text \<open>
  C25. A Run that succeeds without a worker. Let the names of two Runs of a namespace agree in their first 56 characters, as those of
  a Scan with a long name do, and let the Job of the older one have succeeded. When a reconcile takes the newer one to
  Running it starts no Job, and the next reconcile finds that Job and ends the newer Run as Succeeded.
\<close>

theorem long_names_share_job:
  assumes "child_store (rn_Client R)" and "run_phase run \<in> {RunPhaseUnset, RunPhasePending, RunPhaseDiscovering}"
    and "run_namespace run = run_namespace old" and "take 56 (run_name run) = take 56 (run_name old)"
    and "run_job R old w = Inr job" and "m_name (job_meta job) = JobName (run_name old)"
    and "m_namespace (job_meta job) = run_namespace old" and "all_succeeded (run_job R old w)"
    and "run_reconcile R run w = Some (oc, run1, w1)" and "run_phase run1 = RunPhaseRunning"
  shows "jobs_of (rn_Client R) (w_cluster w1) = jobs_of (rn_Client R) (w_cluster w) \<and>
    (\<exists>run2 w2. run_reconcile R run1 w1 = Some ((noRequeue, None), run2, w2) \<and> run_phase run2 = RunPhaseSucceeded)"
proof -
  note name = shared_job_name [OF assms(4)]
  from assms(1,2,9) have jobs: "jobs_of (rn_Client R) (w_cluster w1) = jobs_of (rn_Client R) (w_cluster w)"
  proof (cases rule: discovering_step)
    case early
    then show ?thesis by (simp add: same_children_def)
  next
    case (dispatch m repos runA wA)
    have wA: "jobs_of (rn_Client R) (w_cluster wA) = jobs_of (rn_Client R) (w_cluster w)"
      using dispatch(2) by (simp add: same_children_def)
    then have "run_job R runA wA = Inr job" using assms(3,5) name dispatch(3) by (simp add: same_object_def fun_eq_iff)
    from dispatchRun_keeps_jobs [OF assms(1) this dispatch(1)] wA show ?thesis by simp
  qed
  from running_refers [OF assms(1,2,9,10)] have refs: "refers_to_children R run1 w1" and so: "same_object run run1" by blast+
  have "run_job R run1 w1 = Inr job" using jobs assms(3,5) name so by (simp add: same_object_def fun_eq_iff)
  with refs have ref: "rst_workerJobRef (run_status run1) = Some (job_ref job)"
    by (auto simp: refers_to_children_def split: sum.splits)
  have "rst_workerJobRef (run_status (observed run1)) = Some (job_ref job)" using ref by (simp add: observed_def Let_def)
  moreover have "all_succeeded (Get_Job (rn_Client R) (or_namespace (job_ref job)) (or_name (job_ref job)) (w_cluster w1))"
    using assms(6-8) jobs by (simp add: job_ref_def fun_eq_iff)
  ultimately obtain run2 w2 where "observeJob R (observed run1) w1 = ((noRequeue, None), run2, w2)"
    and "run_phase run2 = RunPhaseSucceeded" by (rule observeJob_succeeds)
  with jobs assms(10) show ?thesis by (simp add: run_reconcile_eq)
qed

section \<open>An example: two Runs of a Scan with a long name\<close>

definition ex_named :: "string \<Rightarrow> RenovateRun" where
  "ex_named name = run_meta_update (\<lambda>m. m\<lparr>m_name := name\<rparr>) ex_run"

text \<open>The Job of the Run, complete.\<close>

definition ex_done_job :: "string \<Rightarrow> Job" where
  "ex_done_job name = job_meta_update (\<lambda>m. m\<lparr>m_name := JobName name, m_namespace := ''team''\<rparr>) (ex_job 2)"

definition ex_after :: "string \<Rightarrow> cluster" where
  "ex_after name = ex_start\<lparr>cl_jobs := [ex_done_job name]\<rparr>"

lemma ex_named_simps [simp]:
  "run_name (ex_named name) = name" "run_namespace (ex_named name) = ''team''" "run_spec (ex_named name) = run_spec ex_run"
  "run_phase (ex_named name) = RunPhaseUnset" "runBounds (ex_named name) = runBounds ex_run"
  by (simp_all add: ex_named_def runBounds_def ex_run_def fresh_status_def)

lemma ex_named_job:
  "run_job ex_R (ex_named name) (ex_world (ex_after name)) = Inr (ex_done_job name)"
  by (simp add: ex_R_def sim_client_def sim_get_def is_at_def ex_world_def ex_after_def ex_done_job_def)

lemma ex_named_clear:
  assumes "JobName name = JobName old"
  obtains res job s3 where "way_clear ex_R (ex_named name) (ex_world (ex_after old)) res job s3"
proof -
  let ?run = "ex_named name" and ?s = "ex_after old"
  obtain dst where dst: "BuildMirror (Some ?run) ''tok'' = Inr dst"
    and dm: "m_name (sec_meta dst) = MirrorName name" "m_namespace (sec_meta dst) = ''team''"
    by (auto simp: BuildMirror_def Let_def)
  have ne: "MirrorName name \<noteq> []" by (simp add: MirrorName_def mirrorPrefix_def Let_def)
  define m where "m = sec_meta_update (stamp 0) dst"
  define s1 where "s1 = ?s\<lparr>cl_secrets := [ex_secret, m], cl_next := 1\<rparr>"
  from ex_run_build obtain res where res: "Build (rn_gzip ex_R) [Repository ''org/a''] (runBounds ex_run) = Inr res" ..
  define cm where "cm = cm_meta_update (stamp 1) (shardConfigMap ?run (Data res))"
  define s2 where "s2 = s1\<lparr>cl_cms := [cm], cl_next := 2\<rparr>"
  from ex_buildEnv obtain envs where envs: "buildEnv ex_unmarshal ex_platform ex_scan
      \<lparr>SecretName = m_name (sec_meta m), TokenKey = MirrorAccessTokenKey\<rparr> = Inr envs" by blast
  let ?a = "\<lparr>pr_slug = ''org/a'', pr_defaultBranch = ''main'', pr_archived = False, pr_fork = False, pr_topics = []\<rparr>"
  have names: "rs_platformSnapshot (run_spec ex_run) = ex_platform" "rs_scanSnapshot (run_spec ex_run) = ex_scan"
    by (simp_all add: ex_run_def)
  have mn: "m_name (sec_meta m) = MirrorName name" using ne by (simp add: m_def stamp_def dm)
  have c1: "mirrored_as sim_client dst ?s m s1"
    using ne by (simp add: mirrored_as_def sim_client_def sim_create_def sim_get_def ex_after_def ex_start_def empty_cluster_def is_at_def
        ex_secret_def stamp_def dm m_def s1_def Let_def)
  have c2: "ensured (Get_ConfigMap sim_client ''team'' (name @ ''-shards'')) (Create_ConfigMap sim_client (shardConfigMap ?run (Data res))) s1 cm s2"
    by (simp add: ensured_def sim_client_def sim_create_def sim_get_def ex_after_def ex_start_def empty_cluster_def cm_def s1_def s2_def Let_def)
  have c3: "ensured (Get_Job sim_client ''team'' (JobName name)) create s2 (ex_done_job old) s2" for create
    using assms by (simp add: ensured_def sim_client_def sim_get_def is_at_def s2_def s1_def ex_after_def ex_done_job_def)
  have K: "rn_Client ex_R = sim_client" "rn_OperatorNamespace ex_R = ''ops''" "rn_unmarshal ex_R = ex_unmarshal"
    "\<And>spec sec. rn_PlatformClientFactory ex_R spec sec = Inr ex_forge" by (simp_all add: ex_R_def)
  have w: "w_cluster (ex_world ?s) = ?s" "w_net (ex_world ?s) = 0" by (simp_all add: ex_world_def)
  have "way_clear ex_R ?run (ex_world ?s) res (ex_done_job old) s2"
  proof (rule clear [where srcName = "''creds''" and source = ex_secret and plat = ex_forge and tok = "''tok''" and expiry = zero_time
        and ?n1.0 = 0 and dst = dst and m = m and ?s1.0 = s1 and all = "[?a]" and ?n2.0 = 1 and repos = "[?a]" and ?n3.0 = 2
        and cm = cm and ?s2.0 = s2 and envs = envs])
    show "SourceSecretName (Some ?run) = Inr ''creds''"
      by (simp add: SourceSecretName_def names ex_platform_def)
    show "Get_Secret (rn_Client ex_R) (rn_OperatorNamespace ex_R) ''creds'' (w_cluster (ex_world ?s)) = Inr ex_secret"
      by (simp add: K ex_world_def sim_client_def sim_get_def is_at_def ex_after_def ex_start_def ex_secret_def)
    show "probed ex_forge ?run [?a] 1 = (Inr [?a], 2)"
      by (simp add: probed_def RequireConfigEnabled_def ex_forge_def names ex_scan_def)
  qed (use dst res envs c1 c2 c3 mn ne in \<open>simp_all add: K w names ex_forge_def\<close>)
  then show thesis by (rule that)
qed

theorem long_names_share_job_witness:
  "\<exists>old run oc run1 w1 run2 w2. run_name old \<noteq> run_name run \<and>
     run_reconcile ex_R run (ex_world (ex_after (run_name old))) = Some (oc, run1, w1) \<and> run_phase run1 = RunPhaseRunning \<and>
     run_reconcile ex_R run1 w1 = Some ((noRequeue, None), run2, w2) \<and> run_phase run2 = RunPhaseSucceeded"
proof -
  let ?long = "replicate 56 CHR ''a''"
  let ?old = "ex_named (?long @ ''1'')" and ?run = "ex_named (?long @ ''2'')"
  let ?w = "ex_world (ex_after (run_name ?old))"
  have pre: "take 56 (run_name ?run) = take 56 (run_name ?old)" by simp
  note name = shared_job_name [OF pre]
  obtain res job s3 where clear: "way_clear ex_R ?run ?w res job s3"
    using ex_named_clear [of "?long @ ''2''" "?long @ ''1''"] name by auto
  from run_reaches [OF _ clear] obtain run1 w1 where
    rec: "run_reconcile ex_R ?run ?w = Some ((noRequeue, None), run1, w1)" and ph: "run_phase run1 = RunPhaseRunning" by auto
  have store: "child_store (rn_Client ex_R)" by (simp add: ex_R_def sim_child_store)
  have job: "run_job ex_R ?old ?w = Inr (ex_done_job (run_name ?old))" using ex_named_job [of "run_name ?old"] by simp
  have jm: "m_name (job_meta (ex_done_job (run_name ?old))) = JobName (run_name ?old)"
    "m_namespace (job_meta (ex_done_job (run_name ?old))) = run_namespace ?old" by (simp_all add: ex_done_job_def)
  have all: "all_succeeded (run_job ex_R ?old ?w)"
    by (simp only: job) (simp add: all_succeeded_def ex_done_job_def ex_job_meta)
  have phs: "run_phase ?run \<in> {RunPhaseUnset, RunPhasePending, RunPhaseDiscovering}" by simp
  have ns: "run_namespace ?run = run_namespace ?old" by simp
  from long_names_share_job [OF store phs ns pre job jm all rec ph] obtain run2 w2 where
    "run_reconcile ex_R run1 w1 = Some ((noRequeue, None), run2, w2)" and "run_phase run2 = RunPhaseSucceeded" by blast
  moreover have "run_name ?old \<noteq> run_name ?run" by simp
  ultimately show ?thesis using rec ph by blast
qed

end
