(* ===== verification/Failures.thy ===== *)
theory Failures
  imports RunProperties ClientFactory
begin

text \<open>
  What a failing forge makes of a Run: from the answer of the SDK through the client's error classes to the phase
  and the retry of the Run.
\<close>

section \<open>Up to discovery\<close>

text \<open>The credential resolves and is mirrored; the client is \<open>plat\<close>, and discovery starts in network state \<open>n\<close>.\<close>

inductive creds_ready ::
  "('s, 'n) RenovateRunReconciler \<Rightarrow> RenovateRun \<Rightarrow> ('s, 'n) world \<Rightarrow> 'n PlatformClient \<Rightarrow> 'n \<Rightarrow> bool"
  for R run w where
  ready: "SourceSecretName (Some run) = Inr srcName \<Longrightarrow>
    Get_Secret (rn_Client R) (rn_OperatorNamespace R) srcName (w_cluster w) = Inr source \<Longrightarrow>
    rn_PlatformClientFactory R (rs_platformSnapshot (run_spec run)) source = Inr plat \<Longrightarrow>
    pc_MintAccessToken plat (w_net w) = (Inr (tok, expiry), n) \<Longrightarrow> BuildMirror (Some run) tok = Inr dst \<Longrightarrow>
    mirrored_as (rn_Client R) dst (w_cluster w) m s1 \<Longrightarrow> creds_ready R run w plat n"

lemma discovery_fails:
  assumes "run_phase run \<in> {RunPhaseUnset, RunPhasePending, RunPhaseDiscovering}" and "creds_ready R run w plat n"
    and "pc_Discover plat (discoveryFilter run) n = Some (Inl e, n')"
  obtains run1 w1 where "run_reconcile R run w = Some (handleDiscoverErr R e run1 w1)" and "run_phase run1 = RunPhaseDiscovering"
  using assms(2)
proof cases
  case (ready srcName source tok expiry dst m s1)
  obtain run1 w1 where adm: "admitRun R (observed run) w = (run1, w1)" by fastforce
  have ph: "run_phase run1 = RunPhaseDiscovering" using adm by (auto simp: admitRun_def run_mark_eq read_clock_def Let_def)
  have so: "same_object run run1" using admitRun_run(1) [OF adm] by (simp add: same_object_def)
  have w1: "w_cluster w1 = w_cluster w" "w_net w1 = w_net w"
    using adm by (auto simp: admitRun_def run_mark_eq read_clock_def Let_def)
  have src: "fetchSourceSecret R run1 w1 = Inr source"
    using ready(1,2) by (simp add: fetchSourceSecret_def same_object_builders [OF so] w1)
  have id: "run_spec run1 = run_spec run" using so by (simp add: same_object_def)
  let ?w2 = "(w1\<lparr>w_net := n\<rparr>)\<lparr>w_cluster := s1\<rparr>"
  have mir: "mirrorCredential R run1 tok (w1\<lparr>w_net := n\<rparr>) = (Inr m, ?w2)"
    by (rule mirrorCredential_ensures) (use ready in \<open>simp_all add: same_object_builders [OF so] w1\<close>)
  obtain sl pl where lab: "runMetricLabels run1 = (sl, pl)" by fastforce
  let ?w3 = "?w2\<lparr>w_ticks := Suc (w_ticks ?w2)\<rparr>"
  have disc: "discoverRepos plat run1 ?w3 = Some (Inl e, ?w3\<lparr>w_net := n'\<rparr>)"
    using assms(3) by (simp add: discoverRepos_def same_object_builders [OF so])
  obtain w6 where "discoverAndDispatch R (observed run) w = Some (handleDiscoverErr R e run1 w6)"
    using adm src ready(3,4) mir disc lab by (simp add: discoverAndDispatch_def id read_clock_def w1 Let_def)
  then have "run_reconcile R run w = Some (handleDiscoverErr R e run1 w6)" using assms(1) by (auto simp: run_reconcile_eq)
  then show ?thesis using ph by (rule that)
qed

text \<open>A transient error leaves the Run discovering for 30 seconds; any other ends it, and is counted.\<close>

lemma failed_discovery:
  assumes "run_phase run \<in> {RunPhaseUnset, RunPhasePending, RunPhaseDiscovering}" and "creds_ready R run w plat n"
    and "pc_Discover plat (discoveryFilter run) n = Some (Inl e, n')"
  shows "\<exists>run' w'. run_reconcile R run w =
      Some ((if errors_Is e ErrTransient then requeue_in (30 * nanos_per_second) else noRequeue, None), run', w') \<and>
    run_phase run' = (if errors_Is e ErrTransient then RunPhaseDiscovering else RunPhaseFailed) \<and>
    terminal_count w' = (if errors_Is e ErrTransient then terminal_count w else Suc (terminal_count w))"
proof -
  obtain run1 w1 where rec: "run_reconcile R run w = Some (handleDiscoverErr R e run1 w1)"
    and ph: "run_phase run1 = RunPhaseDiscovering" by (rule discovery_fails [OF assms])
  have "\<exists>run' w'. handleDiscoverErr R e run1 w1 =
      ((if errors_Is e ErrTransient then requeue_in (30 * nanos_per_second) else noRequeue, None), run', w') \<and>
    run_phase run' = (if errors_Is e ErrTransient then RunPhaseDiscovering else RunPhaseFailed)"
    using ph by (simp add: handleDiscoverErr_def markTransient_def markFailed_def run_mark_eq read_clock_def
        requeueAfterRunTransient_def Let_def)
  with rec obtain run' w' where st: "run_reconcile R run w =
      Some ((if errors_Is e ErrTransient then requeue_in (30 * nanos_per_second) else noRequeue, None), run', w')"
    and p: "run_phase run' = (if errors_Is e ErrTransient then RunPhaseDiscovering else RunPhaseFailed)" by auto
  have "\<not> isTerminalPhase (run_phase run)" using assms(1) by (auto simp: isTerminalPhase_def)
  with run_end_count [OF _ st] p have "terminal_count w' = (if errors_Is e ErrTransient then terminal_count w else Suc (terminal_count w))"
    by (auto simp: isTerminalPhase_def)
  with st p show ?thesis by blast
qed

section \<open>GitHub\<close>

text \<open>The failures a Run survives: rate limits of either kind, 429 and the server's own errors.\<close>

fun survivable :: "gh_failure \<Rightarrow> bool" where
  "survivable (resp, OtherGhError e) = (case resp of None \<Rightarrow> False | Some status \<Rightarrow> status = 429 \<or> 500 \<le> status)"
| "survivable (resp, _) = True"

lemma survivable_transient: "errors_Is (gh_classify fl) ErrTransient \<longleftrightarrow> survivable fl"
  by (cases fl rule: survivable.cases) (auto simp: gh_classify_def gh_classifyErr_def Let_def split: option.split)

text \<open>
  A paged listing that fails: some page request, the first or a later one, is answered with the failure \<open>fl\<close>, after the
  pages before it were listed.
\<close>

inductive listing_fails ::
  "('n \<Rightarrow> goerror option \<times> 'n) \<Rightarrow> (int \<Rightarrow> 'n \<Rightarrow> gh_page \<times> 'n) \<Rightarrow> int \<Rightarrow> 'n \<Rightarrow> gh_failure \<Rightarrow> 'n \<Rightarrow> bool"
  for wait fetch where
  this_page: "wait n = (None, n1) \<Longrightarrow> fetch p n1 = (Inl fl, n2) \<Longrightarrow> listing_fails wait fetch p n fl n2"
| later_page: "wait n = (None, n1) \<Longrightarrow> fetch p n1 = (Inr (rs, q), n2) \<Longrightarrow> q \<noteq> 0 \<Longrightarrow>
    listing_fails wait fetch q n2 fl n3 \<Longrightarrow> listing_fails wait fetch p n fl n3"

text \<open>No part of a failed listing is used.\<close>

lemma gh_pages_fails:
  "listing_fails wait fetch p n fl n' \<Longrightarrow> gh_pages wait fetch keep p all n = Some (Inl (gh_classify fl), n')"
proof (induction arbitrary: all rule: listing_fails.induct)
  case (this_page n n1 p fl n2)
  then show ?case by (simp add: gh_pages.simps)
next
  case (later_page n n1 p rs q n2 fl n3)
  then show ?case by (subst gh_pages.simps) simp
qed

lemma app_listing_fails:
  assumes "ghc_appTransport c \<noteq> None" and "df_owner f \<noteq> ''''"
    and "listing_fails (gh_wait c) (Apps_ListRepos (ghc_gh c) 100) 0 n fl n'"
  shows "pc_Discover (github_client c) f n = Some (Inl (gh_classify fl), n')"
  using assms(1,2) gh_pages_fails [OF assms(3)]
  by (simp add: github_client_def gh_Discover_def listInstallationRepos_def gh_discoverPageSize_def)

text \<open>
  C29. What a failing GitHub makes of a Run. When the listing of an App's installation fails, at its first page or at any later one, a rate limit, 429 or
  5xx leaves the Run Discovering, to be tried again after 30 seconds. Every other failure, a request without
  any response included, ends it as Failed in the same reconcile, and the end is counted. The pages listed before the failure never take the Run to Running.
\<close>

theorem github_failure_decides_run:
  assumes "run_phase run \<in> {RunPhaseUnset, RunPhasePending, RunPhaseDiscovering}"
    and "creds_ready R run w (github_client c) n" and "ghc_appTransport c \<noteq> None" and "df_owner (discoveryFilter run) \<noteq> ''''"
    and "listing_fails (gh_wait c) (Apps_ListRepos (ghc_gh c) 100) 0 n fl n'"
  shows "\<exists>run' w'. run_reconcile R run w =
      Some ((if survivable fl then requeue_in (30 * nanos_per_second) else noRequeue, None), run', w') \<and>
    run_phase run' = (if survivable fl then RunPhaseDiscovering else RunPhaseFailed) \<and>
    terminal_count w' = (if survivable fl then terminal_count w else Suc (terminal_count w))"
  using failed_discovery [OF assms(1,2) app_listing_fails [OF assms(3-5)]] by (simp only: survivable_transient)

section \<open>Forgejo\<close>

definition fj_survivable :: "fj_failure \<Rightarrow> bool" where
  "fj_survivable fl = (case fst fl of None \<Rightarrow> True | Some status \<Rightarrow> status = 429 \<or> 500 \<le> status)"

lemma fj_survivable_transient: "errors_Is (fj_classify fl) ErrTransient \<longleftrightarrow> fj_survivable fl"
  by (cases fl) (auto simp: fj_classify_def fj_classifyErr_def fj_survivable_def split: option.split)

text \<open>
  The same for the listing of an organisation on Forgejo, where a request without any response is tried again. A 404 asks for
  the repositories of a user instead.
\<close>

lemma forgejo_failure_decides_run:
  assumes "run_phase run \<in> {RunPhaseUnset, RunPhasePending, RunPhaseDiscovering}"
    and "creds_ready R run w (forgejo_client c) n" and "df_owner (discoveryFilter run) \<noteq> ''''" and "fj_wait c n = (None, n1)"
    and "fj_ListOrgRepos (fjc_gitea c) (df_owner (discoveryFilter run)) 50 1 n1 = (Inl fl, n2)" and "fst fl \<noteq> Some 404"
  shows "\<exists>run' w'. run_reconcile R run w =
      Some ((if fj_survivable fl then requeue_in (30 * nanos_per_second) else noRequeue, None), run', w') \<and>
    run_phase run' = (if fj_survivable fl then RunPhaseDiscovering else RunPhaseFailed) \<and>
    terminal_count w' = (if fj_survivable fl then terminal_count w else Suc (terminal_count w))"
proof -
  have "\<not> fj_isNotFound (fj_classify fl)"
    using assms(6) by (cases fl) (auto simp: fj_isNotFound_def fj_classify_def fj_classifyErr_def split: option.split)
  then have "pc_Discover (forgejo_client c) (discoveryFilter run) n = Some (Inl (fj_classify fl), n2)"
    using assms(3-5) by (simp add: forgejo_client_def fj_Discover_def fj_listOrgRepos_def fj_pages.simps fj_discoverPageSize_def)
  from failed_discovery [OF assms(1,2) this] show ?thesis by (simp only: fj_survivable_transient)
qed

section \<open>An example: GitHub cannot be reached after the first page\<close>

definition ex_dead_gh :: "nat gh_client" where
  "ex_dead_gh = ex_gh_app\<lparr>ghc_gh := ex_gh_sdk\<lparr>Apps_ListRepos :=
     (\<lambda>size page n. (if page = 0 then Inr ([ex_gh_repo ''org'' ''a'' False], 2)
        else Inl (None, OtherGhError (errors_New ''connection reset'')), n))\<rparr>\<rparr>"

definition ex_R_gh :: "(cluster, nat) RenovateRunReconciler" where
  "ex_R_gh = ex_R\<lparr>rn_PlatformClientFactory := (\<lambda>spec secret. Inr (github_client ex_dead_gh))\<rparr>"

lemma ex_creds_ready: "creds_ready ex_R_gh ex_run (ex_world ex_start) (github_client ex_dead_gh) 0"
proof -
  obtain dst where dst: "BuildMirror (Some ex_run) ''ghs_1'' = Inr dst"
    and dm: "m_name (sec_meta dst) = ''renovate-creds-nightly-1''" "m_namespace (sec_meta dst) = ''team''"
    by (auto simp: BuildMirror_def ex_run_def MirrorName_def mirrorPrefix_def Let_def DNS1123LabelMaxLength_def)
  have "mirrored_as sim_client dst ex_start (sec_meta_update (stamp 0) dst)
      (ex_start\<lparr>cl_secrets := [ex_secret, sec_meta_update (stamp 0) dst], cl_next := 1\<rparr>)"
    by (simp add: mirrored_as_def sim_client_def sim_create_def sim_get_def ex_start_def empty_cluster_def is_at_def ex_secret_def
        stamp_def dm Let_def)
  then show ?thesis
    by (intro ready [of ex_run "''creds''" ex_R_gh "ex_world ex_start" ex_secret "github_client ex_dead_gh" "''ghs_1''" zero_time 0 dst])
      (use dst in \<open>simp_all add: SourceSecretName_def ex_R_gh_def ex_R_def ex_world_def ex_run_def sim_client_def sim_get_def
        is_at_def ex_start_def ex_secret_def empty_cluster_def github_client_def gh_MintAccessToken_def ex_dead_gh_def
        ex_gh_app_def ex_tr_def ex_platform_def\<close>)
qed

theorem github_failure_decides_run_witness:
  "\<exists>run' w'. run_reconcile ex_R_gh ex_run (ex_world ex_start) = Some ((noRequeue, None), run', w') \<and>
     run_phase run' = RunPhaseFailed"
proof -
  have own: "df_owner (discoveryFilter ex_run) \<noteq> ''''"
    by (simp add: discoveryFilter_def ex_run_def ex_scan_def discoveryOwner_def indexOf_def Let_def)
  have app: "ghc_appTransport ex_dead_gh \<noteq> None" by (simp add: ex_dead_gh_def ex_gh_app_def)
  have "listing_fails (gh_wait ex_dead_gh) (Apps_ListRepos (ghc_gh ex_dead_gh) 100) 2 1
      (None, OtherGhError (errors_New ''connection reset'')) 2"
    by (rule this_page [of _ _ 2]) (simp_all add: ex_dead_gh_def ex_gh_app_def)
  then have "listing_fails (gh_wait ex_dead_gh) (Apps_ListRepos (ghc_gh ex_dead_gh) 100) 0 0
      (None, OtherGhError (errors_New ''connection reset'')) 2"
    by (intro later_page [of _ 0 1 _ 0 "[ex_gh_repo ''org'' ''a'' False]" 2 1]) (simp_all add: ex_dead_gh_def ex_gh_app_def)
  from github_failure_decides_run [OF _ ex_creds_ready app own this] show ?thesis by (auto simp: ex_run_unset)
qed

end
