(* ===== verification/TestUtils.thy ===== *)
theory TestUtils
  imports Prelude "HOL-Library.Sublist"
begin

text \<open>
  \<open>test/utils\<close>: the helpers of the end-to-end suite. The operating system and the commands they run are the parameter
  \<open>os_api\<close>, functions over the state \<open>'h\<close> of the host; what they print to the test log is left out.
\<close>

section \<open>The host\<close>

record exec_Cmd =
  cmd_Args :: "string list"
  cmd_Dir :: string
  cmd_Env :: "string list"

record 'h os_api =
  os_Getwd :: "'h \<Rightarrow> string \<times> goerror option"
  os_Chdir :: "string \<Rightarrow> 'h \<Rightarrow> goerror option \<times> 'h"
  os_Environ :: "'h \<Rightarrow> string list"
  os_LookupEnv :: "string \<Rightarrow> 'h \<Rightarrow> string option"
  os_ReadFile :: "string \<Rightarrow> 'h \<Rightarrow> string res"
  os_WriteFile :: "string \<Rightarrow> string \<Rightarrow> 'h \<Rightarrow> goerror option \<times> 'h"
  cmd_CombinedOutput :: "exec_Cmd \<Rightarrow> 'h \<Rightarrow> (string \<times> goerror option) \<times> 'h"

section \<open>Strings of the standard library\<close>

abbreviation newline :: char where
  "newline \<equiv> CHR 0x0A"

fun strings_Index :: "string \<Rightarrow> string \<Rightarrow> nat option" where
  "strings_Index [] sub = (if sub = [] then Some 0 else None)"
| "strings_Index (c # cs) sub = (if prefix sub (c # cs) then Some 0 else map_option Suc (strings_Index cs sub))"

definition strings_Contains :: "string \<Rightarrow> string \<Rightarrow> bool" where
  "strings_Contains s sub = (strings_Index s sub \<noteq> None)"

fun strings_Split :: "string \<Rightarrow> char \<Rightarrow> string list" where
  "strings_Split [] sep = [[]]"
| "strings_Split (c # cs) sep =
     (if c = sep then [] # strings_Split cs sep
      else case strings_Split cs sep of [] \<Rightarrow> [[c]] | l # ls \<Rightarrow> (c # l) # ls)"

fun strings_Join :: "string list \<Rightarrow> char \<Rightarrow> string" where
  "strings_Join [] sep = []"
| "strings_Join [l] sep = l"
| "strings_Join (l # ls) sep = l @ sep # strings_Join ls sep"

definition TrimPrefix :: "string \<Rightarrow> string \<Rightarrow> string" where
  "TrimPrefix s p = (if prefix p s then drop (length p) s else s)"

text \<open>\<open>strings.ReplaceAll\<close> with the empty string, for a non-empty \<open>old\<close>.\<close>

fun remove_all :: "string \<Rightarrow> string \<Rightarrow> string" where
  "remove_all [] old = []"
| "remove_all (c # cs) old =
     (if old \<noteq> [] \<and> prefix old (c # cs) then remove_all (drop (length old - 1) cs) old else c # remove_all cs old)"

text \<open>
  The lines a \<open>bufio.Scanner\<close> gives: without their ends, of either kind, and no empty line after the last end. It stops at a line that
  does not fit its buffer of 65536 bytes.
\<close>

definition dropCR :: "string \<Rightarrow> string" where
  "dropCR l = (if l \<noteq> [] \<and> last l = CHR 0x0D then butlast l else l)"

definition scan_lines :: "string \<Rightarrow> string list" where
  "scan_lines s =
     (let ls = strings_Split s newline
      in map dropCR (takeWhile (\<lambda>l. length l < 65536) (if last ls = [] then butlast ls else ls)))"

section \<open>Running commands\<close>

definition certmanagerURL :: string where
  "certmanagerURL = ''https://github.com/cert-manager/cert-manager/releases/download/v1.19.4/cert-manager.yaml''"

definition GetProjectDir :: "'h os_api \<Rightarrow> 'h \<Rightarrow> string \<times> goerror option" where
  "GetProjectDir os h =
     (case os_Getwd os h of
        (wd, Some e) \<Rightarrow> (wd, Some (wrapf ''failed to get current working directory: '' e))
      | (wd, None) \<Rightarrow> (remove_all wd ''/test/e2e'', None))"

definition Run :: "'h os_api \<Rightarrow> string list \<Rightarrow> 'h \<Rightarrow> (string \<times> goerror option) \<times> 'h" where
  "Run os args h =
     (let dir = fst (GetProjectDir os h);
          h1 = snd (os_Chdir os dir h);
          command = strings_Join args CHR '' '';
          ((output, err), h2) = cmd_CombinedOutput os
            \<lparr>cmd_Args = args, cmd_Dir = dir, cmd_Env = os_Environ os h1 @ [''GO111MODULE=on'']\<rparr> h1
      in case err of
           Some e \<Rightarrow> ((output, Some (wrapf (go_quote command @ '' failed with error '' @ go_quote output @ '': '') e)), h2)
         | None \<Rightarrow> ((output, None), h2))"

definition kubeSystemLeases :: "string list" where
  "kubeSystemLeases = [''cert-manager-cainjector-leader-election'', ''cert-manager-controller'']"

definition UninstallCertManager :: "'h os_api \<Rightarrow> 'h \<Rightarrow> 'h" where
  "UninstallCertManager os h =
     fold (\<lambda>lease h. snd (Run os [''kubectl'', ''delete'', ''lease'', lease, ''-n'', ''kube-system'', ''--ignore-not-found'',
         ''--force'', ''--grace-period=0''] h)) kubeSystemLeases
       (snd (Run os [''kubectl'', ''delete'', ''-f'', certmanagerURL] h))"

definition InstallCertManager :: "'h os_api \<Rightarrow> 'h \<Rightarrow> goerror option \<times> 'h" where
  "InstallCertManager os h =
     (case Run os [''kubectl'', ''apply'', ''-f'', certmanagerURL] h of
        ((_, Some e), h1) \<Rightarrow> (Some e, h1)
      | ((_, None), h1) \<Rightarrow>
        (case Run os [''kubectl'', ''wait'', ''deployment.apps/cert-manager-webhook'', ''--for'', ''condition=Available'',
             ''--namespace'', ''cert-manager'', ''--timeout'', ''5m''] h1 of
           ((_, err), h2) \<Rightarrow> (err, h2)))"

definition GetNonEmptyLines :: "string \<Rightarrow> string list" where
  "GetNonEmptyLines output = filter (\<lambda>element. element \<noteq> []) (strings_Split output newline)"

definition certManagerCRDs :: "string list" where
  "certManagerCRDs = [''certificates.cert-manager.io'', ''issuers.cert-manager.io'', ''clusterissuers.cert-manager.io'',
     ''certificaterequests.cert-manager.io'', ''orders.acme.cert-manager.io'', ''challenges.acme.cert-manager.io'']"

definition IsCertManagerCRDsInstalled :: "'h os_api \<Rightarrow> 'h \<Rightarrow> bool \<times> 'h" where
  "IsCertManagerCRDsInstalled os h =
     (case Run os [''kubectl'', ''get'', ''crds''] h of
        ((output, Some e), h1) \<Rightarrow> (False, h1)
      | ((output, None), h1) \<Rightarrow>
          (list_ex (\<lambda>crd. list_ex (\<lambda>line. strings_Contains line crd) (GetNonEmptyLines output)) certManagerCRDs, h1))"

definition LoadImageToKindClusterWithName :: "'h os_api \<Rightarrow> string \<Rightarrow> 'h \<Rightarrow> goerror option \<times> 'h" where
  "LoadImageToKindClusterWithName os name h =
     (let cluster = (case os_LookupEnv os ''KIND_CLUSTER'' h of Some v \<Rightarrow> v | None \<Rightarrow> ''kind'');
          kindBinary = (case os_LookupEnv os ''KIND'' h of Some v \<Rightarrow> v | None \<Rightarrow> ''kind'');
          ((_, err), h1) = Run os [kindBinary, ''load'', ''docker-image'', name, ''--name'', cluster] h
      in (err, h1))"

section \<open>Uncommenting code\<close>

text \<open>Writing to a \<open>bytes.Buffer\<close> does not fail.\<close>

definition UncommentCode :: "'h os_api \<Rightarrow> string \<Rightarrow> string \<Rightarrow> string \<Rightarrow> 'h \<Rightarrow> goerror option \<times> 'h" where
  "UncommentCode os filename target pre h =
     (case os_ReadFile os filename h of
        Inl e \<Rightarrow> (Some (wrapf (''failed to read file '' @ go_quote filename @ '': '') e), h)
      | Inr content \<Rightarrow>
        (case strings_Index content target of
           None \<Rightarrow> (Some (errors_New (''unable to find the code '' @ go_quote target @ '' to be uncommented'')), h)
         | Some idx \<Rightarrow>
             if scan_lines target = [] then (None, h)
             else
               (let out = take idx content @ strings_Join (map (\<lambda>l. TrimPrefix l pre) (scan_lines target)) newline
                          @ drop (idx + length target) content
                in case os_WriteFile os filename out h of
                     (Some e, h1) \<Rightarrow> (Some (wrapf (''failed to write file '' @ go_quote filename @ '': '') e), h1)
                   | (None, h1) \<Rightarrow> (None, h1))))"

section \<open>Properties\<close>

lemma strings_Split_nonempty [simp]: "strings_Split s sep \<noteq> []"
  by (cases s) (auto split: list.split)

lemma strings_Split_line: "sep \<notin> set l \<Longrightarrow> strings_Split l sep = [l]"
  by (induction l) auto

lemma strings_Split_append:
  "sep \<notin> set l \<Longrightarrow> strings_Split (l @ sep # rest) sep = l # strings_Split rest sep"
  by (induction l) auto

lemma strings_Join_Cons [simp]: "ls \<noteq> [] \<Longrightarrow> strings_Join (l # ls) sep = l @ sep # strings_Join ls sep"
  by (cases ls) simp_all

lemma strings_Split_Join:
  "ls \<noteq> [] \<Longrightarrow> list_all (\<lambda>l. sep \<notin> set l) ls \<Longrightarrow> strings_Split (strings_Join ls sep) sep = ls"
  by (induction ls rule: list_nonempty_induct) (simp_all add: strings_Split_line strings_Split_append)

lemma strings_Join_char: "strings_Join ((c # l) # ls) sep = c # strings_Join (l # ls) sep"
  by (cases ls) simp_all

lemma strings_Join_Split: "strings_Join (strings_Split s sep) sep = s"
  by (induction s) (auto split: list.split simp: neq_Nil_conv strings_Join_char)

text \<open>The lines of the target: without line ends in them, short enough for the scanner.\<close>

definition plain_line :: "string \<Rightarrow> bool" where
  "plain_line l = (newline \<notin> set l \<and> (l = [] \<or> last l \<noteq> CHR 0x0D) \<and> length l < 65536)"

lemma scan_lines_Join:
  assumes "ls \<noteq> []" and "list_all plain_line ls" and "last ls \<noteq> []"
  shows "scan_lines (strings_Join ls newline) = ls"
proof -
  have sp: "strings_Split (strings_Join ls newline) newline = ls"
    using assms by (intro strings_Split_Join) (auto simp: plain_line_def list_all_iff)
  have tw: "takeWhile (\<lambda>l. length l < 65536) ls = ls" using assms(2) by (auto simp: plain_line_def list_all_iff)
  have cr: "map dropCR ls = ls" using assms(2) by (intro map_idI) (auto simp: plain_line_def dropCR_def list_all_iff)
  show ?thesis using assms(3) by (simp add: scan_lines_def sp tw cr)
qed

text \<open>
  C39. Uncommenting undoes commenting. Let a file hold, and let the first occurrence of this text begin after \<open>before\<close>, the lines \<open>ls\<close>, each
  with the non-empty prefix \<open>pre\<close>, and let every one of these lines be plain: no line end in it, no carriage return at its end, and shorter
  than the 65536 bytes the scanner takes. Then \<open>UncommentCode\<close> writes the file with just the lines \<open>ls\<close> in that place, and
  reports only a failed write. Lines that are not plain lose their carriage return, or are dropped.
\<close>

theorem uncomment_undoes_comment:
  assumes "os_ReadFile os filename h = Inr (before @ target @ after)"
    and "target = strings_Join (map ((@) pre) ls) newline" and "ls \<noteq> []" and "pre \<noteq> []"
    and "list_all (\<lambda>l. plain_line (pre @ l)) ls"
    and "strings_Index (before @ target @ after) target = Some (length before)"
  shows "UncommentCode os filename target pre h =
    (case os_WriteFile os filename (before @ strings_Join ls newline @ after) h of
       (e, h') \<Rightarrow> (map_option (wrapf (''failed to write file '' @ go_quote filename @ '': '')) e, h'))"
proof -
  have lines: "scan_lines target = map ((@) pre) ls"
    unfolding assms(2) using assms(3-5) by (intro scan_lines_Join) (simp_all add: list_all_iff last_map)
  have "map (\<lambda>l. TrimPrefix l pre) (scan_lines target) = ls" by (simp add: lines TrimPrefix_def o_def)
  with assms(1,3,6) lines show ?thesis
    by (auto simp: UncommentCode_def Let_def split: prod.split option.split)
qed

text \<open>A target that ends in a line end loses it, and the line after the target is joined to its last one.\<close>

lemma uncomment_joins_next_line:
  assumes "plain_line l" and "l \<noteq> []"
  shows "scan_lines (l @ [newline]) = [l]"
  using assms strings_Split_append [of newline l "[]"] by (auto simp: scan_lines_def plain_line_def dropCR_def)

lemma strings_Index_None: "strings_Index s sub = None \<longleftrightarrow> \<not> sublist sub s"
  by (induction s) (auto simp: sublist_Cons_right)

lemma strings_Contains_iff: "strings_Contains s sub \<longleftrightarrow> sublist sub s"
  by (simp add: strings_Contains_def strings_Index_None)

lemma prefix_first_line: "sep \<notin> set sub \<Longrightarrow> prefix sub s \<Longrightarrow> prefix sub (hd (strings_Split s sep))"
proof (induction sub arbitrary: s)
  case (Cons c sub)
  then obtain cs where s: "s = c # cs" and "prefix sub cs" by (cases s) auto
  with Cons have "prefix sub (hd (strings_Split cs sep))" by simp
  with Cons.prems(1) s show ?case by (auto split: list.split)
qed simp

lemma sublist_some_line: "sep \<notin> set sub \<Longrightarrow> sublist sub s \<Longrightarrow> \<exists>l\<in>set (strings_Split s sep). sublist sub l"
proof (induction s)
  case (Cons c cs)
  show ?case
  proof (cases "prefix sub (c # cs)")
    case True
    then have "prefix sub (hd (strings_Split (c # cs) sep))" using Cons.prems(1) by (rule prefix_first_line [rotated])
    then show ?thesis by (meson hd_in_set prefix_imp_sublist strings_Split_nonempty)
  next
    case False
    then have "sublist sub cs" using Cons.prems(2) by (simp add: sublist_Cons_right)
    then obtain l where l: "l \<in> set (strings_Split cs sep)" "sublist sub l" using Cons by blast
    then show ?thesis by (auto split: list.split simp: sublist_Cons_right)
  qed
qed simp

lemma line_sublist: "l \<in> set ls \<Longrightarrow> sublist l (strings_Join ls sep)"
proof (induction ls)
  case (Cons k ks)
  show ?case
  proof (cases "ks = []")
    case False
    then have "strings_Join (k # ks) sep = k @ [sep] @ strings_Join ks sep" by simp
    moreover have "sublist l k \<or> sublist l (strings_Join ks sep)" using Cons by auto
    ultimately show ?thesis by (auto simp: sublist_append sublist_Cons_right)
  qed (use Cons.prems in simp)
qed simp

text \<open>Searching line by line for a text without a line end is searching the whole output.\<close>

lemma some_line_contains:
  assumes "newline \<notin> set sub" and "sub \<noteq> []"
  shows "list_ex (\<lambda>line. strings_Contains line sub) (GetNonEmptyLines output) \<longleftrightarrow> strings_Contains output sub"
proof -
  have "sublist sub output" if "l \<in> set (strings_Split output newline)" "sublist sub l" for l
    using line_sublist [OF that(1), of newline] that(2) by (metis strings_Join_Split sublist_order.order_trans)
  moreover have "\<exists>l\<in>set (strings_Split output newline). l \<noteq> [] \<and> sublist sub l" if "sublist sub output"
    using sublist_some_line [OF assms(1) that] assms(2) by (metis sublist_Nil_right)
  ultimately show ?thesis by (auto simp: list_ex_iff GetNonEmptyLines_def strings_Contains_iff)
qed

lemma IsCertManagerCRDsInstalled_iff:
  assumes "Run os [''kubectl'', ''get'', ''crds''] h = ((output, err), h')"
  shows "IsCertManagerCRDsInstalled os h = (err = None \<and> list_ex (strings_Contains output) certManagerCRDs, h')"
proof -
  have "list_all (\<lambda>crd. newline \<notin> set crd \<and> crd \<noteq> []) certManagerCRDs" by (simp add: certManagerCRDs_def)
  then have "list_ex (\<lambda>crd. list_ex (\<lambda>line. strings_Contains line crd) (GetNonEmptyLines output)) certManagerCRDs
      \<longleftrightarrow> list_ex (strings_Contains output) certManagerCRDs"
    unfolding list_ex_iff [of _ certManagerCRDs] list_all_iff using some_line_contains by blast
  with assms show ?thesis by (auto simp: IsCertManagerCRDsInstalled_def split: option.split)
qed

section \<open>An example host: one file and no commands\<close>

definition ex_os :: "string os_api" where
  "ex_os = \<lparr>os_Getwd = (\<lambda>h. (''/repo/test/e2e'', None)), os_Chdir = (\<lambda>dir h. (None, h)), os_Environ = (\<lambda>h. []),
     os_LookupEnv = (\<lambda>name h. None), os_ReadFile = (\<lambda>name h. Inr h), os_WriteFile = (\<lambda>name content h. (None, content)),
     cmd_CombinedOutput = (\<lambda>cmd h. ((cmd_Dir cmd, None), h))\<rparr>"

theorem uncomment_undoes_comment_witness:
  "UncommentCode ex_os ''f'' (''#x'' @ newline # ''#y'') ''#'' (''a#'' @ newline # ''#x'' @ newline # ''#y'' @ newline # ''z'') =
     (None, ''a#'' @ newline # ''x'' @ newline # ''y'' @ newline # ''z'')"
  using uncomment_undoes_comment [of ex_os "''f''" _ "''a#'' @ [newline]" "''#x'' @ newline # ''#y''" "newline # ''z''" "''#''"
      "[''x'', ''y'']"]
  by (simp add: ex_os_def plain_line_def)

lemma ex_project_dir: "fst (fst (Run ex_os [''true''] h)) = ''/repo''"
  by (simp add: Run_def GetProjectDir_def ex_os_def Let_def)

end
