(* ===== verification/Spec2Isabelle.thy ===== *)
theory Spec2Isabelle
  imports StatusTyping DeepCopy StaleReads LongNames Failures Production TestUtils
begin

text \<open>
  Verification of the renovate-operator, a Kubernetes operator that runs Renovate on a schedule. This
  text describes the program, which theory models which part, how the model corresponds to the Go
  code under \<open>src/\<close>, what the lemmas show, and what is left out.

  \<^bold>\<open>The program.\<close> Three custom resources (\<open>api/v1alpha1\<close>) drive it. A RenovatePlatform names a
  forge and a credential Secret; a RenovateScan is a cron schedule on a Platform; a RenovateRun is one
  execution, with both specifications frozen in it. Three controllers (\<open>internal/controller\<close>)
  reconcile them. The Platform controller resolves the credential and sets Ready. The Scan
  controller creates a Run when a fire time has been missed and prunes old ones. The Run controller
  takes a Run through Pending, Discovering, Running and Succeeded or Failed: it mirrors the
  credential, asks the forge for repositories through a platform client, splits them into shards,
  stores these in a ConfigMap, starts an indexed Job with one worker per shard and watches it. They
  interact only through the API server: the Scan reads the Platform's Ready condition and its Runs'
  phases, the Run reads the snapshots the Scan wrote.

  \<^bold>\<open>Theories, in the order of the imports.\<close>

  \<^item> \<open>Prelude\<close>: Go's errors, 32-bit integers, instants, formatting and string helpers; collections
    of rules; the locales \<open>invariant_system\<close>, \<open>simulation\<close> and \<open>bounded_name\<close>.
  \<^item> \<open>ApiTypes\<close>: the records and enumerations of \<open>api/v1alpha1\<close> and the Kubernetes objects the
    operator builds or reads.
  \<^item> \<open>GoEncoding\<close>, \<open>Sharding\<close>: \<open>internal/sharding\<close>; JSON strings and base64 as Go writes them,
    \<^const>\<open>Build\<close> with its helpers, a reader for the round trip.
  \<^item> \<open>Conditions\<close>: \<open>internal/conditions\<close> over the helpers of apimachinery; locales
    \<open>condition_api\<close> and \<open>meta_conditions\<close>.
  \<^item> \<open>Credentials\<close>: \<open>internal/credentials\<close>.
  \<^item> \<open>WorkerJob\<close>: \<open>internal/jobspec\<close>; environment, merged configuration, Job, and the entrypoint
    script as the function \<^const>\<open>entrypoint\<close> that the shell computes.
  \<^item> \<open>PathMatch\<close>, \<open>PlatformClient\<close>: Go's \<open>path.Match\<close> and \<open>internal/platform\<close>; the client
    interface with its contract as locale \<open>platform_client\<close>, paged listings as locale \<open>pager\<close>.
  \<^item> \<open>HttpClient\<close>, \<open>GithubClient\<close>, \<open>ForgejoClient\<close>: HTTP transports and the one that adds a token; the
    two clients with their options; both interpret the two locales.
  \<^item> \<open>Kube\<close>: the API server's operations as a record, the world a reconcile works on, metric
    updates, and the outer \<open>Reconcile\<close> of all controllers as locale \<open>reconcile_shell\<close>.
  \<^item> \<open>RunReconciler\<close>, \<open>RunInvariant\<close>, \<open>RunProperties\<close>: \<open>renovaterun_controller.go\<close>; model, status
    invariant, properties. \<open>RunResume\<close>: a Run reconciled again after its status write was lost.
  \<^item> \<open>ClientFactory\<close>, \<open>PlatformReconciler\<close>: \<open>platform_factory.go\<close>, \<open>predicates.go\<close> and
    \<open>renovateplatform_controller.go\<close>.
  \<^item> \<open>ScanReconciler\<close>, \<open>ScanSchedule\<close>, \<open>ScanProperties\<close>: \<open>renovatescan_controller.go\<close>; model,
    fire times, properties.
  \<^item> \<open>Wiring\<close>: the watches of the \<open>SetupWithManager\<close> methods, \<open>cmd/main.go\<close>, and the set-up of
    tracing, pprof and metrics in \<open>internal/observability\<close>.
  \<^item> \<open>StatusTyping\<close>: which conditions the three controllers can write.
  \<^item> \<open>System\<close>: the three controllers on one API server, as a step relation with changes from
    outside; what is read and what is stored as two views of it.
  \<^item> \<open>Progress\<close>: what several reconciles achieve together.
  \<^item> \<open>LongNames\<close>: Runs whose names share their first 56 characters. \<open>Failures\<close>: what a failing forge makes of a Run.
  \<^item> \<open>Production\<close>: the scheme, the clock (\<open>internal/clock\<close>) and the operator that \<open>cmd/main.go\<close> puts together; what the
    API server admits; the way of a credential from the Platform controller to the client of a Run.
  \<^item> \<open>ScanLock\<close>: a client that reads from a cache, as the manager's does; the stored Runs in all executions on it, and the abstract lock that
    the concurrency policy implements. \<open>StaleReads\<close>: what the lock is worth when the cache is behind.
  \<^item> \<open>TestUtils\<close>: \<open>test/utils\<close>, over a host that runs commands and holds files.
  \<^item> \<open>GoMemory\<close>, \<open>DeepCopy\<close>: Go values in memory, where aliasing is visible; the generated
    \<open>zz_generated.deepcopy.go\<close> and the snapshots \<open>createRun\<close> takes with it. The contract of a
    copy method is locale \<open>deep_copier\<close>, interpreted on the generated methods.
  \<^item> this theory: the properties that span components.

  \<^bold>\<open>Correspondence.\<close> A Go struct is a record, an enumeration a datatype with a constructor for
  unknown strings, a pointer an option, \<open>int32\<close> a 32-bit word, a map an association list, a
  \<open>time.Time\<close> nanoseconds with a zone name. An error is its text with the sentinels and the API reason
  that \<open>errors.Is\<close> and \<open>apierrors\<close> find in it; a function that may fail returns a sum. A method that
  mutates its receiver returns the new value. A reconciler's fields, and every library it calls, are
  the fields of its record: the Kubernetes client, the clock (the \<open>i\<close>-th reading), the condition
  helpers, the platform client factory, gzip, JSON decoding, the cron parser, time zones, sorting, PEM
  and key parsing, the forge SDKs. The cluster state and the network state are type variables threaded
  through the calls. Definitions carry the Go names; a suffix or prefix (\<open>gh_\<close>, \<open>fj_\<close>, \<open>run_\<close>,
  \<open>scan_\<close>, \<open>platform_\<close>) tells apart functions that share one. Long Go functions are cut where they
  have a natural joint: \<^const>\<open>discoverAndDispatch\<close> into \<^const>\<open>admitRun\<close>, \<^const>\<open>dispatchRun\<close> and
  \<^const>\<open>startRun\<close>, the Scan's \<open>reconcile\<close> into \<^const>\<open>scan_reconcile\<close> and \<^const>\<open>fireScan\<close>.

  \<^bold>\<open>Loops.\<close> Loops over slices are structural recursions. Three loops need not end: the page loops
  of the two clients (a server may name a next page for ever) and the walk over fire times. They are
  partial functions into an option, in which not returning is \<open>None\<close>; there is no fuel. The theorems
  say when they return: for every finite chain of pages, and exactly for schedules that fire again.

  In \<open>System\<close> a step is a whole \<open>Reconcile\<close> of one controller for any object, or any change from
  outside that creates and edits no Run: controller-runtime never reconciles one object twice at a time, and
  reconciles of different objects touch different Runs, save for the Scan's list, which comes from the cache like all reads.

  \<^bold>\<open>What is shown.\<close> In every execution of the three controllers, on a client whose reads come from a cache, the stored Runs stay consistent and no controller
  deletes a Run in flight, and a Scan whose policy is not Allow has at most one active Run as long as the cache shows its active Runs whenever it
  is reconciled (\<open>ScanLock\<close>). A Run gets from its creation to Succeeded, however often it is reconciled on the way, and a Scan that was blocked fires once its Run has ended
  (\<open>Progress\<close>). A Run resumed after a crash starts no second
  Job (\<open>RunResume\<close>). The specification of a Run is frozen, in memory too (\<open>DeepCopy\<close>). The Run's status invariant holds in all reachable states and its phases move along
  the state machine; the terminal counter counts ends, each once; a Run with everything in place reaches Running
  (\<open>RunProperties\<close>). A Scan creates a Run only when due and does so when due, wakes up in time, prunes
  only its own oldest Runs (\<open>ScanProperties\<close>), and reads its schedule correctly (\<open>ScanSchedule\<close>). A
  Platform is Ready exactly when its credential resolves (\<open>PlatformReconciler\<close>). Shards partition the
  repositories, evenly and independently of their order, and read back (\<open>Sharding\<close>). The Job, its
  environment and its script do what they should (\<open>WorkerJob\<close>). The clients return exactly what the
  forge lists and the filter admits, and sort failures as tabulated (\<open>GithubClient\<close>,
  \<open>ForgejoClient\<close>), which decides whether a Run is tried again or Failed (\<open>Failures\<close>). The conditions in a status come from a fixed table (\<open>StatusTyping\<close>). Below: the life of a scheduled Run across both controllers, the scope of
  discovery, that the workers cover what was discovered, and that no status write is lost silently.
  Children wake their owners, credential changes reach Platforms and Scans, and the process starts
  with all controllers or not at all (\<open>Wiring\<close>). The configured key's value a Platform was found Ready with is the one that reaches
  the forge's SDK (\<open>Production\<close>). Uncommenting a file undoes commenting (\<open>TestUtils\<close>).
  Some theorems record what the code does against its intention: compressed shards cannot be read,
  a fire may be served twice under policy Allow, a schedule that never fires again hangs the
  reconcile, a rate limit's wait is an absolute time, a GitHub Platform with a token is Ready but
  unusable, a shard ConfigMap left over from a smaller discovery starves workers, an end whose status
  write conflicts is counted twice, an HTTP client injected twice keeps sending the first token, a cache that is
  behind lets a Scan of any policy start a second Run, and a Run of a Scan with a long name may succeed without a worker.

  \<^bold>\<open>Hypotheses on libraries.\<close> Each is stated where it is used and shown satisfiable by a concrete
  instance: \<open>meta_conditions\<close> (apimachinery's condition helpers), \<open>cron_law\<close> (the cron package's
  \<open>Next\<close>: it reads a schedule in the zone of its argument, answers in that zone, and gives up with the zero time when it finds no fire
  within five years), \<open>sort_law\<close> (\<open>sort.Slice\<close>), \<open>owner_law\<close> (the owner handler of
  controller-runtime), \<open>run_store\<close>, \<open>status_stored\<close> and \<open>child_store\<close> (what the API server promises of the Runs, and of the
  ConfigMaps and Jobs, it stores), \<open>cached_store\<close> (the same through a cache, with the optimistic concurrency of status updates; proved of
  the cached client of every \<open>run_store\<close>), \<open>fresh_step\<close> (the cache shows a Scan's active Runs when that Scan is reconciled), \<open>ext_deep\<close> (the
  copy methods of Kubernetes' types), the laws on \<open>jq\<close> (it prints the list it is asked for), on \<open>gunzip\<close> (it refuses non-empty text over the
  base64 alphabet) and on gzip (its output is not empty and reads back). The
  concrete API server of the examples is \<^const>\<open>sim_client\<close>; for the properties of all executions it is read through a cache that is behind.

  \<^bold>\<open>Not modelled.\<close> Spans and log lines; the help texts and buckets of
  the metrics; the text of the flags and the logger in \<open>cmd/main.go\<close>; what the test utilities print to the test log. Outside \<open>DeepCopy\<close> values are immutable, so a copy is the value itself.
  A history limit below 0, which the API server does not admit, makes the Go code panic, and the model return an error. Context cancellation is not modelled: a call returns what its parameter says.
  Concurrent reconciles of one object do not occur in controller-runtime; other writers appear as
  arbitrary API server states between steps.
\<close>

section \<open>A scheduled Run\<close>

lemma newRun_new: "run_status run = run_status (newRun S scan platform fire) \<Longrightarrow> new_run run"
  by (simp add: new_run_def newRun_def fresh_status_def)

lemma run_moves_spec:
  assumes "sound_libs R" and "run_wf (rn_meta R) run" and "(run_moves R)\<^sup>*\<^sup>* run run'"
  shows "run_wf (rn_meta R) run' \<and> run_spec run' = run_spec run"
  using assms(3)
proof (induction rule: rtranclp_induct)
  case base
  with assms(2) show ?case by simp
next
  case (step a b)
  have "run_spec b = run_spec a"
    using step.hyps(2)
  proof cases
    case (reconciled w oc w')
    with run_reconcile_wf [OF assms(1) _ reconciled] step.IH show ?thesis by (simp add: same_object_def)
  qed simp
  with step run_moves_wf [OF assms(1)] show ?case by auto
qed

lemma isTerminal_eq: "isTerminal p \<longleftrightarrow> isTerminalPhase p"
  by (simp add: isTerminal_def isTerminalPhase_def)

text \<open>
  The life of a scheduled Run, across the two controllers. Whatever Run the API server stored for
  the one a Scan created, with its status and specification, in every state the Run controller can
  bring it to it works with the Platform and Scan specifications as they were when the Scan fired,
  its status is consistent, and the Scan controller takes it for ended exactly when it has a
  completion time.
\<close>

theorem scheduled_run_life:
  assumes "sound_libs R" and "run_status run = run_status (newRun S scan platform fire)"
    and "run_spec run = run_spec (newRun S scan platform fire)" and "(run_moves R)\<^sup>*\<^sup>* run run'"
  shows "run_wf (rn_meta R) run' \<and> rs_platformSnapshot (run_spec run') = plat_spec platform \<and>
    rs_scanSnapshot (run_spec run') = scan_spec scan \<and>
    (isTerminal (run_phase run') \<longleftrightarrow> rst_completionTime (run_status run') \<noteq> None)"
proof -
  have "run_wf (rn_meta R) run" by (rule new_run_wf [OF assms(1) newRun_new [OF assms(2)]])
  note life = run_moves_spec [OF assms(1) this assms(4)]
  then have "isTerminal (run_phase run') \<longleftrightarrow> rst_completionTime (run_status run') \<noteq> None"
    by (simp add: isTerminal_eq run_wf_def Let_def)
  with life assms(3) show ?thesis by (simp add: newRun_def)
qed

theorem scheduled_run_life_witness:
  "\<exists>run'. run_moves ex_R (newRun ex_S ex_hourly_scan ex_ready_platform zero_time) run' \<and>
     run_wf ref_meta run' \<and> rs_scanSnapshot (run_spec run') = scan_spec ex_hourly_scan"
proof -
  let ?run = "newRun ex_S ex_hourly_scan ex_ready_platform zero_time"
  have mv: "run_moves ex_R ?run (?run\<lparr>run_meta := stamp 0 (run_meta ?run)\<rparr>)" by (rule touched)
  then have "(run_moves ex_R)\<^sup>*\<^sup>* ?run (?run\<lparr>run_meta := stamp 0 (run_meta ?run)\<rparr>)" by blast
  from scheduled_run_life [OF ex_sound refl refl this] mv show ?thesis by (auto simp: ex_R_def)
qed

section \<open>From discovery to the workers\<close>

lemma probeRepos_filtered:
  "probeRepos plat out rs n = (Inr kept, n') \<Longrightarrow> list_all P out \<Longrightarrow> list_all P rs \<Longrightarrow> list_all P kept"
  by (induction plat out rs n rule: probeRepos.induct) (auto split: prod.splits sum.splits if_splits)

text \<open>
  The scope of a Scan, read off its specification: one of its patterns matches, if it has any; no forks and no archived
  repositories unless it switches those off; and on GitHub one of its topics, if it has any. Forgejo's repositories come without topics, and
  the wanted ones are left out there, as documented.
\<close>

definition in_scope :: "RenovatePlatformSpec \<Rightarrow> RenovateScanSpec \<Rightarrow> PlatformRepository \<Rightarrow> bool" where
  "in_scope plat scan r =
     (let d = ss_discovery scan in
      (ds_filter d = [] \<or> (\<exists>p\<in>set (ds_filter d). path_Match p (pr_slug r) = Some True)) \<and>
      (ds_skipForks d = Some False \<or> \<not> pr_fork r) \<and>
      (ds_skipArchived d = Some False \<or> \<not> pr_archived r) \<and>
      (ps_platformType plat \<noteq> PlatformTypeGitHub \<or> ds_topics d = [] \<or> (\<exists>t\<in>set (ds_topics d). t \<in> set (pr_topics r))))"

lemma admitted_in_scope:
  assumes "admits (ps_platformType (rs_platformSnapshot (run_spec run)) = PlatformTypeGitHub) (discoveryFilter run) r"
  shows "in_scope (rs_platformSnapshot (run_spec run)) (rs_scanSnapshot (run_spec run)) r"
  using assms by (auto simp: admits_def in_scope_def discoveryFilter_def pattern_hit_def topic_hit_def SkipForksEnabled_def
      SkipArchivedEnabled_def Let_def derefOrTrue_iff)

text \<open>
  C17. A Run works only on repositories in its Scan's scope: with a client of the production factory,
  every repository discovery returns is in the scope of the Scan specification the Run carries: it matches one of the
  patterns if there are any, is no fork and not archived unless the Scan asks for those, and, on GitHub, has one of the topics
  if there are any.
\<close>

theorem discovery_in_scope:
  assumes "DefaultPlatformClientFactory lib fjlib (rs_platformSnapshot (run_spec run)) secret = Inr plat"
    and "discoverRepos plat run w = Some (Inr repos, w')"
  shows "list_all (in_scope (rs_platformSnapshot (run_spec run)) (rs_scanSnapshot (run_spec run))) repos"
proof -
  let ?ad = "admits (ps_platformType (rs_platformSnapshot (run_spec run)) = PlatformTypeGitHub) (discoveryFilter run)"
  note C = factory_client [OF assms(1)]
  from assms(2) obtain all n1 where d: "pc_Discover plat (discoveryFilter run) (w_net w) = Some (Inr all, n1)"
    by (auto simp: discoverRepos_def split: option.splits sum.splits)
  have "list_all ?ad all" by (rule platform_client.discover_admits [OF C d])
  with assms(2) d have "list_all ?ad repos"
    by (auto simp: discoverRepos_def split: if_splits prod.splits dest: probeRepos_filtered)
  then show ?thesis by (rule list.pred_mono_strong) (rule admitted_in_scope)
qed

definition ex_team_run :: RenovateRun where
  "ex_team_run = ex_run\<lparr>run_spec := (run_spec ex_run)\<lparr>rs_scanSnapshot := ex_scan\<lparr>
     ss_workers := \<lparr>ws_minWorkers = 1, ws_maxWorkers = 10, ws_reposPerWorker = 2, ws_backoffLimitPerIndex = None\<rparr>,
     ss_discovery := \<lparr>ds_autodiscover = None, ds_requireConfig = Some False, ds_filter = [''team/*''], ds_topics = [],
       ds_skipForks = None, ds_skipArchived = None\<rparr>\<rparr>\<rparr>\<rparr>"

lemma ex_team_discover:
  "\<exists>repos w'. discoverRepos (forgejo_client ex_fj) ex_team_run (ex_world empty_cluster) = Some (Inr repos, w')"
proof -
  have "fj_pages (fjc_limiter ex_fj) (fj_ListOrgRepos ex_fj_sdk owner 50) 1 [] 0 =
      Some (Inr [\<lparr>fr_fullName = owner @ ''/a'', fr_defaultBranch = ''main'', fr_archived = False, fr_fork = False\<rparr>,
        \<lparr>fr_fullName = owner @ ''/b'', fr_defaultBranch = ''main'', fr_archived = False, fr_fork = True\<rparr>], 1)" for owner
    by (simp add: fj_pages.simps ex_fj_def ex_fj_sdk_def fj_discoverPageSize_def)
  moreover have "discoveryOwner ex_team_run = ''team''"
    by (simp add: discoveryOwner_def ex_team_run_def indexOf_def)
  ultimately show ?thesis
    by (simp add: discoverRepos_def forgejo_client_def fj_Discover_def fj_listOrgRepos_def ex_fj_def ex_world_def
        discoveryFilter_def fj_discoverPageSize_def RequireConfigEnabled_def ex_team_run_def Let_def)
qed

theorem discovery_in_scope_witness:
  "\<exists>repos w'. discoverRepos (forgejo_client ex_fj) ex_team_run (ex_world empty_cluster) = Some (Inr repos, w') \<and>
     list_all (in_scope ex_platform (rs_scanSnapshot (run_spec ex_team_run))) repos"
proof -
  let ?fjlib = "\<lparr>fj_NewLimiter = (\<lambda>r burst. fjc_limiter ex_fj), gitea_NewClient = (\<lambda>url tok hc. Inr ex_fj_sdk)\<rparr>"
  have "DefaultPlatformClientFactory lib ?fjlib (rs_platformSnapshot (run_spec ex_team_run)) ex_creds =
      Inr (forgejo_client ex_fj)" for lib
    by (simp add: DefaultPlatformClientFactory_def ex_team_run_def ex_run_def ex_platform_def secretValue_def ex_creds_def
        fj_New_def ex_fj_def defaultTokenKey_def Let_def)
  moreover have "rs_platformSnapshot (run_spec ex_team_run) = ex_platform" by (simp add: ex_team_run_def ex_run_def)
  ultimately show ?thesis using ex_team_discover discovery_in_scope by metis
qed

text \<open>The ConfigMap holds the shards of these repositories, built by this attempt or by an earlier one that listed them in another order.\<close>

definition holds_shards :: "('s, 'n) RenovateRunReconciler \<Rightarrow> RenovateRun \<Rightarrow> PlatformRepository list \<Rightarrow> ConfigMap \<Rightarrow> bool" where
  "holds_shards R run repos cm = (\<exists>earlier res. mset (map Slug earlier) = mset (map pr_slug repos) \<and>
     Build (rn_gzip R) earlier (runBounds run) = Inr res \<and> cm_data cm = Data res)"

lemma Build_order:
  assumes "mset (map Slug xs) = mset (map Slug ys)"
  shows "Build gz xs b = Build gz ys b"
proof -
  have inj: "inj Slug" by (rule injI) (metis Repository.expand)
  have "mset xs = mset ys" using assms multiset.inj_map [OF inj] by (simp add: inj_eq)
  then show ?thesis by (rule build_order_independent)
qed

lemma holds_shards_data:
  assumes "holds_shards R run repos cm" and "Build (rn_gzip R) (map (\<lambda>r. Repository (pr_slug r)) repos) (runBounds run) = Inr res"
  shows "cm_data cm = Data res"
proof -
  obtain earlier res0 where e: "mset (map Slug earlier) = mset (map pr_slug repos)"
    "Build (rn_gzip R) earlier (runBounds run) = Inr res0" "cm_data cm = Data res0"
    using assms(1) by (auto simp: holds_shards_def)
  have "mset (map Slug earlier) = mset (map Slug (map (\<lambda>r. Repository (pr_slug r)) repos))" using e(1) by (simp add: comp_def)
  from Build_order [OF this] e(2,3) assms(2) show ?thesis by simp
qed

text \<open>
  C2. Every discovered repository is started by exactly one worker. Let the shard ConfigMap that the reconcile creates, or finds under
  its name from an earlier attempt, hold the shards of the discovered repositories as they were built, no shard being over the compression
  threshold, and let the repositories have plain names. Then the workers of the
  Job, one per completion index below the worker count, start Renovate with lists that together
  hold each discovered repository as often as it was discovered. The law on \<open>jq\<close> is what \<open>jq -c .repos\<close> prints. A ConfigMap left over from another set of
  repositories is not covered; what becomes of it is shown below.
\<close>

theorem workers_cover_discovery:
  assumes "Build (rn_gzip R) (map (\<lambda>r. Repository (pr_slug r)) repos) (runBounds run) = Inr res"
    and "ensured (Get_ConfigMap (rn_Client R) (run_namespace run) (run_name run @ ''-shards''))
      (Create_ConfigMap (rn_Client R) (shardConfigMap run (Data res))) (w_cluster w) cm s1"
    and "holds_shards R run repos cm"
    and "\<forall>k < nat (sint (ActualWorkers res)). \<not> oversized (shard_text (map (\<lambda>r. Repository (pr_slug r)) repos) res k)"
    and "\<forall>r\<in>set repos. plain_slug (pr_slug r)"
    and "\<forall>p. 0 \<le> Total p \<and> list_all plain_slug (Repos p) \<longrightarrow> jq (marshalPayload p) = Some (json_repos (Repos p) @ nl)"
  shows "\<exists>plan. ensureShardConfigMap R run repos w = (Inr (cm, ActualWorkers res), w\<lparr>w_cluster := s1\<rparr>) \<and>
    map (\<lambda>k. entrypoint gunzip jq (mounted (cm_data cm)) (Some k)) [0..<nat (sint (ActualWorkers res))] =
      map (\<lambda>slugs. Inr (json_repos slugs)) plan \<and>
    mset (concat plan) = mset (map pr_slug repos)"
proof -
  let ?rs = "map (\<lambda>r. Repository (pr_slug r)) repos"
  have plain: "\<forall>r\<in>set ?rs. plain_slug (Slug r)" using assms(5) by simp
  have "map (\<lambda>k. entrypoint gunzip jq (mounted (cm_data cm)) (Some k)) [0..<nat (sint (ActualWorkers res))] =
      map (\<lambda>slugs. Inr (json_repos slugs)) (shard_plan ?rs res)"
    by (rule nth_equalityI)
      (use entrypoint_plain_shard [OF assms(1) _ _ plain assms(6), where gunzip = gunzip] assms(4)
        holds_shards_data [OF assms(3,1)] in simp_all)
  moreover have "mset (concat (shard_plan ?rs res)) = mset (map pr_slug repos)"
    using mset_shard_plan [OF assms(1)] by (simp add: comp_def)
  ultimately show ?thesis using ensureShardConfigMap_ensures [OF assms(1,2)] by blast
qed

definition ex_found :: "PlatformRepository list" where
  "ex_found = map (\<lambda>s. \<lparr>pr_slug = s, pr_defaultBranch = ''main'', pr_archived = False, pr_fork = False, pr_topics = []\<rparr>)
     [''o/b'', ''o/c'', ''o/a'']"

definition ex_Z :: "(cluster, nat) RenovateRunReconciler" where
  "ex_Z = ex_R\<lparr>rn_gzip := ex_gzip\<rparr>"

theorem workers_cover_discovery_witness:
  "\<exists>cm w w' plan. ensureShardConfigMap ex_Z ex_team_run ex_found w = (Inr (cm, 2), w') \<and>
     cl_cms (w_cluster w) = [cm] \<and> cl_cms (w_cluster w') = [cm] \<and>
     map (\<lambda>k. entrypoint (\<lambda>_. None) ex_jq (mounted (cm_data cm)) (Some k)) [0, 1] =
       map (\<lambda>slugs. Inr (json_repos slugs)) plan \<and>
     mset (concat plan) = {#''o/a'', ''o/b'', ''o/c''#}"
proof -
  have rs: "map (\<lambda>r. Repository (pr_slug r)) ex_found = ex_repos" by (simp add: ex_found_def ex_repos_def)
  have bounds: "runBounds ex_team_run = ex_bounds" by (simp add: runBounds_def ex_team_run_def ex_bounds_def Let_def)
  have b: "Build (rn_gzip ex_Z) (map (\<lambda>r. Repository (pr_slug r)) ex_found) (runBounds ex_team_run) = Inr ex_result"
    using ex_build by (simp add: rs bounds ex_Z_def)
  have two: "ActualWorkers ex_result = 2" using ex_build by simp
  define cm where "cm = shardConfigMap ex_team_run (Data ex_result)"
  let ?w = "ex_world (empty_cluster\<lparr>cl_cms := [cm]\<rparr>)"
  have get: "ensured (Get_ConfigMap (rn_Client ex_Z) (run_namespace ex_team_run) (run_name ex_team_run @ ''-shards''))
      (Create_ConfigMap (rn_Client ex_Z) (shardConfigMap ex_team_run (Data ex_result))) (w_cluster ?w) cm (w_cluster ?w)"
    by (simp add: ensured_def ex_Z_def ex_R_def sim_client_def sim_get_def ex_world_def is_at_def cm_def)
  have "mset (map Slug (rev ex_repos)) = mset (map pr_slug ex_found)" by (simp add: ex_repos_def ex_found_def)
  moreover have "Build (rn_gzip ex_Z) (rev ex_repos) (runBounds ex_team_run) = Inr ex_result"
    using b Build_order [of "rev ex_repos" ex_repos] by (simp add: rs rev_map [symmetric])
  ultimately have held: "holds_shards ex_Z ex_team_run ex_found cm"
    unfolding holds_shards_def cm_def by (intro exI conjI) (simp_all add: shardConfigMap_def)
  have small: "\<forall>k < nat (sint (ActualWorkers ex_result)).
      \<not> oversized (shard_text (map (\<lambda>r. Repository (pr_slug r)) ex_found) ex_result k)"
    by (auto simp: rs two less_Suc_eq numeral_2_eq_2 oversized_def shard_text_def ex_plan payload_eval)
  have plain: "\<forall>r\<in>set ex_found. plain_slug (pr_slug r)" by (simp add: ex_found_def plain_slug_def htmlSafe_def)
  have "nat (sint (2 :: int32)) = 2" by simp
  then have upt: "[0..<nat (sint (2 :: int32))] = [0, 1]" by (simp only: numeral_2_eq_2) simp
  have slugs: "mset (map pr_slug ex_found) = {#''o/a'', ''o/b'', ''o/c''#}" by (simp add: ex_found_def)
  have cms: "cl_cms (w_cluster ?w) = [cm]" by (simp add: ex_world_def)
  from workers_cover_discovery [OF b get held small plain ex_jq_law, of "\<lambda>_. None", unfolded two upt slugs]
  obtain plan where "ensureShardConfigMap ex_Z ex_team_run ex_found ?w = (Inr (cm, 2), ?w\<lparr>w_cluster := w_cluster ?w\<rparr>)"
    and "map (\<lambda>k. entrypoint (\<lambda>_. None) ex_jq (mounted (cm_data cm)) (Some k)) [0, 1] = map (\<lambda>slugs. Inr (json_repos slugs)) plan"
    and "mset (concat plan) = {#''o/a'', ''o/b'', ''o/c''#}" by blast
  with cms show ?thesis by (intro exI [of _ cm] exI [of _ ?w] exI [of _ "?w\<lparr>w_cluster := w_cluster ?w\<rparr>"] exI [of _ plan]) simp
qed

text \<open>
  C23. A Run resumed between its ConfigMap and its Job can start workers without work. The ConfigMap of
  the first attempt is kept, but the Job is sized by the new discovery. When that asks for more
  workers than the first attempt had shards, the Run becomes Running with a Job of the new size, and
  every worker from the old count on ends at once because its shard is not there.
\<close>

theorem stale_shards_starve_workers:
  assumes "Build gz0 repos0 b0 = Inr res0" and "cm_data old = Data res0" and "run_cm R run w = Inr old"
    and "repos \<noteq> []" and "Build (rn_gzip R) (map (\<lambda>r. Repository (pr_slug r)) repos) (runBounds run) = Inr res"
    and "m_name (sec_meta m) \<noteq> []"
    and "buildEnv (rn_unmarshal R) (rs_platformSnapshot (run_spec run)) (rs_scanSnapshot (run_spec run))
           \<lparr>SecretName = m_name (sec_meta m), TokenKey = MirrorAccessTokenKey\<rparr> = Inr envs"
    and "run_job R run w = Inl nf" "IsNotFound nf"
    and "Create_Job (rn_Client R) (workerJob run old (ActualWorkers res) envs) (w_cluster w) = (Inr job, s)"
    and "job_spec job = job_spec (workerJob run old (ActualWorkers res) envs)"
    and "sint (ActualWorkers res0) \<le> int i" and "int i < sint (ActualWorkers res)"
  shows "\<exists>run' w'. dispatchRun R m repos run w = ((noRequeue, None), run', w') \<and> run_phase run' = RunPhaseRunning \<and>
    js_completions (job_spec job) = Some (ActualWorkers res) \<and>
    entrypoint gunzip jq (mounted (cm_data old)) (Some i) = Inl ShardNotPresent"
proof -
  have "ensured (Get_ConfigMap (rn_Client R) (run_namespace run) (run_name run @ ''-shards''))
      (Create_ConfigMap (rn_Client R) (shardConfigMap run (Data res))) (w_cluster w) old (w_cluster w)"
    using assms(3) by (simp add: ensured_def)
  moreover have "ensured (Get_Job (rn_Client R) (run_namespace run) (JobName (run_name run)))
      (Create_Job (rn_Client R) (workerJob run old (ActualWorkers res) envs)) (w_cluster w) job s"
    using assms(8-10) by (simp add: ensured_def)
  ultimately have "\<exists>run' w'. dispatchRun R m repos run w = ((noRequeue, None), run', w') \<and> run_phase run' = RunPhaseRunning"
    using dispatchRun_running [OF assms(4,5) _ assms(6,7)] by blast
  moreover have "js_completions (job_spec job) = Some (ActualWorkers res)"
    by (simp add: assms(11) workerJob_def Let_def)
  moreover have "entrypoint gunzip jq (mounted (cm_data old)) (Some i) = Inl ShardNotPresent"
    unfolding assms(2) by (rule entrypoint_missing [OF Build_beyond [OF assms(1,12)]])
  ultimately show ?thesis by blast
qed

definition ex_stale_cm :: ConfigMap where
  "ex_stale_cm = shardConfigMap ex_team_run (Data (projr (Build Inr [Repository ''o/b''] ex_bounds)))"

lemma ex_old_build:
  "\<exists>res. Build Inr [Repository ''o/b''] ex_bounds = Inr res \<and> ActualWorkers res = 1"
proof -
  obtain res where b: "Build Inr [Repository ''o/b''] ex_bounds = Inr res"
    using Build_total [of "[Repository ''o/b'']" ex_bounds Inr] ex_valid by auto
  moreover have "computeActualWorkers 1 ex_bounds = 1"
    by (simp add: computeActualWorkers_def ex_bounds_def div32_def word_sless_alt Let_def)
  ultimately show ?thesis using Build_Inr(3) [OF b] by simp
qed

theorem stale_shards_starve_workers_witness:
  "\<exists>run' w'. dispatchRun ex_Z ex_secret ex_found ex_team_run (ex_world (empty_cluster\<lparr>cl_cms := [ex_stale_cm]\<rparr>)) =
       ((noRequeue, None), run', w') \<and>
     entrypoint (\<lambda>_. None) ex_jq (mounted (cm_data ex_stale_cm)) (Some 1) = Inl ShardNotPresent"
proof -
  let ?w = "ex_world (empty_cluster\<lparr>cl_cms := [ex_stale_cm]\<rparr>)"
  have rs: "map (\<lambda>r. Repository (pr_slug r)) ex_found = ex_repos" by (simp add: ex_found_def ex_repos_def)
  have "runBounds ex_team_run = ex_bounds" by (simp add: runBounds_def ex_team_run_def ex_bounds_def Let_def)
  then have b: "Build (rn_gzip ex_Z) (map (\<lambda>r. Repository (pr_slug r)) ex_found) (runBounds ex_team_run) = Inr ex_result"
    using ex_build by (simp add: rs ex_Z_def)
  have two: "ActualWorkers ex_result = 2" using ex_build by simp
  obtain res0 where old: "Build Inr [Repository ''o/b''] ex_bounds = Inr res0" and one: "ActualWorkers res0 = 1"
    using ex_old_build by blast
  then have data: "cm_data ex_stale_cm = Data res0" by (simp add: ex_stale_cm_def shardConfigMap_def)
  have cm: "run_cm ex_Z ex_team_run ?w = Inr ex_stale_cm"
    by (simp add: ex_Z_def ex_R_def sim_client_def sim_get_def ex_world_def is_at_def ex_stale_cm_def)
  have job: "run_job ex_Z ex_team_run ?w = Inl (api_error StatusNotFound)"
    by (simp add: ex_Z_def ex_R_def sim_client_def sim_get_def ex_world_def empty_cluster_def)
  obtain envs where envs: "buildEnv (rn_unmarshal ex_Z) (rs_platformSnapshot (run_spec ex_team_run))
      (rs_scanSnapshot (run_spec ex_team_run)) \<lparr>SecretName = m_name (sec_meta ex_secret), TokenKey = MirrorAccessTokenKey\<rparr> = Inr envs"
    by (simp add: buildEnv_def buildAuthEnv_def mergeRenovateConfig_def copyRaw_def ex_team_run_def ex_run_def ex_platform_def
        ex_scan_def ex_Z_def ex_R_def ex_unmarshal_def MirrorAccessTokenKey_def Let_def)
  define j where "j = job_meta_update (stamp 0) (workerJob ex_team_run ex_stale_cm 2 envs)"
  have create: "Create_Job (rn_Client ex_Z) (workerJob ex_team_run ex_stale_cm (ActualWorkers ex_result) envs) (w_cluster ?w) =
      (Inr j, empty_cluster\<lparr>cl_cms := [ex_stale_cm], cl_jobs := [j], cl_next := 1\<rparr>)"
    by (simp add: ex_Z_def ex_R_def sim_client_def sim_create_def ex_world_def empty_cluster_def j_def two Let_def)
  have spec: "job_spec j = job_spec (workerJob ex_team_run ex_stale_cm (ActualWorkers ex_result) envs)"
    by (simp add: j_def two)
  have "ex_found \<noteq> []" "m_name (sec_meta ex_secret) \<noteq> []" "IsNotFound (api_error StatusNotFound)"
    "sint (ActualWorkers res0) \<le> int 1" "int 1 < sint (ActualWorkers ex_result)"
    by (simp_all add: ex_found_def ex_secret_def one two)
  with stale_shards_starve_workers [OF old data cm _ b _ envs job _ create spec, of 1 "\<lambda>_. None" ex_jq] show ?thesis by blast
qed

section \<open>Writing the status back\<close>

text \<open>
  C30. No controller loses a status silently: when the write of the status an inner reconcile produced
  fails, \<open>Reconcile\<close> reports an error or asks to be called again after one second.
\<close>

theorem status_write_never_lost:
  "(Get_Run (rn_Client R) ns name (w_cluster w) = Inr run \<longrightarrow> run_reconcile R run w = Some (oc, run', w1) \<longrightarrow>
      on_cluster (StatusUpdate_Run (rn_Client R) run') w1 = (Some ue, w2) \<longrightarrow>
      (\<exists>r e. run_Reconcile R ns name w = Some ((r, e), w2) \<and> (e \<noteq> None \<or> cr_RequeueAfter r = requeueAfterStatusConflict))) \<and>
   (Get_Scan (sc_Client S) ns name (w_cluster w) = Inr scan \<longrightarrow> scan_reconcile S scan w = Some (oc, scan', w1) \<longrightarrow>
      on_cluster (StatusUpdate_Scan (sc_Client S) scan') w1 = (Some ue, w2) \<longrightarrow>
      (\<exists>r e. scan_Reconcile S ns name w = Some ((r, e), w2) \<and> (e \<noteq> None \<or> cr_RequeueAfter r = requeueAfterStatusConflict))) \<and>
   (Get_Platform (pl_Client P) name (w_cluster w) = Inr p \<longrightarrow> platform_reconcile P p w = (oc, p', w1) \<longrightarrow>
      on_cluster (StatusUpdate_Platform (pl_Client P) p') w1 = (Some ue, w2) \<longrightarrow>
      (\<exists>r e. platform_Reconcile P name w = Some ((r, e), w2) \<and> (e \<noteq> None \<or> cr_RequeueAfter r = requeueAfterStatusConflict)))"
  by (intro conjI impI; rule run_shell.not_saved scan_shell.not_saved platform_shell.not_saved; simp)

definition ex_busy :: "(cluster, nat) RenovateRunReconciler" where
  "ex_busy = ex_R\<lparr>rn_Client := sim_client\<lparr>StatusUpdate_Run := (\<lambda>run s. (Some (api_error StatusConflict), s))\<rparr>\<rparr>"

definition ex_ended :: RenovateRun where
  "ex_ended = on_status (\<lambda>st. st\<lparr>rst_phase := RunPhaseFailed\<rparr>) ex_run"

theorem status_write_never_lost_witness:
  "\<exists>r e. run_Reconcile ex_busy ''team'' ''nightly-1'' (ex_world (empty_cluster\<lparr>cl_runs := [ex_ended]\<rparr>)) =
       Some ((r, e), ex_world (empty_cluster\<lparr>cl_runs := [ex_ended]\<rparr>)) \<and>
     (e \<noteq> None \<or> cr_RequeueAfter r = requeueAfterStatusConflict)"
proof -
  let ?w = "ex_world (empty_cluster\<lparr>cl_runs := [ex_ended]\<rparr>)"
  have get: "Get_Run (rn_Client ex_busy) ''team'' ''nightly-1'' (w_cluster ?w) = Inr ex_ended"
    by (simp add: ex_busy_def sim_client_def sim_get_def ex_world_def is_at_def ex_ended_def ex_run_def)
  have "run_phase ex_ended = RunPhaseFailed" by (simp add: ex_ended_def)
  then obtain run' where step: "run_reconcile ex_busy ex_ended ?w = Some ((noRequeue, None), run', ?w)"
    by (simp add: run_reconcile_eq)
  have save: "on_cluster (StatusUpdate_Run (rn_Client ex_busy) run') ?w = (Some (api_error StatusConflict), ?w)"
    by (simp add: ex_busy_def on_cluster_def)
  from status_write_never_lost [THEN conjunct1, rule_format, OF get step save] show ?thesis .
qed

end
